(* ===== verification/Zynax_Prelude.thy ===== *)
theory Zynax_Prelude
  imports
    Main
    "HOL-Library.AList"
    "HOL-Library.Char_ord"
    "HOL-Library.List_Lexorder"
    "HOL-Library.Sublist"
begin

text \<open>
  What every component theory shares: the representation of Go maps, of Go
  errors and formatted messages, of gRPC status codes, and the few functions of
  the Go packages \<^verbatim>\<open>strings\<close>, \<^verbatim>\<open>strconv\<close> and \<^verbatim>\<open>sort\<close> the services call, with the
  generic lemmas about them.

  A Go string or byte slice is a HOL \<^typ>\<open>string\<close>: a list of bytes.  Case mapping
  and white space are those of ASCII.

  A Go map is an association list with distinct keys (\<open>gm_ok\<close>); the order of the
  list is the order in which one \<^verbatim>\<open>range\<close> loop over the map visits it.  Go leaves
  that order open, so nothing is proved of one order only: a statement about a
  map quantifies over the list.
\<close>

named_theorems go_simps \<open>equations of the Go library functions\<close>
named_theorems gm_simps \<open>equations of Go maps\<close>

section \<open>Go maps\<close>

type_synonym ('k, 'v) gomap = "('k \<times> 'v) list"

definition gm_ok :: "('k, 'v) gomap \<Rightarrow> bool" where
  "gm_ok m \<longleftrightarrow> distinct (map fst m)"

text \<open>\<^verbatim>\<open>m[k]\<close> read without the \<^verbatim>\<open>ok\<close> result: the zero value when the key is absent.\<close>

definition gm_get :: "'v \<Rightarrow> ('k, 'v) gomap \<Rightarrow> 'k \<Rightarrow> 'v" where
  "gm_get zero m k = (case map_of m k of None \<Rightarrow> zero | Some v \<Rightarrow> v)"

definition gm_has :: "('k, 'v) gomap \<Rightarrow> 'k \<Rightarrow> bool" where
  "gm_has m k \<longleftrightarrow> map_of m k \<noteq> None"

text \<open>\<^verbatim>\<open>m[k] = v\<close> and \<^verbatim>\<open>delete(m, k)\<close>.\<close>

definition gm_put :: "'k \<Rightarrow> 'v \<Rightarrow> ('k, 'v) gomap \<Rightarrow> ('k, 'v) gomap" where
  "gm_put k v m = AList.update k v m"

definition gm_del :: "'k \<Rightarrow> ('k, 'v) gomap \<Rightarrow> ('k, 'v) gomap" where
  "gm_del k m = AList.delete k m"

lemma gm_ok_Nil [simp]: "gm_ok []"
  by (simp add: gm_ok_def)

lemma gm_ok_Cons [simp]: "gm_ok (p # m) \<longleftrightarrow> fst p \<notin> fst ` set m \<and> gm_ok m"
  by (auto simp: gm_ok_def)

lemma gm_ok_filter [simp]: "gm_ok m \<Longrightarrow> gm_ok (filter P m)"
  by (simp add: gm_ok_def distinct_map_filter)

lemma map_of_gm_put [simp, gm_simps]: "map_of (gm_put k v m) = (map_of m)(k \<mapsto> v)"
  by (simp add: gm_put_def update_conv')

lemma map_of_gm_del [simp, gm_simps]: "map_of (gm_del k m) = (map_of m)(k := None)"
  by (simp add: gm_del_def delete_conv')

lemma gm_ok_put [simp]: "gm_ok m \<Longrightarrow> gm_ok (gm_put k v m)"
  by (simp add: gm_ok_def gm_put_def distinct_update)

lemma gm_ok_del [simp]: "gm_ok m \<Longrightarrow> gm_ok (gm_del k m)"
  by (simp add: gm_ok_def gm_del_def distinct_delete)

lemma gm_has_iff [gm_simps]: "gm_has m k \<longleftrightarrow> k \<in> fst ` set m"
  by (simp add: gm_has_def map_of_eq_None_iff)

lemma gm_has_put [simp]: "gm_has (gm_put k v m) j \<longleftrightarrow> j = k \<or> gm_has m j"
  by (simp add: gm_has_def)

lemma keys_gm_put [simp]: "fst ` set (gm_put k v m) = insert k (fst ` set m)"
  by (simp add: gm_put_def dom_update)

lemma keys_gm_del [simp]: "fst ` set (gm_del k m) = fst ` set m - {k}"
  by (auto simp: gm_del_def AList.delete_eq image_iff)

lemma in_set_gm_put: "(j, w) \<in> set (gm_put k v m) \<Longrightarrow> (j = k \<and> w = v) \<or> (j, w) \<in> set m"
  by (induction m) (auto simp: gm_put_def split: if_splits)

lemma gm_ok_in_set: "gm_ok m \<Longrightarrow> (k, v) \<in> set m \<longleftrightarrow> map_of m k = Some v"
  by (simp add: gm_ok_def)

lemma map_of_eq_set_eq:
  "gm_ok m \<Longrightarrow> gm_ok m' \<Longrightarrow> map_of m = map_of m' \<Longrightarrow> set m = set m'"
  by (auto simp: gm_ok_in_set)

section \<open>Formatted messages and errors\<close>

text \<open>
  A message built with \<^verbatim>\<open>fmt.Sprintf\<close> is kept as the format and its arguments: no
  code of the services takes a rendered message apart again.
\<close>

datatype farg = FS string | FI int | FL "string list"

datatype message = Sprintf string "farg list"

abbreviation Msg :: "string \<Rightarrow> message" where
  "Msg s \<equiv> Sprintf s []"

text \<open>
  An error of a service: a sentinel or typed error, a fresh \<^verbatim>\<open>fmt.Errorf\<close> error, or
  an error that wraps another (\<^verbatim>\<open>%w\<close>).
\<close>

datatype 'e go_error =
    Typed 'e
  | Errorf string "farg list"
  | Wrapf string "farg list" "'e go_error"

text \<open>\<^verbatim>\<open>errors.Is\<close> and \<^verbatim>\<open>errors.As\<close>: the typed error at the end of the chain of wraps.\<close>

fun errors_cause :: "'e go_error \<Rightarrow> 'e option" where
  "errors_cause (Typed e) = Some e"
| "errors_cause (Errorf _ _) = None"
| "errors_cause (Wrapf _ _ e) = errors_cause e"

definition errors_Is :: "'e go_error \<Rightarrow> 'e \<Rightarrow> bool" where
  "errors_Is e t \<longleftrightarrow> errors_cause e = Some t"

lemma errors_Is_simps [simp]:
  "errors_Is (Typed e) t \<longleftrightarrow> e = t"
  "\<not> errors_Is (Errorf f as) t"
  "errors_Is (Wrapf f as e') t \<longleftrightarrow> errors_Is e' t"
  by (simp_all add: errors_Is_def)

lemma errors_Is_unique: "errors_Is e t \<Longrightarrow> errors_Is e u \<Longrightarrow> t = u"
  by (simp add: errors_Is_def)

text \<open>The codes of \<^verbatim>\<open>google.golang.org/grpc/codes\<close> the handlers return.\<close>

datatype grpc_code =
    InvalidArgument | NotFound | FailedPrecondition | PermissionDenied
  | Unavailable | Canceled | DeadlineExceeded | ResourceExhausted | Internal
  | AlreadyExists | Unimplemented | Unauthenticated | Unknown

type_synonym rpc_error = "grpc_code \<times> message"

text \<open>The error of a finished context (\<^verbatim>\<open>ctx.Err()\<close>) and \<^verbatim>\<open>status.FromContextError\<close>.\<close>

datatype ctx_error = CtxCanceled | CtxDeadlineExceeded

fun FromContextError :: "ctx_error \<Rightarrow> rpc_error" where
  "FromContextError CtxCanceled = (Canceled, Msg ''context canceled'')"
| "FromContextError CtxDeadlineExceeded = (DeadlineExceeded, Msg ''context deadline exceeded'')"

section \<open>Strings\<close>

text \<open>\<^verbatim>\<open>strings.HasPrefix\<close>, \<^verbatim>\<open>strings.HasSuffix\<close>, \<^verbatim>\<open>strings.TrimPrefix\<close>, \<^verbatim>\<open>strings.TrimSuffix\<close>.\<close>

definition HasPrefix :: "string \<Rightarrow> string \<Rightarrow> bool" where
  "HasPrefix s p = prefix p s"

definition HasSuffix :: "string \<Rightarrow> string \<Rightarrow> bool" where
  "HasSuffix s p = prefix (rev p) (rev s)"

definition TrimPrefix :: "string \<Rightarrow> string \<Rightarrow> string" where
  "TrimPrefix s p = (if HasPrefix s p then drop (length p) s else s)"

definition TrimSuffix :: "string \<Rightarrow> string \<Rightarrow> string" where
  "TrimSuffix s p = (if HasSuffix s p then take (length s - length p) s else s)"

text \<open>\<^verbatim>\<open>strings.TrimRight(s, "c")\<close> for a cut set of one character.\<close>

definition TrimRightChar :: "char \<Rightarrow> string \<Rightarrow> string" where
  "TrimRightChar c s = rev (dropWhile (\<lambda>x. x = c) (rev s))"

definition is_space :: "char \<Rightarrow> bool" where
  "is_space c \<longleftrightarrow> c = CHR '' '' \<or> (9 \<le> (of_char c :: nat) \<and> (of_char c :: nat) \<le> 13)"

definition TrimSpace :: "string \<Rightarrow> string" where
  "TrimSpace s = rev (dropWhile is_space (rev (dropWhile is_space s)))"

text \<open>\<^verbatim>\<open>strings.Split(s, sep)\<close> and \<^verbatim>\<open>strings.Join\<close>, for a separator of one character.\<close>

fun Split :: "char \<Rightarrow> string \<Rightarrow> string list" where
  "Split c [] = [[]]"
| "Split c (x # xs) =
     (if x = c then [] # Split c xs
      else (case Split c xs of [] \<Rightarrow> [[x]] | w # ws \<Rightarrow> (x # w) # ws))"

fun Join :: "char \<Rightarrow> string list \<Rightarrow> string" where
  "Join c [] = []"
| "Join c [w] = w"
| "Join c (w # v # ws) = w @ c # Join c (v # ws)"

text \<open>\<^verbatim>\<open>strings.Index\<close>: the first position at which the needle occurs.\<close>

fun Index :: "string \<Rightarrow> string \<Rightarrow> nat option" where
  "Index [] p = (if p = [] then Some 0 else None)"
| "Index (x # xs) p =
     (if prefix p (x # xs) then Some 0 else map_option Suc (Index xs p))"

definition is_upper :: "char \<Rightarrow> bool" where
  "is_upper c \<longleftrightarrow> 65 \<le> (of_char c :: nat) \<and> (of_char c :: nat) \<le> 90"

definition is_lower :: "char \<Rightarrow> bool" where
  "is_lower c \<longleftrightarrow> 97 \<le> (of_char c :: nat) \<and> (of_char c :: nat) \<le> 122"

definition is_digit :: "char \<Rightarrow> bool" where
  "is_digit c \<longleftrightarrow> 48 \<le> (of_char c :: nat) \<and> (of_char c :: nat) \<le> 57"

definition lower_char :: "char \<Rightarrow> char" where
  "lower_char c = (if is_upper c then char_of (of_char c + 32 :: nat) else c)"

definition upper_char :: "char \<Rightarrow> char" where
  "upper_char c = (if is_lower c then char_of (of_char c - 32 :: nat) else c)"

definition ToLower :: "string \<Rightarrow> string" where
  "ToLower s = map lower_char s"

definition ToUpper :: "string \<Rightarrow> string" where
  "ToUpper s = map upper_char s"

definition EqualFold :: "string \<Rightarrow> string \<Rightarrow> bool" where
  "EqualFold s t \<longleftrightarrow> ToLower s = ToLower t"

text \<open>\<^verbatim>\<open>strings.ReplaceAll\<close> of one character by another.\<close>

definition ReplaceChar :: "char \<Rightarrow> char \<Rightarrow> string \<Rightarrow> string" where
  "ReplaceChar a b s = map (\<lambda>c. if c = a then b else c) s"

text \<open>\<^verbatim>\<open>sort.Strings\<close>: bytewise lexicographic order, which is the order of the library
  theories on characters and lists.\<close>

definition sort_Strings :: "string list \<Rightarrow> string list" where
  "sort_Strings ss = sort ss"

lemma HasPrefix_iff: "HasPrefix s p \<longleftrightarrow> (\<exists>t. s = p @ t)"
  by (auto simp: HasPrefix_def prefix_def)

lemma HasPrefix_append [simp, go_simps]: "HasPrefix (p @ t) p"
  by (auto simp: HasPrefix_iff)

lemma HasPrefixE: "HasPrefix s p \<Longrightarrow> (\<And>t. s = p @ t \<Longrightarrow> P) \<Longrightarrow> P"
  by (auto simp: HasPrefix_iff)

lemma HasSuffix_iff: "HasSuffix s p \<longleftrightarrow> (\<exists>t. s = t @ p)"
proof -
  have "HasSuffix s p \<longleftrightarrow> (\<exists>u. rev s = rev p @ u)"
    by (auto simp: HasSuffix_def prefix_def)
  also have "\<dots> \<longleftrightarrow> (\<exists>t. s = t @ p)"
    by (metis rev_append rev_rev_ident)
  finally show ?thesis .
qed

lemma TrimPrefix_append [simp, go_simps]: "TrimPrefix (p @ t) p = t"
  by (simp add: TrimPrefix_def)

lemma TrimSuffix_append [simp, go_simps]: "TrimSuffix (t @ p) p = t"
  by (auto simp: TrimSuffix_def HasSuffix_iff)

lemma Split_not_Nil [simp]: "Split c s \<noteq> []"
  by (induction s) (auto split: list.splits)

lemma Split_no_sep: "w \<in> set (Split c s) \<Longrightarrow> c \<notin> set w"
  by (induction s arbitrary: w) (fastforce split: list.splits if_splits)+

lemma Join_Split [simp]: "Join c (Split c s) = s"
proof (induction s)
  case Nil
  show ?case by simp
next
  case (Cons x xs)
  obtain w ws where ws: "Split c xs = w # ws"
    by (cases "Split c xs") auto
  show ?case
    using Cons ws by (cases ws) auto
qed

lemma Split_append_sep [simp]: "c \<notin> set w \<Longrightarrow> Split c (w @ c # s) = w # Split c s"
  by (induction w) auto

lemma Split_no_occ [simp]: "c \<notin> set w \<Longrightarrow> Split c w = [w]"
  by (induction w) auto

lemma Split_Join:
  "ws \<noteq> [] \<Longrightarrow> \<forall>w \<in> set ws. c \<notin> set w \<Longrightarrow> Split c (Join c ws) = ws"
proof (induction ws rule: Join.induct)
  case (3 c w v ws)
  then show ?case by simp
qed auto

lemma Split_inj: "Split c s = Split c t \<Longrightarrow> s = t"
  by (metis Join_Split)

lemma Split_append: "Split c (s @ c # t) = Split c s @ Split c t"
proof (induction s)
  case Nil
  then show ?case by simp
next
  case (Cons x s)
  obtain w ws where "Split c s = w # ws"
    by (cases "Split c s") auto
  with Cons show ?case by simp
qed

lemma Join_append:
  "us \<noteq> [] \<Longrightarrow> vs \<noteq> [] \<Longrightarrow> Join c (us @ vs) = Join c us @ c # Join c vs"
proof (induction us rule: Join.induct)
  case (2 c w)
  then show ?case by (cases vs) auto
qed auto

lemma Index_SomeD:
  "Index s p = Some i \<Longrightarrow> s = take i s @ p @ drop (i + length p) s"
proof (induction s arbitrary: i)
  case Nil
  then show ?case by (auto split: if_splits)
next
  case (Cons x xs)
  show ?case
  proof (cases "prefix p (x # xs)")
    case True
    with Cons.prems show ?thesis
      by (auto simp: prefix_def)
  next
    case False
    with Cons.prems obtain j where j: "Index xs p = Some j" "i = Suc j"
      by auto
    with Cons.IH[of j] show ?thesis by simp
  qed
qed

lemma Index_first:
  "Index s p = Some i \<Longrightarrow> j < i \<Longrightarrow> \<not> prefix p (drop j s)"
proof (induction s arbitrary: i j)
  case Nil
  then show ?case by (auto split: if_splits)
next
  case (Cons x xs)
  then show ?case by (cases j) (auto split: if_splits)
qed

lemma Index_append_first:
  "(\<And>j. j < length a \<Longrightarrow> \<not> prefix p (drop j (a @ p @ b))) \<Longrightarrow> Index (a @ p @ b) p = Some (length a)"
proof (induction a)
  case Nil
  then show ?case by (cases "p @ b") (auto intro: prefixI [OF sym])
next
  case (Cons x a)
  have "\<not> prefix p (x # a @ p @ b)"
    using Cons.prems[of 0] by simp
  moreover have "Index (a @ p @ b) p = Some (length a)"
  proof (rule Cons.IH)
    fix j assume "j < length a"
    with Cons.prems[of "Suc j"] show "\<not> prefix p (drop j (a @ p @ b))" by simp
  qed
  ultimately show ?case by simp
qed

lemma Index_le: "Index s p = Some i \<Longrightarrow> i + length p \<le> length s"
proof (induction s arbitrary: i)
  case Nil
  then show ?case by (auto split: if_splits)
next
  case (Cons x xs)
  then show ?case
    using prefix_length_le[of p "x # xs"] by (fastforce split: if_splits)
qed

lemma set_sort_Strings [simp]: "set (sort_Strings ss) = set ss"
  by (simp add: sort_Strings_def)

lemma length_sort_Strings [simp]: "length (sort_Strings ss) = length ss"
  by (simp add: sort_Strings_def)

lemma distinct_sort_Strings [simp]: "distinct (sort_Strings ss) = distinct ss"
  by (simp add: sort_Strings_def)

lemma sorted_sort_Strings [simp]: "sorted (sort_Strings ss)"
  by (simp add: sort_Strings_def)

lemma sort_Strings_set_eq:
  "distinct ss \<Longrightarrow> distinct ts \<Longrightarrow> set ss = set ts \<Longrightarrow> sort_Strings ss = sort_Strings ts"
  by (simp add: sort_Strings_def sorted_distinct_set_unique)

section \<open>Loops that collect errors\<close>

text \<open>
  The services collect diagnostics by appending inside \<^verbatim>\<open>range\<close> loops.  A loop that
  appends the diagnostics of each element is a concatenation.
\<close>

definition collect :: "('a \<Rightarrow> 'b list) \<Rightarrow> 'a list \<Rightarrow> 'b list" where
  "collect f xs = concat (map f xs)"

text \<open>The same with the loop index.\<close>

fun collect_idx :: "nat \<Rightarrow> (nat \<Rightarrow> 'a \<Rightarrow> 'b list) \<Rightarrow> 'a list \<Rightarrow> 'b list" where
  "collect_idx i f [] = []"
| "collect_idx i f (x # xs) = f i x @ collect_idx (Suc i) f xs"

lemma collect_simps [simp, code]:
  "collect f [] = []"
  "collect f (x # xs) = f x @ collect f xs"
  by (simp_all add: collect_def)

lemma set_collect [simp]: "set (collect f xs) = (\<Union>x\<in>set xs. set (f x))"
  by (simp add: collect_def)

lemma collect_eq_Nil [simp]: "collect f xs = [] \<longleftrightarrow> (\<forall>x\<in>set xs. f x = [])"
  by (auto simp: collect_def)

lemma collect_idx_eq_Nil:
  "collect_idx i f xs = [] \<longleftrightarrow> (\<forall>j<length xs. f (i + j) (xs ! j) = [])"
proof (induction xs arbitrary: i)
  case Nil
  then show ?case by simp
next
  case (Cons x xs)
  show ?case
  proof
    assume "collect_idx i f (x # xs) = []"
    then have "f i x = []" and "\<forall>j<length xs. f (Suc i + j) (xs ! j) = []"
      using Cons.IH[of "Suc i"] by simp_all
    then show "\<forall>j<length (x # xs). f (i + j) ((x # xs) ! j) = []"
      by (auto simp: nth_Cons split: nat.splits)
  next
    assume a: "\<forall>j<length (x # xs). f (i + j) ((x # xs) ! j) = []"
    from a have "f i x = []" by force
    moreover have "\<forall>j<length xs. f (Suc i + j) (xs ! j) = []"
      using a by (metis (no_types, lifting) add_Suc_right add_Suc length_Cons not_less_eq nth_Cons_Suc)
    ultimately show "collect_idx i f (x # xs) = []"
      using Cons.IH[of "Suc i"] by simp
  qed
qed

lemma in_set_collect_idx:
  "y \<in> set (collect_idx i f xs) \<longleftrightarrow> (\<exists>j<length xs. y \<in> set (f (i + j) (xs ! j)))"
proof (induction xs arbitrary: i)
  case Nil
  then show ?case by simp
next
  case (Cons x xs)
  have "(\<exists>j<length (x # xs). y \<in> set (f (i + j) ((x # xs) ! j))) \<longleftrightarrow>
        y \<in> set (f i x) \<or> (\<exists>j<length xs. y \<in> set (f (Suc i + j) (xs ! j)))"
    by (auto simp: less_Suc_eq_0_disj)
  with Cons.IH[of "Suc i"] show ?case by auto
qed

lemma collect_idx_Nil_iff:
  assumes "\<And>i x. f i x = [] \<longleftrightarrow> P x"
  shows "collect_idx k f xs = [] \<longleftrightarrow> (\<forall>x\<in>set xs. P x)"
  by (simp add: collect_idx_eq_Nil assms all_set_conv_all_nth)

end
