(* ===== verification/Go_Lib.thy ===== *)
theory Go_Lib
  imports Zynax_Prelude
begin

text \<open>
  Numbers and values of the Go library the services use: \<^verbatim>\<open>strconv.Itoa\<close>,
  \<^verbatim>\<open>strconv.Atoi\<close>, \<^verbatim>\<open>time.ParseDuration\<close>, machine integer conversions, and the
  dynamic values (\<^verbatim>\<open>interface{}\<close>) a decoded manifest holds.
\<close>

section \<open>Decimal numbers\<close>

definition digit_char :: "nat \<Rightarrow> char" where
  "digit_char d = char_of (48 + d)"

definition digit_val :: "char \<Rightarrow> nat" where
  "digit_val c = of_char c - 48"

fun show_nat :: "nat \<Rightarrow> string" where
  "show_nat n = (if n < 10 then [digit_char n] else show_nat (n div 10) @ [digit_char (n mod 10)])"

declare show_nat.simps [simp del]

definition Itoa :: "int \<Rightarrow> string" where
  "Itoa i = (if i < 0 then CHR ''-'' # show_nat (nat (- i)) else show_nat (nat i))"

definition digits_val :: "string \<Rightarrow> nat" where
  "digits_val s = foldl (\<lambda>a c. 10 * a + digit_val c) 0 s"

abbreviation MaxInt64 :: int where "MaxInt64 \<equiv> 9223372036854775807"
abbreviation MinInt64 :: int where "MinInt64 \<equiv> -9223372036854775808"
abbreviation MaxInt32 :: int where "MaxInt32 \<equiv> 2147483647"
abbreviation MinInt32 :: int where "MinInt32 \<equiv> -2147483648"

text \<open>\<^verbatim>\<open>strconv.Atoi\<close>: a sign, then decimal digits, within the range of a 64-bit \<^verbatim>\<open>int\<close>;
  the second component says whether the error is nil.  Out of range it returns the
  nearest bound beside the error.\<close>

definition Atoi :: "string \<Rightarrow> int \<times> bool" where
  "Atoi s =
     (let neg = (s \<noteq> [] \<and> hd s = CHR ''-'');
          t = (if s \<noteq> [] \<and> (hd s = CHR ''-'' \<or> hd s = CHR ''+'') then tl s else s)
      in if t = [] \<or> \<not> list_all is_digit t then (0, False)
         else let v = int (digits_val t); w = (if neg then - v else v)
              in if w > MaxInt64 then (MaxInt64, False)
                 else if w < MinInt64 then (MinInt64, False)
                 else (w, True))"

text \<open>The conversion \<^verbatim>\<open>int32(x)\<close>: the low 32 bits, read as two's complement.\<close>

definition to_int32 :: "int \<Rightarrow> int" where
  "to_int32 x = (x + 2147483648) mod 4294967296 - 2147483648"

lemma of_char_digit_char [simp]: "d < 10 \<Longrightarrow> of_char (digit_char d) = 48 + d"
  by (simp add: digit_char_def)

lemma digit_val_digit_char [simp]: "d < 10 \<Longrightarrow> digit_val (digit_char d) = d"
  by (simp add: digit_val_def)

lemma is_digit_digit_char [simp]: "d < 10 \<Longrightarrow> is_digit (digit_char d)"
  by (simp add: is_digit_def)

lemma show_nat_not_Nil [simp]: "show_nat n \<noteq> []"
  by (subst show_nat.simps) simp

lemma show_nat_digits: "list_all is_digit (show_nat n)"
proof (induction n rule: show_nat.induct)
  case (1 n)
  then show ?case by (subst show_nat.simps) simp
qed

lemma digits_val_snoc [simp]: "digits_val (s @ [c]) = 10 * digits_val s + digit_val c"
  by (simp add: digits_val_def)

lemma digits_val_show_nat [simp]: "digits_val (show_nat n) = n"
proof (induction n rule: show_nat.induct)
  case (1 n)
  show ?case
  proof (cases "n < 10")
    case True
    then show ?thesis by (subst show_nat.simps) (simp add: digits_val_def)
  next
    case False
    with 1 have "digits_val (show_nat (n div 10) @ [digit_char (n mod 10)]) = n" by simp
    with False show ?thesis by (subst show_nat.simps) simp
  qed
qed

lemma show_nat_inj [simp]: "show_nat m = show_nat n \<longleftrightarrow> m = n"
  by (metis digits_val_show_nat)

lemma hd_show_nat: "is_digit (hd (show_nat n))"
  using show_nat_digits[of n] by (cases "show_nat n") auto

lemma is_digit_not_sign: "is_digit c \<Longrightarrow> c \<noteq> CHR ''-'' \<and> c \<noteq> CHR ''+''"
  by (auto simp: is_digit_def)

lemma Atoi_Itoa: "MinInt64 \<le> i \<Longrightarrow> i \<le> MaxInt64 \<Longrightarrow> Atoi (Itoa i) = (i, True)"
  using is_digit_not_sign[OF hd_show_nat[of "nat i"]]
  by (auto simp: Atoi_def Itoa_def Let_def show_nat_digits)

lemma to_int32_id: "MinInt32 \<le> x \<Longrightarrow> x \<le> MaxInt32 \<Longrightarrow> to_int32 x = x"
  by (simp add: to_int32_def)

lemma to_int32_range: "MinInt32 \<le> to_int32 x \<and> to_int32 x \<le> MaxInt32"
proof -
  have "0 \<le> (x + 2147483648) mod 4294967296" and "(x + 2147483648) mod 4294967296 < 4294967296"
    by simp_all
  then show ?thesis unfolding to_int32_def by linarith
qed

section \<open>Durations\<close>

text \<open>
  \<^verbatim>\<open>time.ParseDuration\<close>, in nanoseconds.  The digits before the point must not pass
  \<^verbatim>\<open>1<<63\<close>, nor may the value of a term or the sum; the fraction of a unit is
  truncated to whole nanoseconds.
\<close>

definition unitMap :: "string \<Rightarrow> nat option" where
  "unitMap u =
     (if u = ''ns'' then Some 1
      else if u = ''us'' \<or> u = [char_of (194::nat), char_of (181::nat), CHR ''s'']
        \<or> u = [char_of (206::nat), char_of (188::nat), CHR ''s''] then Some 1000
      else if u = ''ms'' then Some 1000000
      else if u = ''s'' then Some 1000000000
      else if u = ''m'' then Some 60000000000
      else if u = ''h'' then Some 3600000000000
      else None)"

definition duration_term :: "string \<Rightarrow> (nat \<times> string) option" where
  "duration_term s =
     (let ds = takeWhile is_digit s; s1 = dropWhile is_digit s;
          point = (s1 \<noteq> [] \<and> hd s1 = CHR ''.'');
          s2 = (if point then tl s1 else s1);
          fs = (if point then takeWhile is_digit s2 else []);
          s3 = (if point then dropWhile is_digit s2 else s2);
          u = takeWhile (\<lambda>c. c \<noteq> CHR ''.'' \<and> \<not> is_digit c) s3;
          rest = dropWhile (\<lambda>c. c \<noteq> CHR ''.'' \<and> \<not> is_digit c) s3
      in if ds = [] \<and> fs = [] \<or> digits_val ds > 2 ^ 63 \<or> u = [] then None
         else case unitMap u of
             None \<Rightarrow> None
           | Some unit \<Rightarrow>
               let v = digits_val ds * unit + digits_val fs * unit div 10 ^ length fs
               in if digits_val ds > 2 ^ 63 div unit \<or> v > 2 ^ 63 then None else Some (v, rest))"

lemma length_dropWhile_takeWhile: "length s = length (takeWhile P s) + length (dropWhile P s)"
  by (metis length_append takeWhile_dropWhile_id)

lemma duration_term_shorter: "duration_term s = Some (v, rest) \<Longrightarrow> length rest < length s"
proof -
  assume a: "duration_term s = Some (v, rest)"
  define s1 where "s1 = dropWhile is_digit s"
  define s2 where "s2 = (if s1 \<noteq> [] \<and> hd s1 = CHR ''.'' then tl s1 else s1)"
  define s3 where "s3 = (if s1 \<noteq> [] \<and> hd s1 = CHR ''.'' then dropWhile is_digit s2 else s2)"
  let ?P = "\<lambda>c. c \<noteq> CHR ''.'' \<and> \<not> is_digit c"
  have "takeWhile ?P s3 \<noteq> []" and r: "rest = dropWhile ?P s3"
    using a unfolding duration_term_def s1_def s2_def s3_def Let_def
    by (auto split: if_splits option.splits)
  then have "length rest < length s3"
    using length_dropWhile_takeWhile[of s3 ?P] by (cases "takeWhile ?P s3") auto
  moreover have "length s3 \<le> length s2" unfolding s3_def by (simp add: length_dropWhile_le)
  moreover have "length s2 \<le> length s1" unfolding s2_def by simp
  moreover have "length s1 \<le> length s" unfolding s1_def by (simp add: length_dropWhile_le)
  ultimately show ?thesis by linarith
qed

function duration_terms :: "nat \<Rightarrow> string \<Rightarrow> nat option" where
  "duration_terms d s =
     (if s = [] then Some d
      else case duration_term s of
          None \<Rightarrow> None
        | Some (v, rest) \<Rightarrow> if d + v > 2 ^ 63 then None else duration_terms (d + v) rest)"
  by pat_completeness auto
termination
  by (relation "measure (\<lambda>(d, s). length s)") (auto simp: duration_term_shorter)

declare duration_terms.simps [simp del]

definition ParseDuration :: "string \<Rightarrow> int option" where
  "ParseDuration s =
     (let neg = (s \<noteq> [] \<and> hd s = CHR ''-'');
          t = (if s \<noteq> [] \<and> (hd s = CHR ''-'' \<or> hd s = CHR ''+'') then tl s else s)
      in if t = ''0'' then Some 0
         else if t = [] then None
         else case duration_terms 0 t of
             None \<Rightarrow> None
           | Some d \<Rightarrow> if neg then Some (- int d) else if d > 2 ^ 63 - 1 then None else Some (int d))"

lemma ParseDuration_30s: "ParseDuration ''30s'' = Some 30000000000"
  by (simp add: ParseDuration_def duration_terms.simps duration_term_def Let_def
      is_digit_def unitMap_def digits_val_def digit_val_def)

section \<open>Dynamic values\<close>

text \<open>
  A value of type \<^verbatim>\<open>interface{}\<close> as the YAML decoder leaves it in a manifest.  A float is
  its JSON text, or \<open>None\<close> for the values JSON cannot hold (\<^verbatim>\<open>NaN\<close> and the infinities);
  \<open>VAnyMap\<close> is a map with keys that are not all strings.
\<close>

datatype go_value =
    VNil
  | VBool bool
  | VInt int
  | VFloat "string option"
  | VString string
  | VTime string
  | VList "go_value list"
  | VMap "(string \<times> go_value) list"
  | VAnyMap

text \<open>The text of \<^verbatim>\<open>%T\<close>.\<close>

fun type_name :: "go_value \<Rightarrow> string" where
  "type_name VNil = ''<nil>''"
| "type_name (VBool _) = ''bool''"
| "type_name (VInt _) = ''int''"
| "type_name (VFloat _) = ''float64''"
| "type_name (VString _) = ''string''"
| "type_name (VTime _) = ''time.Time''"
| "type_name (VList _) = ''[]interface {}''"
| "type_name (VMap _) = ''map[string]interface {}''"
| "type_name VAnyMap = ''map[interface {}]interface {}''"

text \<open>The type assertion \<^verbatim>\<open>v.(string)\<close>.\<close>

fun as_string :: "go_value \<Rightarrow> string option" where
  "as_string (VString s) = Some s"
| "as_string _ = None"

lemma as_string_Some [simp]: "as_string v = Some s \<longleftrightarrow> v = VString s"
  by (cases v) auto

end
