(* ===== verification/Compiler_Manifest.thy ===== *)
theory Compiler_Manifest
  imports Go_Lib
begin

text \<open>
  The manifest parser of the workflow compiler
  (\<^verbatim>\<open>services/workflow-compiler/internal/domain/errors.go\<close> and \<^verbatim>\<open>manifest.go\<close>): the
  compilation errors, the manifest's data, and \<^verbatim>\<open>ParseManifest\<close> with its converters.

  The YAML library is a parameter (\<open>yaml_lib\<close>): what \<^verbatim>\<open>yaml.Unmarshal\<close> makes of the
  bytes and what \<^verbatim>\<open>Node.Decode\<close> makes of the node.
\<close>

section \<open>Errors\<close>

datatype CompilationErrorCode =
    ErrorCodeUnspecified
  | ErrorCodeYAMLParseError
  | ErrorCodeNoInitialState
  | ErrorCodeMultipleInitialStates
  | ErrorCodeNoTerminalState
  | ErrorCodeOrphanState
  | ErrorCodeUnknownStateReference
  | ErrorCodeDuplicateStateName
  | ErrorCodeMissingRequiredField
  | ErrorCodeInvalidFieldValue
  | ErrorCodeCircularTransition

record ParseError =
  pe_Code :: CompilationErrorCode
  pe_Message :: message
  pe_Line :: int
  pe_StateName :: string

type_synonym ParseErrors = "ParseError list"

definition ParseError_Error :: "ParseError \<Rightarrow> message" where
  "ParseError_Error e =
     (if pe_Line e > 0
      then (case pe_Message e of Sprintf f as \<Rightarrow> Sprintf (''line %d: '' @ f) (FI (pe_Line e) # as))
      else pe_Message e)"

definition ParseErrors_Error :: "ParseErrors \<Rightarrow> message" where
  "ParseErrors_Error pe = (case pe of [] \<Rightarrow> Msg ''no errors'' | e # _ \<Rightarrow> ParseError_Error e)"

text \<open>A composite literal of a \<^verbatim>\<open>ParseError\<close>, with and without a position.\<close>

abbreviation perr :: "CompilationErrorCode \<Rightarrow> message \<Rightarrow> int \<Rightarrow> string \<Rightarrow> ParseError" where
  "perr c m l s \<equiv> \<lparr>pe_Code = c, pe_Message = m, pe_Line = l, pe_StateName = s\<rparr>"

section \<open>Manifest data\<close>

datatype StateType = StateTypeNormal | StateTypeTerminal | StateTypeHumanInTheLoop

record Action =
  act_Capability :: string
  act_Timeout :: int
  act_Input :: "(string, go_value) gomap"
  act_OutputBindings :: "(string, string) gomap"
  act_InputBindings :: "(string, string) gomap"
  act_Async :: bool

record Transition =
  tr_EventType :: string
  tr_TargetState :: string
  tr_Guard :: string
  tr_Set :: "(string, go_value) gomap"
  tr_Conditions :: "(string, string) gomap"

record State =
  st_ID :: string
  st_Type :: StateType
  st_Actions :: "Action list"
  st_Transitions :: "Transition list"
  st_Outputs :: "(string, string) gomap"
  st_Line :: int

record Manifest =
  mf_APIVersion :: string
  mf_Kind :: string
  mf_Name :: string
  mf_Namespace :: string
  mf_Labels :: "(string, string) gomap"
  mf_Annotations :: "(string, string) gomap"
  mf_InitialState :: string
  mf_States :: "(string, State) gomap"

text \<open>The YAML intermediate structs.\<close>

record yamlMetadata =
  ym_Name :: string
  ym_Namespace :: string
  ym_Labels :: "(string, string) gomap"
  ym_Annotations :: "(string, string) gomap"

record yamlAction =
  ya_Capability :: string
  ya_Timeout :: string
  ya_Input :: "(string, go_value) gomap"
  ya_Output :: "(string, go_value) gomap"
  ya_Async :: bool

record yamlTransition =
  yt_Event :: string
  yt_Goto :: string
  yt_Guard :: string
  yt_Set :: "(string, go_value) gomap"

record yamlState =
  ys_Type :: string
  ys_Actions :: "yamlAction list"
  ys_On :: "yamlTransition list"
  ys_Outputs :: "(string, go_value) gomap"

record yamlSpec =
  ysp_InitialState :: string
  ysp_States :: "(string, yamlState) gomap"

record yamlManifest =
  yf_Kind :: string
  yf_APIVersion :: string
  yf_Metadata :: yamlMetadata
  yf_Spec :: yamlSpec

text \<open>A \<^verbatim>\<open>yaml.Node\<close>: the fields the parser reads.\<close>

datatype yaml_kind = ZeroKind | DocumentNode | SequenceNode | MappingNode | ScalarNode | AliasNode

datatype yaml_node = YNode (n_Kind: yaml_kind) (n_Value: string) (n_Line: int) (n_Content: "yaml_node list")

text \<open>The YAML library: an error is its text.\<close>

record yaml_lib =
  yaml_Unmarshal :: "string \<Rightarrow> string + yaml_node"
  yaml_Decode :: "yaml_node \<Rightarrow> string + yamlManifest"

section \<open>Converters\<close>

definition defaultNamespace :: string where
  "defaultNamespace = ''default''"

definition inputBindingPrefix :: string where
  "inputBindingPrefix = ''$.states.''"

text \<open>The string values of a map: what the loops of the two converters keep.\<close>

definition string_values :: "(string, go_value) gomap \<Rightarrow> (string, string) gomap" where
  "string_values raw = List.map_filter (\<lambda>(k, v). map_option (Pair k) (as_string v)) raw"

definition convertWorkflowOutputs ::
  "string \<Rightarrow> (string, go_value) gomap \<Rightarrow> int \<Rightarrow> (string, string) gomap \<times> ParseErrors" where
  "convertWorkflowOutputs state raw line =
     (string_values raw,
      collect (\<lambda>(key, val). case as_string val of
          Some s \<Rightarrow> []
        | None \<Rightarrow> [perr ErrorCodeInvalidFieldValue
            (Sprintf ''state %q: outputs[%q] must be a string source path, got %T''
              [FS state, FS key, FS (type_name val)]) line state]) raw)"

definition convertOutputBindings ::
  "string \<Rightarrow> nat \<Rightarrow> (string, go_value) gomap \<Rightarrow> int \<Rightarrow> (string, string) gomap \<times> ParseErrors" where
  "convertOutputBindings state actionIdx raw line =
     (string_values raw,
      collect (\<lambda>(key, val). case as_string val of
          Some s \<Rightarrow> []
        | None \<Rightarrow> [perr ErrorCodeInvalidFieldValue
            (Sprintf ''state %q: actions[%d].output[%q] must be a string source path, got %T''
              [FS state, FI (int actionIdx), FS key, FS (type_name val)]) line state]) raw)"

text \<open>Is a value a reference into the data context?\<close>

definition binding_ref :: "go_value \<Rightarrow> string option" where
  "binding_ref v = (case as_string v of
       Some s \<Rightarrow> if HasPrefix s inputBindingPrefix then Some s else None
     | None \<Rightarrow> None)"

definition splitInputBindings ::
  "(string, go_value) gomap \<Rightarrow> (string, go_value) gomap \<times> (string, string) gomap" where
  "splitInputBindings raw =
     (filter (\<lambda>(k, v). binding_ref v = None) raw,
      List.map_filter (\<lambda>(k, v). map_option (Pair k) (binding_ref v)) raw)"

definition state_type :: "string \<Rightarrow> StateType option" where
  "state_type t =
     (let l = ToLower t in
      if l = '''' \<or> l = ''normal'' then Some StateTypeNormal
      else if l = ''terminal'' then Some StateTypeTerminal
      else if l = ''human_in_the_loop'' then Some StateTypeHumanInTheLoop
      else None)"

text \<open>One turn of the loop over the actions: its errors and the action it appends.\<close>

definition convert_action :: "string \<Rightarrow> int \<Rightarrow> nat \<Rightarrow> yamlAction \<Rightarrow> ParseErrors \<times> Action list" where
  "convert_action name line i ya =
     (if ya_Capability ya = '''' then
        ([perr ErrorCodeMissingRequiredField
           (Sprintf ''state %q: actions[%d].capability is required'' [FS name, FI (int i)]) line name], [])
      else
        let dur = (if ya_Timeout ya = '''' then Some 0 else ParseDuration (ya_Timeout ya));
            outs = convertOutputBindings name i (ya_Output ya) line;
            ins = splitInputBindings (ya_Input ya)
        in ((case dur of
               None \<Rightarrow> [perr ErrorCodeInvalidFieldValue
                 (Sprintf ''state %q: actions[%d].timeout %q is not a valid duration''
                   [FS name, FI (int i), FS (ya_Timeout ya)]) line name]
             | Some _ \<Rightarrow> []) @ snd outs,
            [\<lparr>act_Capability = ya_Capability ya,
              act_Timeout = (case dur of None \<Rightarrow> 0 | Some d \<Rightarrow> d),
              act_Input = fst ins, act_OutputBindings = fst outs,
              act_InputBindings = snd ins, act_Async = ya_Async ya\<rparr>]))"

text \<open>One turn of the loop over the transitions.\<close>

definition convert_transition ::
  "string \<Rightarrow> int \<Rightarrow> nat \<Rightarrow> yamlTransition \<Rightarrow> ParseErrors \<times> Transition list" where
  "convert_transition name line i yt =
     (if yt_Event yt = '''' then
        ([perr ErrorCodeMissingRequiredField
           (Sprintf ''state %q: on[%d].event is required'' [FS name, FI (int i)]) line name], [])
      else if yt_Goto yt = '''' then
        ([perr ErrorCodeMissingRequiredField
           (Sprintf ''state %q: on[%d].goto is required'' [FS name, FI (int i)]) line name], [])
      else ([], [\<lparr>tr_EventType = yt_Event yt, tr_TargetState = yt_Goto yt,
                  tr_Guard = yt_Guard yt, tr_Set = yt_Set yt, tr_Conditions = []\<rparr>]))"

definition convertState :: "string \<Rightarrow> yamlState \<Rightarrow> int \<Rightarrow> ParseErrors + State" where
  "convertState name ys line =
     (let typeErrs = (case state_type (ys_Type ys) of
            Some _ \<Rightarrow> []
          | None \<Rightarrow> [perr ErrorCodeInvalidFieldValue
              (Sprintf ''state %q: unknown type %q'' [FS name, FS (ys_Type ys)]) line name]);
          outs = convertWorkflowOutputs name (ys_Outputs ys) line;
          errs = typeErrs
            @ collect_idx 0 (\<lambda>i ya. fst (convert_action name line i ya)) (ys_Actions ys)
            @ collect_idx 0 (\<lambda>i yt. fst (convert_transition name line i yt)) (ys_On ys)
            @ snd outs
      in if errs \<noteq> [] then Inl errs
         else Inr \<lparr>st_ID = name,
                   st_Type = (case state_type (ys_Type ys) of Some t \<Rightarrow> t | None \<Rightarrow> StateTypeNormal),
                   st_Actions = collect_idx 0 (\<lambda>i ya. snd (convert_action name line i ya)) (ys_Actions ys),
                   st_Transitions = collect_idx 0 (\<lambda>i yt. snd (convert_transition name line i yt)) (ys_On ys),
                   st_Outputs = fst outs, st_Line = line\<rparr>)"

section \<open>Source positions\<close>

fun states_lines :: "yaml_node list \<Rightarrow> (string, int) gomap \<Rightarrow> (string, int) gomap" where
  "states_lines (k # v # r) ls = states_lines r (gm_put (n_Value k) (n_Line k) ls)"
| "states_lines _ ls = ls"

fun spec_lines :: "yaml_node list \<Rightarrow> (string, int) gomap \<Rightarrow> (string, int) gomap" where
  "spec_lines (k # v # r) ls =
     (if n_Value k \<noteq> ''states'' then spec_lines r ls
      else if n_Kind v \<noteq> MappingNode then ls
      else spec_lines r (states_lines (n_Content v) ls))"
| "spec_lines _ ls = ls"

fun doc_lines :: "yaml_node list \<Rightarrow> (string, int) gomap \<Rightarrow> (string, int) gomap" where
  "doc_lines (k # v # r) ls =
     (if n_Value k \<noteq> ''spec'' then doc_lines r ls
      else if n_Kind v \<noteq> MappingNode then ls
      else doc_lines r (spec_lines (n_Content v) ls))"
| "doc_lines _ ls = ls"

definition extractStateLines :: "yaml_node \<Rightarrow> (string, int) gomap" where
  "extractStateLines root =
     (if n_Kind root \<noteq> DocumentNode then []
      else case n_Content root of
          [] \<Rightarrow> []
        | doc # _ \<Rightarrow> if n_Kind doc \<noteq> MappingNode then [] else doc_lines (n_Content doc) [])"

text \<open>The leftmost match of \<^verbatim>\<open>line (\d+)\<close>: its digits.\<close>

fun yamlLineRe :: "string \<Rightarrow> string option" where
  "yamlLineRe [] = None"
| "yamlLineRe (c # cs) =
     (let ds = takeWhile is_digit (drop 5 (c # cs)) in
      if HasPrefix (c # cs) ''line '' \<and> ds \<noteq> [] then Some ds else yamlLineRe cs)"

definition extractYAMLErrorLine :: "string \<Rightarrow> int" where
  "extractYAMLErrorLine err = (case yamlLineRe err of None \<Rightarrow> 0 | Some ds \<Rightarrow> fst (Atoi ds))"

section \<open>ParseManifest\<close>

definition top_level_errors :: "yamlManifest \<Rightarrow> ParseErrors" where
  "top_level_errors raw =
     (if yf_Kind raw \<noteq> ''Workflow''
      then [perr ErrorCodeMissingRequiredField
              (Sprintf ''kind must be 'Workflow', got %q'' [FS (yf_Kind raw)]) 0 ''''] else [])
     @ (if ym_Name (yf_Metadata raw) = ''''
        then [perr ErrorCodeMissingRequiredField (Msg ''metadata.name is required'') 0 ''''] else [])
     @ (if ysp_InitialState (yf_Spec raw) = ''''
        then [perr ErrorCodeNoInitialState (Msg ''spec.initial_state is required'') 0 ''''] else [])
     @ (if ysp_States (yf_Spec raw) = []
        then [perr ErrorCodeMissingRequiredField
                (Msg ''spec.states must contain at least one state'') 0 ''''] else [])"

text \<open>The loop over the raw states, in iteration order: the errors and the states kept.\<close>

definition state_errors :: "(string, int) gomap \<Rightarrow> (string, yamlState) gomap \<Rightarrow> ParseErrors" where
  "state_errors ls raws =
     collect (\<lambda>(name, ys). case convertState name ys (gm_get 0 ls name) of Inl es \<Rightarrow> es | Inr _ \<Rightarrow> []) raws"

definition state_map :: "(string, int) gomap \<Rightarrow> (string, yamlState) gomap \<Rightarrow> (string, State) gomap" where
  "state_map ls raws =
     List.map_filter (\<lambda>(name, ys). case convertState name ys (gm_get 0 ls name) of
         Inl _ \<Rightarrow> None | Inr st \<Rightarrow> Some (name, st)) raws"

definition ParseManifest :: "yaml_lib \<Rightarrow> string \<Rightarrow> ParseErrors + Manifest" where
  "ParseManifest yaml data =
     (case yaml_Unmarshal yaml data of
        Inl err \<Rightarrow> Inl [perr ErrorCodeYAMLParseError (Msg err) (extractYAMLErrorLine err) '''']
      | Inr root \<Rightarrow>
          if n_Kind root = ZeroKind
          then Inl [perr ErrorCodeMissingRequiredField (Msg ''manifest is empty'') 0 '''']
          else case yaml_Decode yaml root of
              Inl err \<Rightarrow> Inl [perr ErrorCodeYAMLParseError (Msg err) (extractYAMLErrorLine err) '''']
            | Inr raw \<Rightarrow>
                if top_level_errors raw \<noteq> [] then Inl (top_level_errors raw)
                else
                  let ls = extractStateLines root; raws = ysp_States (yf_Spec raw) in
                  if state_errors ls raws \<noteq> [] then Inl (state_errors ls raws)
                  else Inr \<lparr>mf_APIVersion = yf_APIVersion raw, mf_Kind = yf_Kind raw,
                            mf_Name = ym_Name (yf_Metadata raw),
                            mf_Namespace = (if ym_Namespace (yf_Metadata raw) = '''' then defaultNamespace
                                            else ym_Namespace (yf_Metadata raw)),
                            mf_Labels = ym_Labels (yf_Metadata raw),
                            mf_Annotations = ym_Annotations (yf_Metadata raw),
                            mf_InitialState = ysp_InitialState (yf_Spec raw),
                            mf_States = state_map ls raws\<rparr>)"

section \<open>What the parser accepts\<close>

definition yaml_action_ok :: "yamlAction \<Rightarrow> bool" where
  "yaml_action_ok ya \<longleftrightarrow>
     ya_Capability ya \<noteq> '''' \<and>
     (ya_Timeout ya = '''' \<or> ParseDuration (ya_Timeout ya) \<noteq> None) \<and>
     list_all (\<lambda>(k, v). as_string v \<noteq> None) (ya_Output ya)"

definition yaml_transition_ok :: "yamlTransition \<Rightarrow> bool" where
  "yaml_transition_ok yt \<longleftrightarrow> yt_Event yt \<noteq> '''' \<and> yt_Goto yt \<noteq> ''''"

definition yaml_state_ok :: "yamlState \<Rightarrow> bool" where
  "yaml_state_ok ys \<longleftrightarrow>
     state_type (ys_Type ys) \<noteq> None \<and>
     list_all yaml_action_ok (ys_Actions ys) \<and>
     list_all yaml_transition_ok (ys_On ys) \<and>
     list_all (\<lambda>(k, v). as_string v \<noteq> None) (ys_Outputs ys)"

definition yaml_manifest_ok :: "yamlManifest \<Rightarrow> bool" where
  "yaml_manifest_ok raw \<longleftrightarrow>
     yf_Kind raw = ''Workflow'' \<and> ym_Name (yf_Metadata raw) \<noteq> '''' \<and>
     ysp_InitialState (yf_Spec raw) \<noteq> '''' \<and> ysp_States (yf_Spec raw) \<noteq> [] \<and>
     list_all (\<lambda>(n, ys). yaml_state_ok ys) (ysp_States (yf_Spec raw))"

text \<open>What holds of a parsed state and of a parsed manifest.\<close>

definition state_wf :: "string \<Rightarrow> State \<Rightarrow> bool" where
  "state_wf name st \<longleftrightarrow>
     st_ID st = name \<and>
     list_all (\<lambda>a. act_Capability a \<noteq> '''' \<and>
        list_all (\<lambda>(k, r). HasPrefix r inputBindingPrefix) (act_InputBindings a) \<and>
        list_all (\<lambda>(k, v). binding_ref v = None) (act_Input a)) (st_Actions st) \<and>
     list_all (\<lambda>t. tr_EventType t \<noteq> '''' \<and> tr_TargetState t \<noteq> '''' \<and> tr_Conditions t = [])
       (st_Transitions st)"

definition manifest_wf :: "Manifest \<Rightarrow> bool" where
  "manifest_wf m \<longleftrightarrow>
     mf_Kind m = ''Workflow'' \<and> mf_Name m \<noteq> '''' \<and> mf_Namespace m \<noteq> '''' \<and>
     mf_InitialState m \<noteq> '''' \<and> mf_States m \<noteq> [] \<and> gm_ok (mf_States m) \<and>
     list_all (\<lambda>(n, st). state_wf n st) (mf_States m)"

lemma non_string_errors_Nil:
  "snd (convertWorkflowOutputs s raw l) = [] \<longleftrightarrow> list_all (\<lambda>(k, v). as_string v \<noteq> None) raw"
  "snd (convertOutputBindings s i raw l) = [] \<longleftrightarrow> list_all (\<lambda>(k, v). as_string v \<noteq> None) raw"
  by (auto simp: convertWorkflowOutputs_def convertOutputBindings_def list_all_iff split: option.splits)

lemma convert_action_ok: "fst (convert_action name l i ya) = [] \<longleftrightarrow> yaml_action_ok ya"
  by (auto simp: convert_action_def yaml_action_ok_def Let_def non_string_errors_Nil split: option.splits)

lemma convert_transition_ok: "fst (convert_transition name l i yt) = [] \<longleftrightarrow> yaml_transition_ok yt"
  by (simp add: convert_transition_def yaml_transition_ok_def)

lemma convertState_ok: "(\<exists>st. convertState name ys l = Inr st) \<longleftrightarrow> yaml_state_ok ys"
  by (auto simp: convertState_def yaml_state_ok_def Let_def collect_idx_eq_Nil convert_action_ok
      convert_transition_ok non_string_errors_Nil list_all_length split: option.splits)

lemma binding_ref_Some: "binding_ref v = Some s \<longleftrightarrow> v = VString s \<and> HasPrefix s inputBindingPrefix"
  by (auto simp: binding_ref_def split: option.splits)

lemma in_set_map_filter: "y \<in> set (List.map_filter f xs) \<longleftrightarrow> (\<exists>x\<in>set xs. f x = Some y)"
  by (force simp: List.map_filter_def)

lemma convertState_wf: "convertState name ys l = Inr st \<Longrightarrow> state_wf name st"
  by (auto simp: convertState_def state_wf_def Let_def list_all_iff in_set_collect_idx
      convert_action_def convert_transition_def splitInputBindings_def in_set_map_filter
      binding_ref_Some split: if_splits option.splits)

lemma state_errors_Nil:
  "state_errors ls raws = [] \<longleftrightarrow> list_all (\<lambda>(n, ys). yaml_state_ok ys) raws"
proof -
  have "(case convertState n ys k of Inl es \<Rightarrow> es | Inr _ \<Rightarrow> []) = [] \<longleftrightarrow> yaml_state_ok ys" for n ys k
  proof -
    have "convertState n ys k \<noteq> Inl []" by (simp add: convertState_def Let_def)
    then show ?thesis using convertState_ok[of n ys k] by (cases "convertState n ys k") auto
  qed
  then show ?thesis by (auto simp: state_errors_def list_all_iff)
qed

lemma keys_state_map:
  assumes "list_all (\<lambda>(n, ys). yaml_state_ok ys) raws"
  shows "map fst (state_map ls raws) = map fst raws"
  using assms
proof (induction raws)
  case (Cons p raws)
  obtain n ys where p: "p = (n, ys)" by (cases p)
  with Cons.prems obtain st where "convertState n ys (gm_get 0 ls n) = Inr st"
    using convertState_ok[of n ys "gm_get 0 ls n"] by auto
  with Cons p show ?case by (simp add: state_map_def List.map_filter_simps)
qed (simp add: state_map_def List.map_filter_simps)

lemma state_map_wf: "list_all (\<lambda>(n, st). state_wf n st) (state_map ls raws)"
proof -
  have "state_wf n st" if "(n, st) \<in> set (state_map ls raws)" for n st
  proof -
    from that obtain ys where "convertState n ys (gm_get 0 ls n) = Inr st"
      by (auto simp: state_map_def in_set_map_filter split: sum.splits)
    then show ?thesis by (rule convertState_wf)
  qed
  then show ?thesis by (auto simp: list_all_iff)
qed

lemma top_level_errors_Nil:
  "top_level_errors raw = [] \<and> state_errors ls (ysp_States (yf_Spec raw)) = [] \<longleftrightarrow> yaml_manifest_ok raw"
  by (auto simp: top_level_errors_def yaml_manifest_ok_def state_errors_Nil)

text \<open>C5 A manifest that the YAML library can decode is accepted exactly when it is valid: the
  four top-level fields are present, and in every state the type is known, every action
  has a capability, a readable timeout and string output paths, every transition has an
  event and a target, and every declared workflow output is a string.\<close>

theorem ParseManifest_accepts:
  assumes "yaml_Unmarshal yaml data = Inr root" and "n_Kind root \<noteq> ZeroKind"
    and "yaml_Decode yaml root = Inr raw"
  shows "(\<exists>m. ParseManifest yaml data = Inr m) \<longleftrightarrow> yaml_manifest_ok raw"
  using assms top_level_errors_Nil[of raw "extractStateLines root"]
  by (auto simp: ParseManifest_def Let_def)

lemma ParseManifest_states_ok:
  assumes "ParseManifest yaml data = Inr m"
    and "\<And>root raw. yaml_Decode yaml root = Inr raw \<Longrightarrow> gm_ok (ysp_States (yf_Spec raw))"
  shows "gm_ok (mf_States m)"
proof -
  obtain root raw where r: "yaml_Decode yaml root = Inr raw" "top_level_errors raw = []"
    "state_errors (extractStateLines root) (ysp_States (yf_Spec raw)) = []"
    and m: "mf_States m = state_map (extractStateLines root) (ysp_States (yf_Spec raw))"
    using assms(1) by (auto simp: ParseManifest_def Let_def split: sum.splits if_splits)
  have "yaml_manifest_ok raw" using r top_level_errors_Nil by blast
  then have "map fst (mf_States m) = map fst (ysp_States (yf_Spec raw))"
    using m keys_state_map by (simp add: yaml_manifest_ok_def)
  then show ?thesis using assms(2)[OF r(1)] by (simp add: gm_ok_def)
qed

text \<open>A parsed manifest is well formed: it is a workflow with a name, a namespace and an
  initial state; its states are a map keyed by their own IDs; every action has a
  capability, its bindings are references and its literals are not; every transition
  has an event and a target.\<close>

theorem ParseManifest_wf:
  assumes "ParseManifest yaml data = Inr m"
    and "\<And>root raw. yaml_Decode yaml root = Inr raw \<Longrightarrow> gm_ok (ysp_States (yf_Spec raw))"
  shows "manifest_wf m"
proof -
  obtain root raw where r: "yaml_Decode yaml root = Inr raw" "top_level_errors raw = []"
    "state_errors (extractStateLines root) (ysp_States (yf_Spec raw)) = []"
    and m: "mf_Kind m = yf_Kind raw" "mf_Name m = ym_Name (yf_Metadata raw)" "mf_Namespace m \<noteq> ''''"
    "mf_InitialState m = ysp_InitialState (yf_Spec raw)"
    "mf_States m = state_map (extractStateLines root) (ysp_States (yf_Spec raw))"
    using assms(1) by (auto simp: ParseManifest_def Let_def defaultNamespace_def
        split: sum.splits if_splits)
  have ok: "yaml_manifest_ok raw" using r top_level_errors_Nil by blast
  then have k: "map fst (mf_States m) = map fst (ysp_States (yf_Spec raw))"
    using m keys_state_map by (simp add: yaml_manifest_ok_def)
  then have "mf_States m \<noteq> []" using ok by (auto simp: yaml_manifest_ok_def)
  moreover have "gm_ok (mf_States m)" by (rule ParseManifest_states_ok [OF assms])
  moreover have "list_all (\<lambda>(n, st). state_wf n st) (mf_States m)"
    unfolding m(5) by (rule state_map_wf)
  ultimately show ?thesis using ok m by (simp add: manifest_wf_def yaml_manifest_ok_def)
qed

end
