(* ===== verification/Compiler_Graph.thy ===== *)
theory Compiler_Graph
  imports Compiler_Manifest
begin

text \<open>
  The workflow graph of the compiler (\<^verbatim>\<open>services/workflow-compiler/internal/domain/graph.go\<close>):
  \<^verbatim>\<open>Build\<close> with the validation of data bindings, and the queries on a graph.  The
  set of outputs a state declares is the list of its keys.
\<close>

record WorkflowGraph =
  g_Name :: string
  g_Namespace :: string
  g_InitialState :: string
  g_States :: "(string, State) gomap"

section \<open>Data references\<close>

definition parseBindingRef :: "string \<Rightarrow> (string \<times> string) option" where
  "parseBindingRef ref =
     (if \<not> HasPrefix ref ''$.states.'' then None
      else let rest = drop (length ''$.states.'') ref in
        case Index rest ''.output.'' of
          None \<Rightarrow> None
        | Some idx \<Rightarrow>
            if idx = 0 then None
            else let state = take idx rest; key = drop (idx + length ''.output.'') rest in
              if state = '''' \<or> key = '''' then None else Some (state, key))"

definition declared_keys :: "State \<Rightarrow> string list" where
  "declared_keys st = collect (\<lambda>a. map fst (act_OutputBindings a)) (st_Actions st)"

definition indexDeclaredOutputs :: "(string, State) gomap \<Rightarrow> (string, string list) gomap" where
  "indexDeclaredOutputs states =
     filter (\<lambda>(id, ks). ks \<noteq> []) (map (\<lambda>(id, st). (id, declared_keys st)) states)"

definition resolveBinding ::
  "string \<Rightarrow> nat \<Rightarrow> string \<Rightarrow> string \<Rightarrow> int \<Rightarrow> (string, string list) gomap \<Rightarrow> ParseErrors" where
  "resolveBinding consumer actionIdx inputKey ref line declared =
     (case parseBindingRef ref of
        None \<Rightarrow> [perr ErrorCodeInvalidFieldValue
          (Sprintf ''state %q: actions[%d].input[%q] reference %q is malformed; expected \"$.states.<state>.output.<key>\"''
            [FS consumer, FI (int actionIdx), FS inputKey, FS ref]) line consumer]
      | Some (srcState, srcKey) \<Rightarrow>
          (case map_of declared srcState of
             None \<Rightarrow> [perr ErrorCodeInvalidFieldValue
               (Sprintf ''state %q: actions[%d].input[%q] references output of unknown or output-less state %q''
                 [FS consumer, FI (int actionIdx), FS inputKey, FS srcState]) line consumer]
           | Some outputs \<Rightarrow>
               if srcKey \<notin> set outputs
               then [perr ErrorCodeInvalidFieldValue
                 (Sprintf ''state %q: actions[%d].input[%q] references undeclared output %q of state %q''
                   [FS consumer, FI (int actionIdx), FS inputKey, FS srcKey, FS srcState]) line consumer]
               else []))"

definition resolveWorkflowOutput ::
  "string \<Rightarrow> string \<Rightarrow> string \<Rightarrow> int \<Rightarrow> (string, string list) gomap \<Rightarrow> ParseErrors" where
  "resolveWorkflowOutput state outputName ref line declared =
     (case parseBindingRef ref of
        None \<Rightarrow> [perr ErrorCodeInvalidFieldValue
          (Sprintf ''state %q: outputs[%q] reference %q is malformed; expected \"$.states.<state>.output.<key>\"''
            [FS state, FS outputName, FS ref]) line state]
      | Some (srcState, srcKey) \<Rightarrow>
          (case map_of declared srcState of
             None \<Rightarrow> [perr ErrorCodeInvalidFieldValue
               (Sprintf ''state %q: outputs[%q] references output of unknown or output-less state %q''
                 [FS state, FS outputName, FS srcState]) line state]
           | Some outputs \<Rightarrow>
               if srcKey \<notin> set outputs
               then [perr ErrorCodeInvalidFieldValue
                 (Sprintf ''state %q: outputs[%q] references undeclared output %q of state %q''
                   [FS state, FS outputName, FS srcKey, FS srcState]) line state]
               else []))"

definition validateInputBindings :: "(string, State) gomap \<Rightarrow> ParseErrors" where
  "validateInputBindings states =
     (let declared = indexDeclaredOutputs states in
      collect (\<lambda>(id, st).
        collect_idx 0 (\<lambda>ai a.
          collect (\<lambda>(key, ref). resolveBinding id ai key ref (st_Line st) declared) (act_InputBindings a))
          (st_Actions st)) states)"

definition validateWorkflowOutputs :: "(string, State) gomap \<Rightarrow> ParseErrors" where
  "validateWorkflowOutputs states =
     (let declared = indexDeclaredOutputs states in
      collect (\<lambda>(id, st).
        if st_Outputs st = [] then []
        else if st_Type st \<noteq> StateTypeTerminal
        then [perr ErrorCodeInvalidFieldValue
          (Sprintf ''state %q: outputs may be declared only on a terminal state'' [FS id]) (st_Line st) id]
        else collect (\<lambda>(name, ref).
          if \<not> HasPrefix ref inputBindingPrefix then []
          else resolveWorkflowOutput id name ref (st_Line st) declared) (st_Outputs st)) states)"

section \<open>Build\<close>

definition initial_errors :: "Manifest \<Rightarrow> ParseErrors" where
  "initial_errors m =
     (if gm_has (mf_States m) (mf_InitialState m) then []
      else [perr ErrorCodeUnknownStateReference
        (Sprintf ''initial_state %q is not defined in spec.states'' [FS (mf_InitialState m)])
        0 (mf_InitialState m)])"

definition target_errors :: "(string, State) gomap \<Rightarrow> ParseErrors" where
  "target_errors states =
     collect (\<lambda>(stateID, state).
       collect (\<lambda>t. if gm_has states (tr_TargetState t) then []
         else [perr ErrorCodeUnknownStateReference
           (Sprintf ''state %q transitions to unknown state %q'' [FS stateID, FS (tr_TargetState t)])
           (st_Line state) (tr_TargetState t)]) (st_Transitions state)) states"

definition terminal_errors :: "(string, State) gomap \<Rightarrow> ParseErrors" where
  "terminal_errors states =
     (if list_ex (\<lambda>(id, st). st_Type st = StateTypeTerminal) states then []
      else [perr ErrorCodeNoTerminalState (Msg ''workflow must have at least one terminal state'') 0 ''''])"

text \<open>The keys of the map \<^verbatim>\<open>reachable\<close>.\<close>

definition targeted :: "Manifest \<Rightarrow> string list" where
  "targeted m = mf_InitialState m #
     collect (\<lambda>(id, st). map tr_TargetState (st_Transitions st)) (mf_States m)"

definition orphan_errors :: "Manifest \<Rightarrow> ParseErrors" where
  "orphan_errors m =
     (let reachable = targeted m in
      collect (\<lambda>(stateID, state). if stateID \<in> set reachable then []
        else [perr ErrorCodeOrphanState
          (Sprintf ''state %q is unreachable: no transition targets it'' [FS stateID])
          (st_Line state) stateID]) (mf_States m))"

definition build_errors :: "Manifest \<Rightarrow> ParseErrors" where
  "build_errors m =
     initial_errors m @ target_errors (mf_States m) @ terminal_errors (mf_States m) @ orphan_errors m
     @ validateInputBindings (mf_States m) @ validateWorkflowOutputs (mf_States m)"

definition Build :: "Manifest \<Rightarrow> ParseErrors + WorkflowGraph" where
  "Build m =
     (let errs = build_errors m in
      if errs \<noteq> [] then Inl errs
      else Inr \<lparr>g_Name = mf_Name m, g_Namespace = mf_Namespace m,
                g_InitialState = mf_InitialState m, g_States = mf_States m\<rparr>)"

definition TransitionsFor :: "WorkflowGraph \<Rightarrow> string \<Rightarrow> string \<Rightarrow> Transition list" where
  "TransitionsFor g stateID eventType =
     (case map_of (g_States g) stateID of
        None \<Rightarrow> []
      | Some state \<Rightarrow> filter (\<lambda>t. tr_EventType t = eventType) (st_Transitions state))"

definition TerminalStates :: "WorkflowGraph \<Rightarrow> string list" where
  "TerminalStates g = map fst (filter (\<lambda>(id, st). st_Type st = StateTypeTerminal) (g_States g))"

section \<open>What Build accepts\<close>

text \<open>A data reference names an output that some action of its state publishes.\<close>

definition ref_resolves :: "(string, State) gomap \<Rightarrow> string \<Rightarrow> bool" where
  "ref_resolves states ref \<longleftrightarrow>
     (case parseBindingRef ref of
        None \<Rightarrow> False
      | Some (s, k) \<Rightarrow> (case map_of states s of None \<Rightarrow> False | Some st \<Rightarrow> k \<in> set (declared_keys st)))"

definition states_closed :: "(string, State) gomap \<Rightarrow> bool" where
  "states_closed states \<longleftrightarrow>
     (\<forall>(id, st) \<in> set states. \<forall>t \<in> set (st_Transitions st). gm_has states (tr_TargetState t))"

definition refs_resolve :: "(string, State) gomap \<Rightarrow> bool" where
  "refs_resolve states \<longleftrightarrow>
     (\<forall>(id, st) \<in> set states. \<forall>a \<in> set (st_Actions st).
        \<forall>(key, ref) \<in> set (act_InputBindings a). ref_resolves states ref) \<and>
     (\<forall>(id, st) \<in> set states. st_Outputs st \<noteq> [] \<longrightarrow> st_Type st = StateTypeTerminal \<and>
        (\<forall>(name, ref) \<in> set (st_Outputs st). HasPrefix ref inputBindingPrefix \<longrightarrow> ref_resolves states ref))"

definition manifest_valid :: "Manifest \<Rightarrow> bool" where
  "manifest_valid m \<longleftrightarrow>
     gm_has (mf_States m) (mf_InitialState m) \<and> states_closed (mf_States m) \<and>
     (\<exists>(id, st) \<in> set (mf_States m). st_Type st = StateTypeTerminal) \<and>
     (\<forall>(id, st) \<in> set (mf_States m). id = mf_InitialState m \<or>
        (\<exists>(id', st') \<in> set (mf_States m). id \<in> tr_TargetState ` set (st_Transitions st'))) \<and>
     refs_resolve (mf_States m)"

lemma map_of_indexDeclaredOutputs:
  assumes "gm_ok states"
  shows "map_of (indexDeclaredOutputs states) s = (case map_of states s of
     None \<Rightarrow> None | Some st \<Rightarrow> if declared_keys st = [] then None else Some (declared_keys st))"
  using assms
proof (induction states)
  case (Cons p states)
  obtain id st where p: "p = (id, st)" by (cases p)
  have "map_of states id = None" using Cons.prems p by (simp add: map_of_eq_None_iff)
  with Cons p show ?case by (auto simp: indexDeclaredOutputs_def)
qed (simp add: indexDeclaredOutputs_def)

lemma resolveBinding_Nil:
  "gm_ok states \<Longrightarrow> resolveBinding c i k ref l (indexDeclaredOutputs states) = [] \<longleftrightarrow> ref_resolves states ref"
  "gm_ok states \<Longrightarrow> resolveWorkflowOutput c k ref l (indexDeclaredOutputs states) = [] \<longleftrightarrow> ref_resolves states ref"
  by (auto simp: resolveBinding_def resolveWorkflowOutput_def ref_resolves_def
      map_of_indexDeclaredOutputs split: option.splits)

lemma bindings_Nil:
  assumes "gm_ok states"
  shows "validateInputBindings states = [] \<and> validateWorkflowOutputs states = [] \<longleftrightarrow> refs_resolve states"
proof -
  have "collect_idx 0 (\<lambda>ai a. collect (\<lambda>(key, ref).
          resolveBinding id ai key ref l (indexDeclaredOutputs states)) (act_InputBindings a)) as = []
        \<longleftrightarrow> (\<forall>a \<in> set as. \<forall>(key, ref) \<in> set (act_InputBindings a). ref_resolves states ref)" for id l and as :: "Action list"
    by (rule collect_idx_Nil_iff) (use assms in \<open>auto simp: resolveBinding_Nil\<close>)
  then have "validateInputBindings states = [] \<longleftrightarrow> (\<forall>(id, st) \<in> set states. \<forall>a \<in> set (st_Actions st).
        \<forall>(key, ref) \<in> set (act_InputBindings a). ref_resolves states ref)"
    by (simp add: validateInputBindings_def Let_def case_prod_beta)
  moreover have "validateWorkflowOutputs states = [] \<longleftrightarrow>
      (\<forall>(id, st) \<in> set states. st_Outputs st \<noteq> [] \<longrightarrow> st_Type st = StateTypeTerminal \<and>
        (\<forall>(name, ref) \<in> set (st_Outputs st). HasPrefix ref inputBindingPrefix \<longrightarrow> ref_resolves states ref))"
    using assms by (fastforce simp: validateWorkflowOutputs_def Let_def resolveBinding_Nil split: if_splits)
  ultimately show ?thesis by (simp add: refs_resolve_def)
qed

lemma in_targeted:
  "x \<in> set (targeted m) \<longleftrightarrow> x = mf_InitialState m \<or>
     (\<exists>(id', st') \<in> set (mf_States m). x \<in> tr_TargetState ` set (st_Transitions st'))"
  by (auto simp: targeted_def)

lemma structure_Nil:
  "initial_errors m = [] \<longleftrightarrow> gm_has (mf_States m) (mf_InitialState m)"
  "target_errors ss = [] \<longleftrightarrow> states_closed ss"
  "terminal_errors ss = [] \<longleftrightarrow> (\<exists>(id, st) \<in> set ss. st_Type st = StateTypeTerminal)"
  by (auto simp: initial_errors_def target_errors_def states_closed_def terminal_errors_def
      list_ex_iff split: if_splits)

lemma orphan_errors_Nil:
  "orphan_errors m = [] \<longleftrightarrow> (\<forall>(id, st) \<in> set (mf_States m). id \<in> set (targeted m))"
  by (auto simp: orphan_errors_def Let_def split: if_splits)

lemma build_errors_Nil: "gm_ok (mf_States m) \<Longrightarrow> build_errors m = [] \<longleftrightarrow> manifest_valid m"
  using bindings_Nil[of "mf_States m"]
  by (simp add: build_errors_def structure_Nil orphan_errors_Nil in_targeted manifest_valid_def)

lemma Build_Inr:
  "Build m = Inr g \<longleftrightarrow> build_errors m = [] \<and>
     g = \<lparr>g_Name = mf_Name m, g_Namespace = mf_Namespace m,
          g_InitialState = mf_InitialState m, g_States = mf_States m\<rparr>"
  by (auto simp: Build_def Let_def)

text \<open>C4 \<^verbatim>\<open>Build\<close> accepts a manifest exactly when the initial state and all transition targets
  are states, some state is terminal, every state is initial or the target of a
  transition, every input binding names an output that its source state publishes, and
  workflow outputs stand on terminal states only and name published outputs.\<close>

theorem Build_iff:
  assumes "gm_ok (mf_States m)"
  shows "(\<exists>g. Build m = Inr g) \<longleftrightarrow> manifest_valid m"
  using build_errors_Nil[OF assms] by (auto simp: Build_Inr)

text \<open>C5 The errors \<^verbatim>\<open>Build\<close> finds do not depend on the order in which Go iterates over the map
  of states.\<close>

theorem Build_order_independent:
  assumes "gm_ok (mf_States m)" "gm_ok ss" "set ss = set (mf_States m)"
  shows "set (build_errors (m\<lparr>mf_States := ss\<rparr>)) = set (build_errors m)"
proof -
  let ?ms = "mf_States m"
  have mo: "map_of ss = map_of ?ms"
    using assms by (simp add: map_of_inject_set gm_ok_def)
  have d: "map_of (indexDeclaredOutputs ss) = map_of (indexDeclaredOutputs ?ms)"
    using assms by (auto simp: map_of_indexDeclaredOutputs mo)
  have r: "resolveBinding c i k rf l (indexDeclaredOutputs ss) = resolveBinding c i k rf l (indexDeclaredOutputs ?ms)"
    "resolveWorkflowOutput c k rf l (indexDeclaredOutputs ss) = resolveWorkflowOutput c k rf l (indexDeclaredOutputs ?ms)"
    for c i k rf l unfolding resolveBinding_def resolveWorkflowOutput_def d by (rule refl)+
  have "set (targeted (m\<lparr>mf_States := ss\<rparr>)) = set (targeted m)"
    using assms(3) by (simp add: targeted_def)
  then show ?thesis
    using assms(3) mo
    by (simp add: build_errors_def initial_errors_def target_errors_def terminal_errors_def
        orphan_errors_def validateInputBindings_def validateWorkflowOutputs_def r gm_has_def
        list_ex_iff Let_def)
qed

section \<open>References\<close>

definition data_ref :: "string \<Rightarrow> string \<Rightarrow> string" where
  "data_ref s k = ''$.states.'' @ s @ ''.output.'' @ k"

lemma parseBindingRef_sound:
  assumes "parseBindingRef ref = Some (s, k)"
  shows "ref = data_ref s k \<and> s \<noteq> '''' \<and> k \<noteq> ''''"
proof -
  obtain rest idx where r: "ref = ''$.states.'' @ rest" "Index rest ''.output.'' = Some idx"
    "s = take idx rest" "k = drop (idx + length ''.output.'') rest" "s \<noteq> ''''" "k \<noteq> ''''"
    using assms by (auto simp: parseBindingRef_def HasPrefix_iff Let_def split: option.splits if_splits)
  with Index_SomeD[OF r(2)] show ?thesis by (simp add: data_ref_def)
qed

lemma parseBindingRef_complete:
  assumes "s \<noteq> ''''" "k \<noteq> ''''" "\<And>j. j < length s \<Longrightarrow> \<not> prefix ''.output.'' (drop j (s @ ''.output.'' @ k))"
  shows "parseBindingRef (data_ref s k) = Some (s, k)"
  using Index_append_first[OF assms(3)] assms(1,2)
  by (simp add: parseBindingRef_def data_ref_def HasPrefix_def Let_def)

end
