(* ===== verification/Compiler_Search.thy ===== *)
theory Compiler_Search
  imports Compiler_Graph
begin

text \<open>
  The graph searches of the compiler's structural validators
  (\<^verbatim>\<open>services/workflow-compiler/internal/domain/validators/structural.go\<close>): the breadth-first
  loops of \<^verbatim>\<open>reachableFrom\<close> and \<^verbatim>\<open>productiveStates\<close> and the depth-first search of the
  \<^verbatim>\<open>CircularTransitionDetector\<close>, with their correctness against reachability in the
  transition relation.
\<close>

section \<open>The transition relation\<close>

definition state_targets :: "State \<Rightarrow> string list" where
  "state_targets st = map tr_TargetState (st_Transitions st)"

definition edges :: "WorkflowGraph \<Rightarrow> (string \<times> string) list" where
  "edges g = collect (\<lambda>(id, st). map (Pair id) (state_targets st)) (g_States g)"

definition reverse_edges :: "WorkflowGraph \<Rightarrow> (string \<times> string) list" where
  "reverse_edges g = collect (\<lambda>(id, st). map (\<lambda>t. (t, id)) (state_targets st)) (g_States g)"

text \<open>The neighbours of a node, in the order of the edges.\<close>

definition succs :: "('a \<times> 'a) list \<Rightarrow> 'a \<Rightarrow> 'a list" where
  "succs E x = map snd (filter (\<lambda>(a, b). a = x) E)"

definition terminals :: "WorkflowGraph \<Rightarrow> string list" where
  "terminals g = map fst (filter (\<lambda>(id, st). st_Type st = StateTypeTerminal) (g_States g))"

lemma set_succs [simp]: "set (succs E x) = {y. (x, y) \<in> set E}"
  by (force simp: succs_def)

lemma set_edges: "(x, y) \<in> set (edges g) \<longleftrightarrow> (\<exists>st. (x, st) \<in> set (g_States g) \<and> y \<in> set (state_targets st))"
  by (auto simp: edges_def)

lemma set_reverse_edges: "set (reverse_edges g) = (set (edges g))\<inverse>"
  by (auto simp: edges_def reverse_edges_def)

lemma succs_edges:
  assumes "gm_ok (g_States g)"
  shows "succs (edges g) x = (case map_of (g_States g) x of None \<Rightarrow> [] | Some st \<Rightarrow> state_targets st)"
proof -
  have f: "filter (\<lambda>(a, b). a = x) (map (Pair id) ts) = (if id = x then map (Pair id) ts else [])" for id ts
    by (auto simp: filter_map comp_def)
  have "gm_ok ss \<Longrightarrow> map snd (filter (\<lambda>(a, b). a = x) (collect (\<lambda>(id, st). map (Pair id) (state_targets st)) ss))
      = (case map_of ss x of None \<Rightarrow> [] | Some st \<Rightarrow> state_targets st)" for ss
  proof (induction ss)
    case (Cons p ss)
    obtain id st where p: "p = (id, st)" by (cases p)
    have "map_of ss id = None" using Cons.prems p by (simp add: map_of_eq_None_iff)
    with Cons p show ?case by (auto simp: f comp_def)
  qed simp
  from this[OF assms] show ?thesis by (simp add: succs_def edges_def)
qed

section \<open>Breadth-first search\<close>

fun bfs_push :: "'a list \<Rightarrow> 'a list \<Rightarrow> 'a list \<Rightarrow> 'a list \<times> 'a list" where
  "bfs_push [] vis q = (vis, q)"
| "bfs_push (t # ts) vis q =
     (if t \<in> set vis then bfs_push ts vis q else bfs_push ts (t # vis) (q @ [t]))"

lemma bfs_push_sets:
  "bfs_push ts vis q = (vis', q') \<Longrightarrow>
     set vis' = set vis \<union> set ts \<and> set q' = set q \<union> (set ts - set vis)"
  by (induction ts vis q rule: bfs_push.induct) (auto split: if_splits)

lemma bfs_push_measure:
  "bfs_push ts vis q = (vis', q') \<Longrightarrow> finite T \<Longrightarrow> set ts \<subseteq> T \<Longrightarrow>
     card (T - set vis') + length q' = card (T - set vis) + length q"
proof (induction ts vis q rule: bfs_push.induct)
  case (2 t ts vis q)
  show ?case
  proof (cases "t \<in> set vis")
    case False
    have "T - set vis = insert t (T - set (t # vis))" using 2 False by auto
    also have "card \<dots> = Suc (card (T - set (t # vis)))"
      using 2 by (intro card_insert_disjoint) auto
    finally have "card (T - set vis) = Suc (card (T - set (t # vis)))" .
    with 2 False show ?thesis by simp
  qed (use 2 in simp)
qed simp

function bfs :: "('a \<times> 'a) list \<Rightarrow> 'a list \<Rightarrow> 'a list \<Rightarrow> 'a list" where
  "bfs E vis [] = vis"
| "bfs E vis (cur # queue) = (case bfs_push (succs E cur) vis queue of (vis', q') \<Rightarrow> bfs E vis' q')"
  by pat_completeness auto
termination
proof (relation "measure (\<lambda>(E, vis, q). card (snd ` set E - set vis) + length q)", goal_cases)
  case (2 E vis cur queue vis' q')
  have p: "bfs_push (succs E cur) vis queue = (vis', q')" using 2 by simp
  have "set (succs E cur) \<subseteq> snd ` set E" by force
  with bfs_push_measure[OF p, of "snd ` set E"] show ?case by (simp add: p)
qed simp

lemma bfs_closed:
  assumes "set q \<subseteq> set vis" and "\<forall>x \<in> set vis - set q. set (succs E x) \<subseteq> set vis"
  shows "set (bfs E vis q) = (set E)\<^sup>* `` set vis"
  using assms
proof (induction E vis q rule: bfs.induct)
  case (1 E vis)
  have "set E `` set vis \<subseteq> set vis" using 1 by auto
  then show ?case by (simp add: Image_closed_trancl)
next
  case (2 E vis cur queue)
  obtain vis' q' where p: "bfs_push (succs E cur) vis queue = (vis', q')" by fastforce
  note s = bfs_push_sets[OF p]
  have "set (bfs E vis' q') = (set E)\<^sup>* `` set vis'"
    by (rule 2(1)[OF p[symmetric]]) (use 2(2,3) s in auto)
  also have "\<dots> = (set E)\<^sup>* `` set vis"
  proof -
    have "cur \<in> set vis" using 2(2) by simp
    then have "(set E)\<^sup>* `` set (succs E cur) \<subseteq> (set E)\<^sup>* `` set vis"
      by (auto intro: converse_rtrancl_into_rtrancl)
    then show ?thesis using s by auto
  qed
  finally show ?case using p by simp
qed

definition reachableFrom :: "WorkflowGraph \<Rightarrow> string \<Rightarrow> string list" where
  "reachableFrom g start = bfs (edges g) [start] [start]"

definition productiveStates :: "WorkflowGraph \<Rightarrow> string list" where
  "productiveStates g = bfs (reverse_edges g) (terminals g) (terminals g)"

lemma set_reachableFrom: "set (reachableFrom g s) = {x. (s, x) \<in> (set (edges g))\<^sup>*}"
  unfolding reachableFrom_def by (subst bfs_closed) auto

lemma set_productiveStates:
  "set (productiveStates g) = {x. \<exists>t \<in> set (terminals g). (x, t) \<in> (set (edges g))\<^sup>*}"
  unfolding productiveStates_def by (subst bfs_closed) (auto simp: set_reverse_edges rtrancl_converse)

section \<open>Depth-first search with three colours\<close>

datatype color = White | Gray | Black

record 'a dfs_state =
  d_color :: "('a, color) gomap"
  d_stack :: "'a list"
  d_reported :: "'a list"
  d_errs :: "('a list \<times> 'a) list"

abbreviation colour :: "'a dfs_state \<Rightarrow> 'a \<Rightarrow> color" where
  "colour s x \<equiv> gm_get White (d_color s) x"

definition enter :: "'a \<Rightarrow> 'a dfs_state \<Rightarrow> 'a dfs_state" where
  "enter x s = s\<lparr>d_color := gm_put x Gray (d_color s), d_stack := d_stack s @ [x]\<rparr>"

definition leave :: "'a \<Rightarrow> 'a dfs_state \<Rightarrow> 'a dfs_state" where
  "leave x s = s\<lparr>d_stack := butlast (d_stack s), d_color := gm_put x Black (d_color s)\<rparr>"

text \<open>A back edge: the cycle is the stack from the first occurrence of \<open>nx\<close>; an error is
  the path reported and the state it is attributed to.\<close>

definition back_edge :: "'a list \<Rightarrow> 'a \<Rightarrow> 'a dfs_state \<Rightarrow> 'a dfs_state" where
  "back_edge productive nx s =
     (let cycle = dropWhile (\<lambda>x. x \<noteq> nx) (d_stack s) in
      if cycle = [] \<or> nx \<in> set (d_reported s) then s
      else if list_all (\<lambda>x. x \<notin> set productive) cycle
      then s\<lparr>d_reported := nx # d_reported s, d_errs := d_errs s @ [(cycle @ [nx], nx)]\<rparr>
      else s)"

function dfs_loop :: "('a \<times> 'a) list \<Rightarrow> 'a list \<Rightarrow> 'a list \<Rightarrow> 'a dfs_state \<Rightarrow> 'a dfs_state" where
  "dfs_loop E productive [] s = s"
| "dfs_loop E productive (nx # ts) s =
     (case colour s nx of
        White \<Rightarrow> dfs_loop E productive ts
                   (leave nx (dfs_loop E productive (succs E nx) (enter nx s)))
      | Gray \<Rightarrow> dfs_loop E productive ts (back_edge productive nx s)
      | Black \<Rightarrow> dfs_loop E productive ts s)"
  by pat_completeness auto

lemma colour_enter [simp]: "colour (enter x s) y = (if y = x then Gray else colour s y)"
  by (simp add: enter_def gm_get_def)

lemma colour_leave [simp]: "colour (leave x s) y = (if y = x then Black else colour s y)"
  by (simp add: leave_def gm_get_def)

lemma colour_back_edge [simp]: "d_color (back_edge p x s) = d_color s"
  by (simp add: back_edge_def Let_def)

lemma dfs_loop_white:
  "dfs_loop_dom (E, p, ts, s) \<Longrightarrow> colour (dfs_loop E p ts s) x = White \<Longrightarrow> colour s x = White"
proof (induction E p ts s arbitrary: x rule: dfs_loop.pinduct)
  case (2 E p nx ts s)
  show ?case
  proof (cases "colour s nx")
    case White
    let ?s1 = "dfs_loop E p (succs E nx) (enter nx s)"
    have "colour (leave nx ?s1) x = White"
      using 2 White by (simp add: dfs_loop.psimps)
    then have "colour (enter nx s) x = White"
      using 2(2)[OF White, of x] by (simp split: if_splits)
    then show ?thesis by (simp split: if_splits)
  qed (use 2 in \<open>auto simp: dfs_loop.psimps\<close>)
qed (simp add: dfs_loop.psimps)

definition whites :: "('a \<times> 'a) list \<Rightarrow> 'a list \<Rightarrow> 'a dfs_state \<Rightarrow> 'a set" where
  "whites E ts s = {x \<in> snd ` set E \<union> set ts. colour s x = White}"

lemma card_whites_mono:
  "snd ` set E \<union> set ts \<subseteq> snd ` set E \<union> set ts' \<Longrightarrow>
   (\<And>x. colour s x = White \<Longrightarrow> colour s' x = White) \<Longrightarrow> card (whites E ts s) \<le> card (whites E ts' s')"
  by (intro card_mono) (auto simp: whites_def)

termination dfs_loop
proof (relation "inv_image (less_than <*lex*> less_than) (\<lambda>(E, p, ts, s). (card (whites E ts s), length ts))",
    goal_cases)
  case 1
  show ?case by auto
next
  case (2 E p nx ts s)
  have "whites E (succs E nx) (enter nx s) \<subset> whites E (nx # ts) s"
    using 2 by (force simp: whites_def)
  moreover have "finite (whites E (nx # ts) s)" by (simp add: whites_def)
  ultimately show ?case by (simp add: psubset_card_mono)
next
  case (3 E p nx ts s)
  have w: "colour (leave nx (dfs_loop E p (succs E nx) (enter nx s))) x = White \<Longrightarrow> colour s x = White" for x
    using dfs_loop_white[OF 3(2), of x] by (simp split: if_splits)
  have "card (whites E ts (leave nx (dfs_loop E p (succs E nx) (enter nx s))))
      \<le> card (whites E (nx # ts) s)"
    by (rule card_whites_mono [OF _ w]) auto
  then show ?case by (simp add: le_less)
next
  case (4 E p nx ts s)
  have "card (whites E ts (back_edge p nx s)) \<le> card (whites E (nx # ts) s)"
    by (rule card_whites_mono) auto
  then show ?case by (simp add: le_less)
next
  case (5 E p nx ts s)
  have "card (whites E ts s) \<le> card (whites E (nx # ts) s)"
    by (rule card_whites_mono) auto
  then show ?case by (simp add: le_less)
qed

definition dfs :: "('a \<times> 'a) list \<Rightarrow> 'a list \<Rightarrow> 'a \<Rightarrow> 'a dfs_state \<Rightarrow> 'a dfs_state" where
  "dfs E productive x s = leave x (dfs_loop E productive (succs E x) (enter x s))"

section \<open>Correctness of the depth-first search\<close>

lemma path_rtrancl:
  "successively (\<lambda>x y. (x, y) \<in> R) (x # xs) \<Longrightarrow> y \<in> set (x # xs) \<Longrightarrow> (x, y) \<in> R\<^sup>*"
proof (induction xs arbitrary: x)
  case (Cons a xs)
  then show ?case by (auto intro: converse_rtrancl_into_rtrancl)
qed simp

lemma acyclic_add_source:
  assumes "acyclic R" "x \<notin> Range R" "x \<notin> Y"
  shows "acyclic (R \<union> {x} \<times> Y)"
proof -
  let ?S = "R \<union> {x} \<times> Y"
  have nx: "x \<notin> Range ?S" using assms by auto
  have "(a, b) \<in> ?S\<^sup>+ \<Longrightarrow> a \<noteq> x \<Longrightarrow> (a, b) \<in> R\<^sup>+" for a b
  proof (induction rule: trancl_induct)
    case (step b c)
    have "b \<noteq> x" using nx step(1) trancl_range[of ?S] by blast
    with step show ?case by (auto intro: trancl_into_trancl)
  qed auto
  moreover have "a \<noteq> x" if "(a, a) \<in> ?S\<^sup>+" for a
    using nx that trancl_range[of ?S] by blast
  ultimately show ?thesis using assms(1) by (auto simp: acyclic_def)
qed

definition done_edges :: "('a \<times> 'a) list \<Rightarrow> 'a list \<Rightarrow> 'a dfs_state \<Rightarrow> ('a \<times> 'a) set" where
  "done_edges E p s = {(x, y) \<in> set E. colour s x = Black \<and> x \<notin> set p}"

definition dfs_inv :: "('a \<times> 'a) list \<Rightarrow> 'a list \<Rightarrow> 'a dfs_state \<Rightarrow> bool" where
  "dfs_inv E p s \<longleftrightarrow>
     distinct (d_stack s) \<and> set (d_stack s) = {x. colour s x = Gray} \<and>
     successively (\<lambda>x y. (x, y) \<in> set E) (d_stack s) \<and>
     (\<forall>(c, n) \<in> set (d_errs s). n \<notin> set p \<and> (n, n) \<in> (set E)\<^sup>+) \<and>
     (d_errs s = [] \<longrightarrow> d_reported s = [] \<and> acyclic (done_edges E p s) \<and>
        (\<forall>(x, y) \<in> done_edges E p s. colour s y = Black))"

lemma dfs_inv_enter:
  assumes "dfs_inv E p s" "colour s x = White" "d_stack s = [] \<or> (last (d_stack s), x) \<in> set E"
  shows "dfs_inv E p (enter x s)"
proof -
  have "done_edges E p (enter x s) = done_edges E p s" using assms(2) by (auto simp: done_edges_def split: if_splits)
  then show ?thesis using assms
    by (auto simp: dfs_inv_def successively_append_iff enter_def gm_get_def split: if_splits)
qed

lemma dfs_inv_leave:
  assumes i: "dfs_inv E p s" and st: "d_stack s = zs @ [x]"
    and d: "d_errs s = [] \<Longrightarrow> x \<notin> set p \<Longrightarrow> \<forall>y \<in> set (succs E x). colour s y = Black"
  shows "dfs_inv E p (leave x s)"
proof -
  have g: "colour s x = Gray" using i st by (auto simp: dfs_inv_def)
  have e: "done_edges E p (leave x s) =
      done_edges E p s \<union> (if x \<in> set p then {} else {x} \<times> set (succs E x))"
    using g by (auto simp: done_edges_def split: if_splits)
  have "acyclic (done_edges E p (leave x s)) \<and>
      (\<forall>(a, y) \<in> done_edges E p (leave x s). colour (leave x s) y = Black)" if "d_errs s = []"
  proof -
    have a: "acyclic (done_edges E p s)" "\<forall>(a, y) \<in> done_edges E p s. colour s y = Black"
      using i that by (auto simp: dfs_inv_def)
    then have "x \<notin> Range (done_edges E p s)" using g by auto
    moreover have "x \<notin> set (succs E x)" if "x \<notin> set p" using d[OF \<open>d_errs s = []\<close> that] g by auto
    ultimately have "acyclic (done_edges E p (leave x s))"
      using a(1) unfolding e by (simp add: acyclic_add_source)
    moreover have "\<forall>(a, y) \<in> done_edges E p (leave x s). colour (leave x s) y = Black"
      using a(2) d[OF that] unfolding e by (auto split: if_splits)
    ultimately show ?thesis by blast
  qed
  then show ?thesis using i st
    by (auto simp: dfs_inv_def leave_def gm_get_def successively_append_iff)
qed

lemma dfs_inv_back_edge:
  assumes i: "dfs_inv E p s" and st: "d_stack s = zs @ [x]" and e: "(x, nx) \<in> set E"
    and g: "colour s nx = Gray" and c: "\<forall>(a, b) \<in> set E. b \<in> set p \<longrightarrow> a \<in> set p"
  shows "dfs_inv E p (back_edge p nx s)"
    and "d_errs (back_edge p nx s) = [] \<Longrightarrow> d_errs s = [] \<and> x \<in> set p"
proof -
  define c where "c = dropWhile (\<lambda>y. y \<noteq> nx) (d_stack s)"
  obtain ys where ys: "d_stack s = ys @ c"
    unfolding c_def using takeWhile_dropWhile_id[symmetric] by blast
  have "nx \<in> set (d_stack s)" using i g by (auto simp: dfs_inv_def)
  then have ne: "c \<noteq> []" unfolding c_def by auto
  then have hd: "hd c = nx" using hd_dropWhile[of "\<lambda>y. y \<noteq> nx" "d_stack s"] unfolding c_def by simp
  then have cs: "c = nx # tl c" using ne by (cases c) auto
  have "successively (\<lambda>a b. (a, b) \<in> set E) c"
    using i ys by (simp add: dfs_inv_def successively_append_iff)
  then have path: "(nx, y) \<in> (set E)\<^sup>*" if "y \<in> set c" for y
    using path_rtrancl[of "set E" nx "tl c" y] that cs by metis
  have "last c = x" using st ys ne by (metis last_appendR last_snoc)
  then have "x \<in> set c" using ne last_in_set by metis
  then have cyc: "(nx, nx) \<in> (set E)\<^sup>+" using path e by (auto intro: rtrancl_into_trancl1)
  have done_eq: "done_edges E p (back_edge p nx s) = done_edges E p s" by (simp add: done_edges_def)
  have nx: "nx \<in> set c" using cs by (metis list.set_intros(1))
  show "dfs_inv E p (back_edge p nx s)"
    using i cyc nx ne by (auto simp: dfs_inv_def done_eq back_edge_def Let_def c_def [symmetric] list_all_iff)
  have pc: "a \<in> set p" if "(a, b) \<in> (set E)\<^sup>*" "b \<in> set p" for a b
    using that c by (induction rule: converse_rtrancl_induct) auto
  show "d_errs (back_edge p nx s) = [] \<Longrightarrow> d_errs s = [] \<and> x \<in> set p"
  proof -
    assume a: "d_errs (back_edge p nx s) = []"
    then have z: "d_errs s = []" by (auto simp: back_edge_def Let_def c_def [symmetric] split: if_splits)
    then have "\<not> list_all (\<lambda>y. y \<notin> set p) c"
      using a i ne by (auto simp: back_edge_def Let_def c_def [symmetric] dfs_inv_def split: if_splits)
    then obtain y where "y \<in> set c" "y \<in> set p" by (auto simp: list_all_iff)
    then show ?thesis using z path[of y] pc[of x y] e by (auto intro: converse_rtrancl_into_rtrancl)
  qed
qed

lemma dfs_loop_correct:
  assumes "dfs_inv E p s" "d_stack s = zs @ [x]" "set ts \<subseteq> set (succs E x)"
    and "\<forall>(a, b) \<in> set E. b \<in> set p \<longrightarrow> a \<in> set p"
  shows "let s' = dfs_loop E p ts s in
     dfs_inv E p s' \<and> d_stack s' = d_stack s \<and> (d_errs s' = [] \<longrightarrow> d_errs s = []) \<and>
     (\<forall>y. colour s y = Black \<longrightarrow> colour s' y = Black) \<and>
     (d_errs s' = [] \<longrightarrow> x \<notin> set p \<longrightarrow> (\<forall>y \<in> set ts. colour s' y = Black))"
  using assms
proof (induction E p ts s arbitrary: x zs rule: dfs_loop.induct)
  case (2 E p nx ts s)
  have e: "(x, nx) \<in> set E" using 2(7) by simp
  show ?case
  proof (cases "colour s nx")
    case White
    let ?s1 = "enter nx s" and ?s2 = "dfs_loop E p (succs E nx) (enter nx s)"
    have i1: "dfs_inv E p ?s1" using dfs_inv_enter[OF 2(5) White] 2(6) e by simp
    have st1: "d_stack ?s1 = d_stack s @ [nx]" by (simp add: enter_def)
    note s2 = 2(1)[OF White i1 st1 subset_refl 2(8), unfolded Let_def]
    have st2: "d_stack ?s2 = d_stack s @ [nx]" using s2 st1 by simp
    have i3: "dfs_inv E p (leave nx ?s2)"
      by (rule dfs_inv_leave[OF _ st2]) (use s2 in blast)+
    have st3: "d_stack (leave nx ?s2) = zs @ [x]" using st2 2(6) by (simp add: leave_def butlast_append)
    have e3: "d_errs (leave nx ?s2) = d_errs ?s2" "d_errs ?s1 = d_errs s" by (simp_all add: leave_def enter_def)
    have b3: "colour s y = Black \<Longrightarrow> colour (leave nx ?s2) y = Black" for y
      using s2 White by (auto split: if_splits)
    from 2(2)[OF White i3 st3 _ 2(8)] have "let s' = dfs_loop E p ts (leave nx ?s2) in
     dfs_inv E p s' \<and> d_stack s' = d_stack (leave nx ?s2) \<and> (d_errs s' = [] \<longrightarrow> d_errs (leave nx ?s2) = []) \<and>
     (\<forall>y. colour (leave nx ?s2) y = Black \<longrightarrow> colour s' y = Black) \<and>
     (d_errs s' = [] \<longrightarrow> x \<notin> set p \<longrightarrow> (\<forall>y \<in> set ts. colour s' y = Black))"
      using 2(7) by simp
    then show ?thesis using White s2 e3 b3 st3 2(6) by (auto simp: Let_def)
  next
    case Gray
    note be = dfs_inv_back_edge[OF 2(5,6) e Gray 2(8)]
    have st: "d_stack (back_edge p nx s) = d_stack s" by (simp add: back_edge_def Let_def)
    from 2(3)[OF Gray be(1) _ _ 2(8), of zs x] show ?thesis
      using Gray be(2) st 2(6,7) by (auto simp: Let_def)
  next
    case Black
    from 2(4)[OF Black 2(5,6) _ 2(8)] show ?thesis
      using Black 2(7) by (auto simp: Let_def)
  qed
qed simp

lemma dfs_correct:
  assumes "dfs_inv E p s" "d_stack s = []" "colour s x = White"
    and "\<forall>(a, b) \<in> set E. b \<in> set p \<longrightarrow> a \<in> set p"
  shows "dfs_inv E p (dfs E p x s) \<and> d_stack (dfs E p x s) = [] \<and>
     (d_errs (dfs E p x s) = [] \<longrightarrow> d_errs s = []) \<and> colour (dfs E p x s) x = Black \<and>
     (\<forall>y. colour s y = Black \<longrightarrow> colour (dfs E p x s) y = Black)"
proof -
  let ?s1 = "enter x s" and ?s2 = "dfs_loop E p (succs E x) (enter x s)"
  have i1: "dfs_inv E p ?s1" using dfs_inv_enter[OF assms(1,3)] assms(2) by simp
  have st1: "d_stack ?s1 = [] @ [x]" using assms(2) by (simp add: enter_def)
  note s2 = dfs_loop_correct[OF i1 st1 subset_refl assms(4), unfolded Let_def]
  have i3: "dfs_inv E p (leave x ?s2)"
    by (rule dfs_inv_leave[of _ _ _ "[]"]) (use s2 st1 in auto)
  have "d_errs (leave x ?s2) = d_errs ?s2" "d_errs ?s1 = d_errs s" "d_stack (leave x ?s2) = []"
    using s2 st1 by (simp_all add: leave_def enter_def)
  then show ?thesis using i3 s2 assms(3) unfolding dfs_def by auto
qed

text \<open>The mop-up loop over all states.\<close>

fun dfs_all :: "('a \<times> 'a) list \<Rightarrow> 'a list \<Rightarrow> 'a list \<Rightarrow> 'a dfs_state \<Rightarrow> 'a dfs_state" where
  "dfs_all E productive [] s = s"
| "dfs_all E productive (x # xs) s =
     dfs_all E productive xs (if colour s x = White then dfs E productive x s else s)"

lemma dfs_all_correct:
  assumes "dfs_inv E p s" "d_stack s = []" "\<forall>(a, b) \<in> set E. b \<in> set p \<longrightarrow> a \<in> set p"
  shows "dfs_inv E p (dfs_all E p xs s) \<and>
     (\<forall>y. colour s y = Black \<or> y \<in> set xs \<longrightarrow> colour (dfs_all E p xs s) y = Black)"
  using assms
proof (induction xs arbitrary: s)
  case (Cons x xs)
  let ?s' = "if colour s x = White then dfs E p x s else s"
  have "colour s x \<noteq> Gray" using Cons.prems(1,2) by (auto simp: dfs_inv_def)
  then have "dfs_inv E p ?s' \<and> d_stack ?s' = [] \<and> colour ?s' x = Black \<and>
      (\<forall>y. colour s y = Black \<longrightarrow> colour ?s' y = Black)"
    using dfs_correct[OF Cons.prems(1,2) _ Cons.prems(3), of x] Cons.prems
    by (cases "colour s x") auto
  then show ?case using Cons.IH[of ?s'] Cons.prems(3) by auto
qed simp

definition dfs_init :: "'a dfs_state" where
  "dfs_init = \<lparr>d_color = [], d_stack = [], d_reported = [], d_errs = []\<rparr>"

lemma dfs_inv_init: "dfs_inv E p dfs_init"
  by (auto simp: dfs_inv_def dfs_init_def gm_get_def done_edges_def acyclic_def)

text \<open>The search finds a trapped cycle exactly when there is one.\<close>

lemma dfs_all_finds_cycles:
  assumes c: "\<forall>(a, b) \<in> set E. b \<in> set p \<longrightarrow> a \<in> set p" and src: "fst ` set E \<subseteq> set xs"
  shows "d_errs (dfs_all E p xs dfs_init) = [] \<longleftrightarrow> (\<forall>x. (x, x) \<in> (set E)\<^sup>+ \<longrightarrow> x \<in> set p)"
proof -
  let ?s = "dfs_all E p xs dfs_init"
  have inv: "dfs_inv E p ?s" and b: "x \<in> set xs \<Longrightarrow> colour ?s x = Black" for x
    using dfs_all_correct[OF dfs_inv_init _ c, of xs] by (auto simp: dfs_init_def)
  have e: "(x, y) \<in> done_edges E p ?s \<and> y \<notin> set p" if "(x, y) \<in> set E" "x \<notin> set p" for x y
    using that c src b[of x] by (force simp: done_edges_def)
  have fwd: "(x, y) \<in> (done_edges E p ?s)\<^sup>+ \<and> y \<notin> set p" if "(x, y) \<in> (set E)\<^sup>+" "x \<notin> set p" for x y
    using that by (induction rule: trancl_induct) (use e in \<open>blast intro: trancl_into_trancl\<close>)+
  show ?thesis
  proof
    assume "d_errs ?s = []"
    then have "acyclic (done_edges E p ?s)" using inv by (simp add: dfs_inv_def)
    then show "\<forall>x. (x, x) \<in> (set E)\<^sup>+ \<longrightarrow> x \<in> set p" using fwd by (auto simp: acyclic_def)
  next
    assume "\<forall>x. (x, x) \<in> (set E)\<^sup>+ \<longrightarrow> x \<in> set p"
    then show "d_errs ?s = []" using inv by (cases "d_errs ?s") (auto simp: dfs_inv_def)
  qed
qed

end
