(* ===== verification/Go_Regexp.thy ===== *)
theory Go_Regexp
  imports Zynax_Prelude
begin

text \<open>
  The part of the Go package \<^verbatim>\<open>regexp\<close> the validators use: an anchored pattern
  (\<^verbatim>\<open>^...$\<close>) matched against a whole string.  A pattern is a term of \<open>rx\<close> built the
  way the pattern string reads; \<open>MatchString\<close> runs it by derivatives and
  \<open>MatchString_lang\<close> says that it decides the language of the pattern.
\<close>

datatype rx =
    RNone
  | REps
  | RCls "char \<Rightarrow> bool"
  | RAlt rx rx
  | RSeq rx rx
  | RStar rx

abbreviation RChr :: "char \<Rightarrow> rx" where
  "RChr c \<equiv> RCls (\<lambda>x. x = c)"

definition ROpt :: "rx \<Rightarrow> rx" where
  "ROpt r = RAlt REps r"

text \<open>\<^verbatim>\<open>r{0,n}\<close>\<close>

fun RUpto :: "nat \<Rightarrow> rx \<Rightarrow> rx" where
  "RUpto 0 r = REps"
| "RUpto (Suc n) r = RAlt REps (RSeq r (RUpto n r))"

inductive_set star_lang :: "string set \<Rightarrow> string set" for L where
  star_Nil: "[] \<in> star_lang L"
| star_step: "u \<in> L \<Longrightarrow> v \<in> star_lang L \<Longrightarrow> u @ v \<in> star_lang L"

primrec lang :: "rx \<Rightarrow> string set" where
  "lang RNone = {}"
| "lang REps = {[]}"
| "lang (RCls P) = {[c] | c. P c}"
| "lang (RAlt r s) = lang r \<union> lang s"
| "lang (RSeq r s) = {u @ v | u v. u \<in> lang r \<and> v \<in> lang s}"
| "lang (RStar r) = star_lang (lang r)"

primrec rx_nullable :: "rx \<Rightarrow> bool" where
  "rx_nullable RNone = False"
| "rx_nullable REps = True"
| "rx_nullable (RCls P) = False"
| "rx_nullable (RAlt r s) = (rx_nullable r \<or> rx_nullable s)"
| "rx_nullable (RSeq r s) = (rx_nullable r \<and> rx_nullable s)"
| "rx_nullable (RStar r) = True"

fun seq_smart :: "rx \<Rightarrow> rx \<Rightarrow> rx" where
  "seq_smart RNone s = RNone"
| "seq_smart REps s = s"
| "seq_smart r s = RSeq r s"

fun alt_smart :: "rx \<Rightarrow> rx \<Rightarrow> rx" where
  "alt_smart RNone s = s"
| "alt_smart r RNone = r"
| "alt_smart r s = RAlt r s"

primrec rx_deriv :: "char \<Rightarrow> rx \<Rightarrow> rx" where
  "rx_deriv c RNone = RNone"
| "rx_deriv c REps = RNone"
| "rx_deriv c (RCls P) = (if P c then REps else RNone)"
| "rx_deriv c (RAlt r s) = alt_smart (rx_deriv c r) (rx_deriv c s)"
| "rx_deriv c (RSeq r s) =
     (if rx_nullable r then alt_smart (seq_smart (rx_deriv c r) s) (rx_deriv c s)
      else seq_smart (rx_deriv c r) s)"
| "rx_deriv c (RStar r) = seq_smart (rx_deriv c r) (RStar r)"

fun MatchString :: "rx \<Rightarrow> string \<Rightarrow> bool" where
  "MatchString r [] = rx_nullable r"
| "MatchString r (c # cs) = MatchString (rx_deriv c r) cs"

lemma lang_seq_smart [simp]: "lang (seq_smart r s) = lang (RSeq r s)"
  by (cases r) auto

lemma lang_alt_smart [simp]: "lang (alt_smart r s) = lang r \<union> lang s"
  by (cases r; cases s) auto

lemma nullable_lang: "rx_nullable r \<longleftrightarrow> [] \<in> lang r"
  by (induction r) (auto intro: star_lang.intros)

lemma star_lang_Cons:
  "c # cs \<in> star_lang L \<longleftrightarrow> (\<exists>u v. cs = u @ v \<and> c # u \<in> L \<and> v \<in> star_lang L)"
proof
  assume "c # cs \<in> star_lang L"
  then show "\<exists>u v. cs = u @ v \<and> c # u \<in> L \<and> v \<in> star_lang L"
  proof (induction "c # cs" arbitrary: c cs rule: star_lang.induct)
    case (star_step u v)
    then show ?case by (cases u) auto
  qed
next
  assume "\<exists>u v. cs = u @ v \<and> c # u \<in> L \<and> v \<in> star_lang L"
  then obtain u v where "cs = u @ v" "c # u \<in> L" "v \<in> star_lang L" by blast
  with star_lang.star_step[of "c # u" L v] show "c # cs \<in> star_lang L" by simp
qed

lemma lang_deriv: "cs \<in> lang (rx_deriv c r) \<longleftrightarrow> c # cs \<in> lang r"
proof (induction r arbitrary: cs)
  case (RSeq r s)
  show ?case
    by (auto simp: RSeq Cons_eq_append_conv nullable_lang)
next
  case (RStar r)
  then show ?case by (auto simp: star_lang_Cons)
qed auto

lemma MatchString_lang: "MatchString r s \<longleftrightarrow> s \<in> lang r"
  by (induction s arbitrary: r) (simp_all add: nullable_lang lang_deriv)

subsection \<open>What membership says\<close>

lemma lang_ROpt [simp]: "lang (ROpt r) = insert [] (lang r)"
  by (simp add: ROpt_def)

lemma star_lang_all:
  "s \<in> star_lang L \<Longrightarrow> (\<And>u. u \<in> L \<Longrightarrow> \<forall>c\<in>set u. P c) \<Longrightarrow> \<forall>c\<in>set s. P c"
  by (induction rule: star_lang.induct) auto

text \<open>The characters a pattern can consume, as a predicate.\<close>

primrec rx_over :: "(char \<Rightarrow> bool) \<Rightarrow> rx \<Rightarrow> bool" where
  "rx_over P RNone = True"
| "rx_over P REps = True"
| "rx_over P (RCls Q) = (\<forall>c. Q c \<longrightarrow> P c)"
| "rx_over P (RAlt r s) = (rx_over P r \<and> rx_over P s)"
| "rx_over P (RSeq r s) = (rx_over P r \<and> rx_over P s)"
| "rx_over P (RStar r) = rx_over P r"

lemma lang_over: "rx_over P r \<Longrightarrow> s \<in> lang r \<Longrightarrow> \<forall>c\<in>set s. P c"
proof (induction r arbitrary: s)
  case (RStar r)
  from RStar.prems(2) have "s \<in> star_lang (lang r)" by simp
  moreover have "\<And>u. u \<in> lang r \<Longrightarrow> \<forall>c\<in>set u. P c"
    using RStar.IH RStar.prems(1) by simp
  ultimately show ?case by (rule star_lang_all)
qed auto

lemma lang_RUpto_RCls:
  "s \<in> lang (RUpto n (RCls P)) \<longleftrightarrow> length s \<le> n \<and> (\<forall>c\<in>set s. P c)"
proof (induction n arbitrary: s)
  case 0
  then show ?case by auto
next
  case (Suc n)
  show ?case by (cases s) (auto simp: Suc, metis append_Cons append_Nil)
qed

lemma lang_RStar_RCls: "s \<in> lang (RStar (RCls P)) \<longleftrightarrow> (\<forall>c\<in>set s. P c)"
proof
  assume "\<forall>c\<in>set s. P c"
  then show "s \<in> lang (RStar (RCls P))"
    by (induction s) (auto intro: star_lang.intros simp: star_lang_Cons)
qed (auto dest: star_lang_all[of _ _ P])

end
