(* ===== verification/Compiler_Validators.thy ===== *)
theory Compiler_Validators
  imports Compiler_Search Go_Regexp
begin

text \<open>
  The validators of the workflow compiler
  (\<^verbatim>\<open>services/workflow-compiler/internal/domain/validators\<close>): the nine built-in
  validators, \<^verbatim>\<open>Run\<close> and \<^verbatim>\<open>All\<close>, and what a graph without errors satisfies.
\<close>

type_synonym Validator = "WorkflowGraph \<Rightarrow> ParseErrors"

section \<open>Structural validators\<close>

definition TerminalStateValidator :: Validator where
  "TerminalStateValidator g =
     (if list_ex (\<lambda>(id, s). st_Type s = StateTypeTerminal) (g_States g) then []
      else [perr ErrorCodeNoTerminalState (Msg ''workflow must have at least one terminal state'') 0 ''''])"

definition OrphanStateValidator :: Validator where
  "OrphanStateValidator g =
     (let reachable = reachableFrom g (g_InitialState g) in
      collect (\<lambda>(id, state). if id \<in> set reachable then []
        else [perr ErrorCodeOrphanState
          (Sprintf ''state %q is unreachable from initial state %q'' [FS id, FS (g_InitialState g)])
          (st_Line state) id]) (g_States g))"

definition CircularTransitionDetector :: Validator where
  "CircularTransitionDetector g =
     map (\<lambda>(path, next). perr ErrorCodeCircularTransition
            (Sprintf ''trapped cycle with no terminal escape: %s'' [FL path]) 0 next)
       (d_errs (dfs_all (edges g) (productiveStates g) (g_InitialState g # map fst (g_States g)) dfs_init))"

section \<open>Semantic validators\<close>

definition is_lower_alnum :: "char \<Rightarrow> bool" where
  "is_lower_alnum c \<longleftrightarrow> is_lower c \<or> is_digit c"

definition is_label_char :: "char \<Rightarrow> bool" where
  "is_label_char c \<longleftrightarrow> is_lower_alnum c \<or> c = CHR ''-''"

text \<open>\<^verbatim>\<open>[a-z0-9]([a-z0-9-]{0,61}[a-z0-9])?\<close>\<close>

definition namespaceRe :: rx where
  "namespaceRe = RSeq (RCls is_lower_alnum)
     (ROpt (RSeq (RUpto 61 (RCls is_label_char)) (RCls is_lower_alnum)))"

text \<open>\<^verbatim>\<open>[a-z][a-z0-9]*(_[a-z0-9]+)*\<close>\<close>

definition snakeRe :: rx where
  "snakeRe = RSeq (RCls is_lower) (RSeq (RStar (RCls is_lower_alnum))
     (RStar (RSeq (RChr CHR ''_'') (RSeq (RCls is_lower_alnum) (RStar (RCls is_lower_alnum))))))"

definition capabilityNameRe :: rx where
  "capabilityNameRe = RSeq (ROpt (RSeq namespaceRe (RChr CHR ''/''))) snakeRe"

definition eventNameRe :: rx where
  "eventNameRe = RSeq snakeRe (RStar (RSeq (RChr CHR ''.'') snakeRe))"

definition reservedPrefixes :: "string list" where
  "reservedPrefixes = [''zynax_'', ''system_'', ''internal_'']"

definition bareCap :: "string \<Rightarrow> string" where
  "bareCap capName = (case Index capName ''/'' of None \<Rightarrow> capName | Some i \<Rightarrow> drop (i + 1) capName)"

definition CapabilityRefValidator :: Validator where
  "CapabilityRefValidator g =
     collect (\<lambda>(stateID, state).
       collect_idx 0 (\<lambda>i action.
         let capName = act_Capability action in
         if \<not> MatchString capabilityNameRe capName
         then [perr ErrorCodeInvalidFieldValue
           (Sprintf ''state %q action[%d]: capability %q must be snake_case or <namespace>/snake_case (e.g. summarize, send_email, team-a/send_email)''
             [FS stateID, FI (int i), FS capName]) (st_Line state) stateID]
         else case find (\<lambda>pre. HasPrefix (bareCap capName) pre) reservedPrefixes of
             None \<Rightarrow> []
           | Some pre \<Rightarrow> [perr ErrorCodeInvalidFieldValue
               (Sprintf ''state %q action[%d]: capability %q uses reserved prefix %q''
                 [FS stateID, FI (int i), FS capName, FS pre]) (st_Line state) stateID])
         (st_Actions state)) (g_States g)"

definition EventNameValidator :: Validator where
  "EventNameValidator g =
     collect (\<lambda>(stateID, state).
       collect (\<lambda>t. if MatchString eventNameRe (tr_EventType t) then []
         else [perr ErrorCodeInvalidFieldValue
           (Sprintf ''state %q transition: event_type %q must be dot-separated lowercase, underscores allowed within segments (e.g. review.approved, push, code_review.completed)''
             [FS stateID, FS (tr_EventType t)]) (st_Line state) stateID])
         (st_Transitions state)) (g_States g)"

definition NamespaceValidator :: Validator where
  "NamespaceValidator g =
     (let ns = g_Namespace g in
      if ns = '''' then []
      else if length ns > 63
      then [perr ErrorCodeInvalidFieldValue
        (Sprintf ''namespace %q exceeds 63 characters (%d)'' [FS ns, FI (int (length ns))]) 0 '''']
      else if \<not> MatchString namespaceRe ns
      then [perr ErrorCodeInvalidFieldValue
        (Sprintf ''namespace %q must be DNS-label safe: lowercase alphanumeric and hyphens, no leading/trailing hyphen'' [FS ns]) 0 '''']
      else [])"

definition TransitionSetValidator :: Validator where
  "TransitionSetValidator g =
     collect (\<lambda>(stateID, state).
       collect (\<lambda>t.
         collect (\<lambda>(k, v). case as_string v of
             Some _ \<Rightarrow> []
           | None \<Rightarrow> [perr ErrorCodeInvalidFieldValue
               (Sprintf ''state %q transition %q: set key %q must be a string, got %T''
                 [FS stateID, FS (tr_EventType t), FS k, FS (type_name v)]) (st_Line state) stateID])
           (tr_Set t)) (st_Transitions state)) (g_States g)"

definition CrossNamespaceCapabilityValidator :: Validator where
  "CrossNamespaceCapabilityValidator g =
     collect (\<lambda>(stateID, state).
       collect_idx 0 (\<lambda>i action.
         let capRef = act_Capability action in
         case Index capRef ''/'' of
           None \<Rightarrow> []
         | Some slashIdx \<Rightarrow>
             let capNS = take slashIdx capRef in
             if capNS \<noteq> g_Namespace g
             then [perr ErrorCodeInvalidFieldValue
               (Sprintf ''state %q action[%d]: capability %q targets namespace %q but workflow namespace is %q; cross-namespace capability dispatch is not allowed''
                 [FS stateID, FI (int i), FS capRef, FS capNS, FS (g_Namespace g)]) (st_Line state) stateID]
             else []) (st_Actions state)) (g_States g)"

text \<open>The loop over one state's transitions, with the set \<^verbatim>\<open>seen\<close>.\<close>

fun duplicate_loop :: "string \<Rightarrow> int \<Rightarrow> string list \<Rightarrow> Transition list \<Rightarrow> ParseErrors" where
  "duplicate_loop stateID line seen [] = []"
| "duplicate_loop stateID line seen (t # ts) =
     (if tr_Guard t \<noteq> '''' then duplicate_loop stateID line seen ts
      else if tr_EventType t \<in> set seen
      then perr ErrorCodeInvalidFieldValue
             (Sprintf ''state %q has duplicate unguarded transition for event_type %q''
               [FS stateID, FS (tr_EventType t)]) line stateID
           # duplicate_loop stateID line seen ts
      else duplicate_loop stateID line (tr_EventType t # seen) ts)"

definition DuplicateTransitionValidator :: Validator where
  "DuplicateTransitionValidator g =
     collect (\<lambda>(stateID, state). duplicate_loop stateID (st_Line state) [] (st_Transitions state)) (g_States g)"

section \<open>Running the validators\<close>

definition Run_validators :: "WorkflowGraph \<Rightarrow> Validator list \<Rightarrow> ParseErrors" where
  "Run_validators g vs = collect (\<lambda>v. v g) vs"

definition All_validators :: "Validator list" where
  "All_validators =
     [TerminalStateValidator, OrphanStateValidator, CircularTransitionDetector,
      DuplicateTransitionValidator, CapabilityRefValidator, EventNameValidator,
      NamespaceValidator, TransitionSetValidator, CrossNamespaceCapabilityValidator]"

section \<open>What the structural validators decide\<close>

lemma productive_backward_closed:
  "\<forall>(a, b) \<in> set (edges g). b \<in> set (productiveStates g) \<longrightarrow> a \<in> set (productiveStates g)"
  by (auto simp: set_productiveStates intro: converse_rtrancl_into_rtrancl)

lemma edges_sources: "fst ` set (edges g) \<subseteq> set (map fst (g_States g))"
  by (force simp: set_edges)

text \<open>The states on a cycle of transitions, and those with a path to a terminal state.\<close>

definition on_cycle :: "WorkflowGraph \<Rightarrow> string set" where
  "on_cycle g = {x. (x, x) \<in> (set (edges g))\<^sup>+}"

definition can_finish :: "WorkflowGraph \<Rightarrow> string set" where
  "can_finish g = {x. \<exists>t \<in> set (terminals g). (x, t) \<in> (set (edges g))\<^sup>*}"

lemma CircularTransitionDetector_Nil: "CircularTransitionDetector g = [] \<longleftrightarrow> on_cycle g \<subseteq> can_finish g"
proof -
  have "fst ` set (edges g) \<subseteq> set (g_InitialState g # map fst (g_States g))"
    using edges_sources by auto
  from dfs_all_finds_cycles[OF productive_backward_closed this] show ?thesis
    by (auto simp: CircularTransitionDetector_def set_productiveStates on_cycle_def can_finish_def)
qed

text \<open>C2 The detector of circular transitions reports nothing exactly when every state that
  lies on a cycle of transitions can reach a terminal state, whatever order the states
  are visited in.\<close>

theorem trapped_cycles_detected:
  "CircularTransitionDetector g = [] \<longleftrightarrow> on_cycle g \<subseteq> can_finish g"
  by (rule CircularTransitionDetector_Nil)

text \<open>C3 The two breadth-first searches compute reachability: \<^verbatim>\<open>reachableFrom\<close> the states that a
  sequence of transitions leads to, \<^verbatim>\<open>productiveStates\<close> the states from which a terminal
  state can be reached.\<close>

theorem searches_compute_reachability:
  "set (reachableFrom g s) = (set (edges g))\<^sup>* `` {s} \<and> set (productiveStates g) = can_finish g"
  by (auto simp: set_reachableFrom set_productiveStates can_finish_def)

lemma OrphanStateValidator_Nil:
  "OrphanStateValidator g = [] \<longleftrightarrow>
     (\<forall>x \<in> fst ` set (g_States g). (g_InitialState g, x) \<in> (set (edges g))\<^sup>*)"
  by (force simp: OrphanStateValidator_def Let_def set_reachableFrom split: if_splits)

lemma duplicate_loop_Nil:
  "duplicate_loop n l seen ts = [] \<longleftrightarrow>
     (let es = map tr_EventType (filter (\<lambda>t. tr_Guard t = '''') ts)
      in distinct es \<and> set es \<inter> set seen = {})"
  by (induction n l seen ts rule: duplicate_loop.induct) (auto simp: Let_def)

lemma DuplicateTransitionValidator_Nil:
  "DuplicateTransitionValidator g = [] \<longleftrightarrow> (\<forall>(id, st) \<in> set (g_States g).
     distinct (map tr_EventType (filter (\<lambda>t. tr_Guard t = '''') (st_Transitions st))))"
  by (auto simp: DuplicateTransitionValidator_def duplicate_loop_Nil Let_def)

section \<open>What the semantic validators decide\<close>

definition dns_label :: "string \<Rightarrow> bool" where
  "dns_label s \<longleftrightarrow> s \<noteq> [] \<and> length s \<le> 63 \<and> list_all is_label_char s \<and>
     is_lower_alnum (hd s) \<and> is_lower_alnum (last s)"

lemma lang_RSeq_RCls:
  "c # r \<in> lang (RSeq (RCls P) R) \<longleftrightarrow> P c \<and> r \<in> lang R"
  "s \<in> lang (RSeq R (RCls P)) \<longleftrightarrow> (\<exists>m d. s = m @ [d] \<and> m \<in> lang R \<and> P d)"
  by (auto, rule exI[of _ "[c]"], auto)

lemma namespaceRe_lang: "s \<in> lang namespaceRe \<longleftrightarrow> dns_label s"
proof (cases s)
  case Nil
  then show ?thesis by (auto simp: namespaceRe_def dns_label_def)
next
  case (Cons c r)
  have "s \<in> lang namespaceRe \<longleftrightarrow> is_lower_alnum c \<and>
      (r = [] \<or> (\<exists>m d. r = m @ [d] \<and> length m \<le> 61 \<and> list_all is_label_char m \<and> is_lower_alnum d))"
    unfolding namespaceRe_def Cons lang_RSeq_RCls lang_ROpt insert_iff lang_RUpto_RCls list_all_iff
    by auto
  also have "\<dots> \<longleftrightarrow> dns_label s"
    using Cons by (cases r rule: rev_cases) (auto simp: dns_label_def is_label_char_def)
  finally show ?thesis .
qed

lemma NamespaceValidator_Nil: "NamespaceValidator g = [] \<longleftrightarrow> g_Namespace g = '''' \<or> dns_label (g_Namespace g)"
  by (auto simp: NamespaceValidator_def Let_def MatchString_lang namespaceRe_lang dns_label_def)

text \<open>A valid reference to a capability: snake case, in the workflow's own namespace when it
  is qualified, and outside the reserved prefixes.\<close>

definition snake_char :: "char \<Rightarrow> bool" where
  "snake_char c \<longleftrightarrow> is_lower_alnum c \<or> c = CHR ''_''"

definition capability_ok :: "string \<Rightarrow> string \<Rightarrow> bool" where
  "capability_ok ns cap \<longleftrightarrow>
     (let bare = bareCap cap in
      (cap = bare \<or> cap = ns @ ''/'' @ bare \<and> dns_label ns) \<and> bare \<noteq> [] \<and> is_lower (hd bare) \<and>
      list_all snake_char bare \<and> list_all (\<lambda>p. \<not> HasPrefix bare p) reservedPrefixes)"

lemma snakeRe_lang: "s \<in> lang snakeRe \<Longrightarrow> s \<noteq> [] \<and> is_lower (hd s) \<and> list_all snake_char s"
proof -
  assume a: "s \<in> lang snakeRe"
  have "rx_over snake_char snakeRe"
    by (auto simp: snakeRe_def snake_char_def is_lower_alnum_def)
  from lang_over[OF this a] have "list_all snake_char s" by (simp add: list_all_iff)
  moreover have "s \<noteq> [] \<and> is_lower (hd s)" using a by (auto simp: snakeRe_def)
  ultimately show ?thesis by blast
qed

lemma no_slash: "list_all snake_char s \<Longrightarrow> CHR ''/'' \<notin> set s" "dns_label s \<Longrightarrow> CHR ''/'' \<notin> set s"
  by (auto simp: list_all_iff snake_char_def dns_label_def is_label_char_def is_lower_alnum_def
      is_lower_def is_digit_def)

lemma Index_char_None: "Index s [c] = None \<longleftrightarrow> c \<notin> set s"
  by (induction s) auto

lemma Index_char_first: "c \<notin> set a \<Longrightarrow> Index (a @ c # b) [c] = Some (length a)"
  by (induction a) auto

lemma capabilityNameRe_cases:
  assumes "MatchString capabilityNameRe cap"
  shows "bareCap cap \<in> lang snakeRe \<and>
    (Index cap ''/'' = None \<and> cap = bareCap cap \<or>
     (\<exists>i. Index cap ''/'' = Some i \<and> dns_label (take i cap) \<and> cap = take i cap @ ''/'' @ bareCap cap))"
proof -
  from assms obtain u v where uv: "cap = u @ v" "v \<in> lang snakeRe"
    "u = [] \<or> (\<exists>ns. u = ns @ ''/'' \<and> dns_label ns)"
    by (auto simp: MatchString_lang capabilityNameRe_def namespaceRe_lang)
  have nv: "CHR ''/'' \<notin> set v" using snakeRe_lang[OF uv(2)] no_slash by blast
  from uv(3) show ?thesis
  proof
    assume "u = []"
    moreover have "Index v ''/'' = None" using nv by (simp add: Index_char_None)
    ultimately show ?thesis using uv by (simp add: bareCap_def)
  next
    assume "\<exists>ns. u = ns @ ''/'' \<and> dns_label ns"
    then obtain ns where ns: "u = ns @ ''/''" "dns_label ns" by blast
    then have "Index cap ''/'' = Some (length ns)"
      using uv(1) no_slash(2) by (simp add: Index_char_first)
    with uv ns show ?thesis by (auto simp: bareCap_def)
  qed
qed

lemma collect_idx_all_Nil:
  "collect_idx k f xs = [] \<Longrightarrow> x \<in> set xs \<Longrightarrow> \<exists>i. f i x = []"
  by (auto simp: collect_idx_eq_Nil in_set_conv_nth)

text \<open>C6 When the two capability validators report nothing, every action refers to a capability
  by a snake-case name outside the reserved prefixes, either unqualified or qualified by
  the workflow's own namespace, which is then a DNS label: no workflow that compiles
  addresses another namespace.\<close>

theorem capability_validators_sound:
  assumes "CapabilityRefValidator g = []" "CrossNamespaceCapabilityValidator g = []"
    and "(sid, st) \<in> set (g_States g)" "a \<in> set (st_Actions st)"
  shows "capability_ok (g_Namespace g) (act_Capability a)"
proof -
  let ?cap = "act_Capability a"
  have c: "MatchString capabilityNameRe ?cap"
    and r: "find (\<lambda>p. HasPrefix (bareCap ?cap) p) reservedPrefixes = None"
    using assms(1,3,4) by (auto simp: CapabilityRefValidator_def Let_def
        dest!: bspec collect_idx_all_Nil split: if_splits option.splits)
  have n: "take i ?cap = g_Namespace g" if "Index ?cap ''/'' = Some i" for i
    using assms(2,3,4) that by (auto simp: CrossNamespaceCapabilityValidator_def Let_def
        dest!: bspec collect_idx_all_Nil split: if_splits)
  have "list_all (\<lambda>p. \<not> HasPrefix (bareCap ?cap) p) reservedPrefixes"
    using r by (auto simp: find_None_iff list_all_iff)
  with capabilityNameRe_cases[OF c] snakeRe_lang[of "bareCap ?cap"] n show ?thesis
    by (auto simp: capability_ok_def Let_def)
qed

end
