(* ===== verification/Go_Json.thy ===== *)
theory Go_Json
  imports Go_Lib
begin

text \<open>
  The part of Go's \<^verbatim>\<open>encoding/json\<close> the services rely on, over byte strings: the string
  escaper, \<^verbatim>\<open>json.Marshal\<close> of dynamic values and of documents, and the decoder behind
  \<^verbatim>\<open>json.Unmarshal\<close> and \<^verbatim>\<open>json.Valid\<close>.  A document keeps a number as its literal text; an
  object is a map (the last of several equal keys wins).
\<close>

datatype json =
    JNull
  | JBool bool
  | JNum string
  | JStr string
  | JArr "json list"
  | JObj "(string \<times> json) list"

section \<open>Bytes and UTF-8\<close>

abbreviation byte :: "char \<Rightarrow> nat" where
  "byte c \<equiv> of_char c"

abbreviation DQ :: char where "DQ \<equiv> CHR 0x22"
abbreviation BSL :: char where "BSL \<equiv> CHR 0x5C"

definition in_range :: "nat \<Rightarrow> nat \<Rightarrow> char \<Rightarrow> bool" where
  "in_range lo hi c \<longleftrightarrow> lo \<le> byte c \<and> byte c \<le> hi"

text \<open>The length of the well-formed UTF-8 sequence of two or more bytes that a string
  starts with, 0 if there is none.\<close>

definition utf8_seq :: "string \<Rightarrow> nat" where
  "utf8_seq s =
     (let cont = (\<lambda>k. k < length s \<and> in_range 128 191 (s ! k));
          second = (\<lambda>lo hi. 1 < length s \<and> in_range lo hi (s ! 1));
          b = (if s = [] then 0 else byte (hd s))
      in if 194 \<le> b \<and> b \<le> 223 then (if cont 1 then 2 else 0)
         else if b = 224 then (if second 160 191 \<and> cont 2 then 3 else 0)
         else if b = 237 then (if second 128 159 \<and> cont 2 then 3 else 0)
         else if 225 \<le> b \<and> b \<le> 239 then (if cont 1 \<and> cont 2 then 3 else 0)
         else if b = 240 then (if second 144 191 \<and> cont 2 \<and> cont 3 then 4 else 0)
         else if 241 \<le> b \<and> b \<le> 243 then (if cont 1 \<and> cont 2 \<and> cont 3 then 4 else 0)
         else if b = 244 then (if second 128 143 \<and> cont 2 \<and> cont 3 then 4 else 0)
         else 0)"

definition utf8_encode :: "nat \<Rightarrow> string" where
  "utf8_encode r =
     (if r < 128 then [char_of r]
      else if r < 2048 then [char_of (192 + r div 64), char_of (128 + r mod 64)]
      else if r < 65536 then
        [char_of (224 + r div 4096), char_of (128 + r div 64 mod 64), char_of (128 + r mod 64)]
      else [char_of (240 + r div 262144), char_of (128 + r div 4096 mod 64),
            char_of (128 + r div 64 mod 64), char_of (128 + r mod 64)])"

definition rune_error :: nat where "rune_error = 65533"

section \<open>Escaping a string\<close>

definition hex_digit :: "nat \<Rightarrow> char" where
  "hex_digit d = (if d < 10 then char_of (48 + d) else char_of (87 + d))"

definition escape_u :: "nat \<Rightarrow> string" where
  "escape_u r = [BSL, CHR ''u'', hex_digit (r div 4096 mod 16), hex_digit (r div 256 mod 16),
                 hex_digit (r div 16 mod 16), hex_digit (r mod 16)]"

definition escape_ascii :: "char \<Rightarrow> string" where
  "escape_ascii c =
     (if c = DQ \<or> c = BSL then [BSL, c]
      else if c = CHR 0x08 then [BSL, CHR ''b'']
      else if c = CHR 0x0C then [BSL, CHR ''f'']
      else if c = CHR 0x0A then [BSL, CHR ''n'']
      else if c = CHR 0x0D then [BSL, CHR ''r'']
      else if c = CHR 0x09 then [BSL, CHR ''t'']
      else if byte c < 32 \<or> c = CHR ''<'' \<or> c = CHR ''>'' \<or> c = CHR ''&'' then escape_u (byte c)
      else [c])"

fun escape :: "string \<Rightarrow> string" where
  "escape [] = []"
| "escape (c # cs) =
     (if byte c < 128 then escape_ascii c @ escape cs
      else let n = utf8_seq (c # cs); w = take n (c # cs)
           in if n = 0 then escape_u rune_error @ escape cs
              else if w = utf8_encode 8232 then escape_u 8232 @ escape (drop (n - 1) cs)
              else if w = utf8_encode 8233 then escape_u 8233 @ escape (drop (n - 1) cs)
              else w @ escape (drop (n - 1) cs))"

definition quote :: "string \<Rightarrow> string" where
  "quote s = DQ # escape s @ [DQ]"

section \<open>Marshalling\<close>

definition commas :: "string list \<Rightarrow> string" where
  "commas ws = (case ws of [] \<Rightarrow> [] | w # ws' \<Rightarrow> w @ concat (map (\<lambda>x. CHR '','' # x) ws'))"

text \<open>The keys of an object come out sorted.\<close>

definition sort_fields :: "(string \<times> 'a) list \<Rightarrow> (string \<times> 'a) list" where
  "sort_fields m = sort_key fst m"

fun json_print :: "json \<Rightarrow> string" where
  "json_print JNull = ''null''"
| "json_print (JBool b) = (if b then ''true'' else ''false'')"
| "json_print (JNum t) = t"
| "json_print (JStr s) = quote s"
| "json_print (JArr js) = CHR ''['' # commas (map json_print js) @ '']''"
| "json_print (JObj m) =
     CHR ''{'' # commas (map (\<lambda>(k, t). quote k @ CHR '':'' # t)
                        (sort_fields (map (\<lambda>(k, j). (k, json_print j)) m))) @ ''}''"

fun the_all :: "'a option list \<Rightarrow> 'a list option" where
  "the_all [] = Some []"
| "the_all (x # xs) = (case x of None \<Rightarrow> None
     | Some a \<Rightarrow> (case the_all xs of None \<Rightarrow> None | Some as \<Rightarrow> Some (a # as)))"

fun json_of_value :: "go_value \<Rightarrow> json option" where
  "json_of_value VNil = Some JNull"
| "json_of_value (VBool b) = Some (JBool b)"
| "json_of_value (VInt i) = Some (JNum (Itoa i))"
| "json_of_value (VFloat t) = map_option JNum t"
| "json_of_value (VString s) = Some (JStr s)"
| "json_of_value (VTime s) = Some (JStr s)"
| "json_of_value (VList vs) = map_option JArr (the_all (map json_of_value vs))"
| "json_of_value (VMap m) =
     map_option (\<lambda>js. JObj (zip (map fst m) js)) (the_all (map (\<lambda>(k, v). json_of_value v) m))"
| "json_of_value VAnyMap = None"

definition json_Marshal :: "go_value \<Rightarrow> string option" where
  "json_Marshal v = map_option json_print (json_of_value v)"

section \<open>The decoder\<close>

definition is_ws :: "char \<Rightarrow> bool" where
  "is_ws c \<longleftrightarrow> c = CHR '' '' \<or> c = CHR 0x09 \<or> c = CHR 0x0A \<or> c = CHR 0x0D"

abbreviation skip_ws :: "string \<Rightarrow> string" where
  "skip_ws s \<equiv> dropWhile is_ws s"

definition hex_val :: "char \<Rightarrow> nat option" where
  "hex_val c =
     (if is_digit c then Some (byte c - 48)
      else if in_range 97 102 c then Some (byte c - 87)
      else if in_range 65 70 c then Some (byte c - 55)
      else None)"

fun hex4 :: "string \<Rightarrow> nat option" where
  "hex4 (a # b # c # d # _) =
     (case (hex_val a, hex_val b, hex_val c, hex_val d) of
        (Some w, Some x, Some y, Some z) \<Rightarrow> Some (((w * 16 + x) * 16 + y) * 16 + z)
      | _ \<Rightarrow> None)"
| "hex4 _ = None"

definition unescape1 :: "char \<Rightarrow> char option" where
  "unescape1 c =
     (if c = DQ \<or> c = BSL \<or> c = CHR ''/'' then Some c
      else if c = CHR ''b'' then Some (CHR 0x08)
      else if c = CHR ''f'' then Some (CHR 0x0C)
      else if c = CHR ''n'' then Some (CHR 0x0A)
      else if c = CHR ''r'' then Some (CHR 0x0D)
      else if c = CHR ''t'' then Some (CHR 0x09)
      else None)"

text \<open>A surrogate pair makes one rune, a lone surrogate the replacement rune.  The result
  is the rune and the number of bytes the escape takes after \<^verbatim>\<open>\u\<close>.\<close>

definition unescape_u :: "string \<Rightarrow> (nat \<times> nat) option" where
  "unescape_u s =
     (case hex4 s of
        None \<Rightarrow> None
      | Some r \<Rightarrow>
          if 55296 \<le> r \<and> r < 57344 then
            (case (r < 56320 \<and> take 2 (drop 4 s) = [BSL, CHR ''u''], hex4 (drop 6 s)) of
               (True, Some r2) \<Rightarrow>
                 if 56320 \<le> r2 \<and> r2 < 57344
                 then Some (65536 + (r - 55296) * 1024 + (r2 - 56320), 10)
                 else Some (rune_error, 4)
             | _ \<Rightarrow> Some (rune_error, 4))
          else Some (r, 4))"

text \<open>The body of a string literal, after its opening quote: the decoded bytes and the rest.\<close>

fun str_body :: "string \<Rightarrow> (string \<times> string) option" where
  "str_body [] = None"
| "str_body (c # cs) =
     (if c = DQ then Some ([], cs)
      else if byte c < 32 then None
      else if c = BSL then
        (case cs of
           [] \<Rightarrow> None
         | e # es \<Rightarrow>
             if e = CHR ''u'' then
               (case unescape_u es of
                  None \<Rightarrow> None
                | Some (r, n) \<Rightarrow> map_option (apfst ((@) (utf8_encode r))) (str_body (drop n es)))
             else (case unescape1 e of
                     None \<Rightarrow> None
                   | Some x \<Rightarrow> map_option (apfst ((#) x)) (str_body es)))
      else if byte c < 128 then map_option (apfst ((#) c)) (str_body cs)
      else let n = utf8_seq (c # cs)
           in if n = 0 then map_option (apfst ((@) (utf8_encode rune_error))) (str_body cs)
              else map_option (apfst ((@) (take n (c # cs)))) (str_body (drop (n - 1) cs)))"

definition digits1 :: "string \<Rightarrow> (string \<times> string) option" where
  "digits1 s = (let ds = takeWhile is_digit s in if ds = [] then None else Some (ds, dropWhile is_digit s))"

definition num_frac :: "string \<Rightarrow> (string \<times> string) option" where
  "num_frac s = (case s of
       c # cs \<Rightarrow> if c = CHR ''.'' then map_option (apfst ((#) c)) (digits1 cs) else Some ([], s)
     | [] \<Rightarrow> Some ([], s))"

definition num_exp :: "string \<Rightarrow> (string \<times> string) option" where
  "num_exp s = (case s of
       c # cs \<Rightarrow>
         if c = CHR ''e'' \<or> c = CHR ''E'' then
           (case cs of
              d # ds \<Rightarrow> if d = CHR ''+'' \<or> d = CHR ''-''
                        then map_option (apfst (\<lambda>t. c # d # t)) (digits1 ds)
                        else map_option (apfst ((#) c)) (digits1 cs)
            | [] \<Rightarrow> None)
         else Some ([], s)
     | [] \<Rightarrow> Some ([], s))"

definition num_int :: "string \<Rightarrow> (string \<times> string) option" where
  "num_int s = (case s of
       c # cs \<Rightarrow> if c = CHR ''0'' then Some ([c], cs) else digits1 s
     | [] \<Rightarrow> None)"

definition number :: "string \<Rightarrow> (string \<times> string) option" where
  "number s =
     (let sg = (if s \<noteq> [] \<and> hd s = CHR ''-'' then [hd s] else []);
          s0 = (if s \<noteq> [] \<and> hd s = CHR ''-'' then tl s else s)
      in case num_int s0 of None \<Rightarrow> None | Some (i, s1) \<Rightarrow>
         (case num_frac s1 of None \<Rightarrow> None | Some (f, s2) \<Rightarrow>
         (case num_exp s2 of None \<Rightarrow> None | Some (e, s3) \<Rightarrow> Some (sg @ i @ f @ e, s3))))"

definition literal :: "string \<Rightarrow> json \<Rightarrow> string \<Rightarrow> (json \<times> string) option" where
  "literal w j s = (if HasPrefix s w then Some (j, drop (length w) s) else None)"

text \<open>The recursive descent.  The tests on the length of the rest only serve termination:
  they hold of every rest a parser returns, since each consumes input.\<close>

function (sequential)
  jvalue :: "string \<Rightarrow> (json \<times> string) option" and
  jelems :: "string \<Rightarrow> (json list \<times> string) option" and
  jmembers :: "string \<Rightarrow> ((string \<times> json) list \<times> string) option" where
  "jvalue s =
     (case skip_ws s of
        [] \<Rightarrow> None
      | c # cs \<Rightarrow>
          if c = CHR ''{'' then
            (case skip_ws cs of
               [] \<Rightarrow> None
             | d # ds \<Rightarrow> if d = CHR ''}'' then Some (JObj [], ds)
                 else map_option (apfst (\<lambda>ms. JObj (foldl (\<lambda>m (k, v). gm_put k v m) [] ms))) (jmembers cs))
          else if c = CHR ''['' then
            (case skip_ws cs of
               [] \<Rightarrow> None
             | d # ds \<Rightarrow> if d = CHR '']'' then Some (JArr [], ds)
                 else map_option (apfst JArr) (jelems cs))
          else if c = DQ then map_option (apfst JStr) (str_body cs)
          else if c = CHR ''t'' then literal ''true'' (JBool True) (c # cs)
          else if c = CHR ''f'' then literal ''false'' (JBool False) (c # cs)
          else if c = CHR ''n'' then literal ''null'' JNull (c # cs)
          else map_option (apfst JNum) (number (c # cs)))"
| "jelems s =
     (case jvalue s of
        None \<Rightarrow> None
      | Some (v, r) \<Rightarrow>
          (case skip_ws r of
             [] \<Rightarrow> None
           | d # ds \<Rightarrow>
               if d = CHR '']'' then Some ([v], ds)
               else if d = CHR '','' \<and> length ds < length s
                 then map_option (apfst ((#) v)) (jelems ds)
               else None))"
| "jmembers s =
     (case skip_ws s of
        [] \<Rightarrow> None
      | q # qs \<Rightarrow>
          if q = DQ then
            (case str_body qs of
               None \<Rightarrow> None
             | Some (k, r) \<Rightarrow>
                 (case skip_ws r of
                    [] \<Rightarrow> None
                  | c # cs \<Rightarrow>
                      if c = CHR '':'' \<and> length cs < length s then
                        (case jvalue cs of
                           None \<Rightarrow> None
                         | Some (v, r2) \<Rightarrow>
                             (case skip_ws r2 of
                                [] \<Rightarrow> None
                              | d # ds \<Rightarrow>
                                  if d = CHR ''}'' then Some ([(k, v)], ds)
                                  else if d = CHR '','' \<and> length ds < length s
                                    then map_option (apfst ((#) (k, v))) (jmembers ds)
                                  else None))
                      else None))
          else None)"
  by pat_completeness auto

lemma skip_ws_length: "skip_ws s = c # cs \<Longrightarrow> length cs < length s"
  by (metis Suc_le_eq length_Cons length_dropWhile_le)

termination jvalue
  by (relation "measure (\<lambda>x. case x of Inl s \<Rightarrow> 2 * length s
        | Inr (Inl s) \<Rightarrow> 2 * length s + 1 | Inr (Inr s) \<Rightarrow> 2 * length s + 1)")
    (auto dest!: skip_ws_length)

declare jvalue.simps [simp del] jelems.simps [simp del] jmembers.simps [simp del]

definition json_Unmarshal :: "string \<Rightarrow> json option" where
  "json_Unmarshal s = (case jvalue s of
       Some (j, r) \<Rightarrow> if skip_ws r = [] then Some j else None
     | None \<Rightarrow> None)"

definition json_Valid :: "string \<Rightarrow> bool" where
  "json_Valid s \<longleftrightarrow> json_Unmarshal s \<noteq> None"

text \<open>\<^verbatim>\<open>json.Unmarshal\<close> into a map: an object gives its fields, null leaves the map nil,
  anything else is an error.\<close>

definition Unmarshal_map :: "string \<Rightarrow> (string \<times> json) list option" where
  "Unmarshal_map s = (case json_Unmarshal s of
       Some (JObj m) \<Rightarrow> Some m
     | Some JNull \<Rightarrow> Some []
     | _ \<Rightarrow> None)"

section \<open>A quoted string is read back\<close>

text \<open>The bytes of a string with every ill-formed UTF-8 byte replaced, which is what
  survives the encoder.\<close>

fun to_valid_utf8 :: "string \<Rightarrow> string" where
  "to_valid_utf8 [] = []"
| "to_valid_utf8 (c # cs) =
     (if byte c < 128 then c # to_valid_utf8 cs
      else let n = utf8_seq (c # cs)
           in if n = 0 then utf8_encode rune_error @ to_valid_utf8 cs
              else take n (c # cs) @ to_valid_utf8 (drop (n - 1) cs))"

lemma to_valid_ascii: "list_all (\<lambda>c. byte c < 128) s \<Longrightarrow> to_valid_utf8 s = s"
  by (induction s) auto

lemma hex_val_digit [simp]: "d < 16 \<Longrightarrow> hex_val (hex_digit d) = Some d"
  by (auto simp: hex_val_def hex_digit_def is_digit_def in_range_def)

lemma hex4_digits:
  "r < 65536 \<Longrightarrow> hex4 (hex_digit (r div 4096 mod 16) # hex_digit (r div 256 mod 16) #
     hex_digit (r div 16 mod 16) # hex_digit (r mod 16) # t) = Some r"
proof -
  assume "r < 65536"
  then have "r div 4096 < 16" by simp
  moreover have "r div 256 = r div 4096 * 16 + r div 256 mod 16"
    and "r div 16 = r div 256 * 16 + r div 16 mod 16" and "r = r div 16 * 16 + r mod 16"
    using div_mult_mod_eq[of "r div 256" 16] div_mult_mod_eq[of "r div 16" 16]
    by (simp_all flip: div_mult2_eq)
  ultimately show ?thesis by simp
qed

lemma str_body_u:
  "unescape_u es = Some (r, n) \<Longrightarrow>
   str_body (BSL # CHR ''u'' # es) = map_option (apfst ((@) (utf8_encode r))) (str_body (drop n es))"
  by simp

lemma str_body_escape_u:
  assumes "r < 65536" "\<not> (55296 \<le> r \<and> r < 57344)"
  shows "str_body (escape_u r @ t) = map_option (apfst ((@) (utf8_encode r))) (str_body t)"
proof -
  let ?h = "[hex_digit (r div 4096 mod 16), hex_digit (r div 256 mod 16),
     hex_digit (r div 16 mod 16), hex_digit (r mod 16)]"
  have h: "hex4 (?h @ t) = Some r"
    unfolding append_Cons append_Nil by (rule hex4_digits [OF assms(1)])
  have "unescape_u s = Some (r, 4)" if "hex4 s = Some r" for s
    using that assms(2) by (auto simp: unescape_u_def)
  from this [OF h] have "unescape_u (?h @ t) = Some (r, 4)" .
  moreover have "escape_u r @ t = BSL # CHR ''u'' # ?h @ t" by (simp add: escape_u_def)
  moreover have "drop 4 (?h @ t) = t" by simp
  ultimately show ?thesis by (metis str_body_u)
qed

lemma append_single: "(@) [c] = (#) c"
  by (rule ext) simp

lemma str_body_escape_ascii:
  assumes "byte c < 128"
  shows "str_body (escape_ascii c @ t) = map_option (apfst ((#) c)) (str_body t)"
proof -
  have e: "utf8_encode (byte c) = [c]" using assms by (simp add: utf8_encode_def)
  have u: "str_body (escape_u (byte c) @ t) = map_option (apfst ((#) c)) (str_body t)"
    using str_body_escape_u[of "byte c" t] assms e by (simp add: append_single)
  show ?thesis
  proof (cases "c \<in> {DQ, BSL, CHR 0x08, CHR 0x09, CHR 0x0A, CHR 0x0C, CHR 0x0D}")
    case True
    then show ?thesis by (auto simp: escape_ascii_def unescape1_def)
  next
    case False
    then show ?thesis using u assms by (simp add: escape_ascii_def)
  qed
qed

lemma utf8_seq_le: "utf8_seq s \<le> length s"
  by (simp add: utf8_seq_def Let_def)

lemma utf8_seq_values: "utf8_seq s \<in> {0, 2, 3, 4}"
  by (simp add: utf8_seq_def Let_def)

lemma utf8_seq_2: "utf8_seq (a # b # s) = 2 \<Longrightarrow> utf8_seq (a # b # t) = 2"
  unfolding utf8_seq_def Let_def by (simp split: if_split_asm)

lemma utf8_seq_3: "utf8_seq (a # b # c # s) = 3 \<Longrightarrow> utf8_seq (a # b # c # t) = 3"
  unfolding utf8_seq_def Let_def by (simp split: if_split_asm)

lemma utf8_seq_4: "utf8_seq (a # b # c # d # s) = 4 \<Longrightarrow> utf8_seq (a # b # c # d # t) = 4"
  unfolding utf8_seq_def Let_def by (simp split: if_split_asm)

lemma utf8_seq_take:
  assumes "utf8_seq s \<noteq> 0"
  shows "utf8_seq (take (utf8_seq s) s @ t) = utf8_seq s"
proof -
  consider "utf8_seq s = 2" | "utf8_seq s = 3" | "utf8_seq s = 4"
    using utf8_seq_values[of s] assms by auto
  then show ?thesis
  proof cases
    case 1
    then obtain a b r where "s = a # b # r"
      using utf8_seq_le[of s] by (auto simp: Suc_le_length_iff numeral_eq_Suc)
    with 1 show ?thesis using utf8_seq_2[of a b r t] by simp
  next
    case 2
    then obtain a b c r where "s = a # b # c # r"
      using utf8_seq_le[of s] by (auto simp: Suc_le_length_iff numeral_eq_Suc)
    with 2 show ?thesis using utf8_seq_3[of a b c r t] by simp
  next
    case 3
    then obtain a b c d r where "s = a # b # c # d # r"
      using utf8_seq_le[of s] by (auto simp: Suc_le_length_iff numeral_eq_Suc)
    with 3 show ?thesis using utf8_seq_4[of a b c d r t] by simp
  qed
qed

lemma str_body_utf8:
  assumes n: "utf8_seq (c # cs) = n" "n \<noteq> 0" and c: "\<not> byte c < 128"
  shows "str_body (take n (c # cs) @ t) = map_option (apfst ((@) (take n (c # cs)))) (str_body t)"
proof -
  obtain k where k: "n = Suc k" using n(2) by (cases n) auto
  have l: "k \<le> length cs" using utf8_seq_le[of "c # cs"] n(1) k by simp
  have "utf8_seq (c # take k cs @ t) = Suc k"
    using utf8_seq_take[of "c # cs" t] n k by simp
  then show ?thesis using c k l by auto
qed

lemma escape_roundtrip: "str_body (escape s @ DQ # r) = Some (to_valid_utf8 s, r)"
proof (induction s rule: escape.induct)
  case 1
  then show ?case by simp
next
  case (2 c cs)
  let ?n = "utf8_seq (c # cs)"
  show ?case
  proof (cases "byte c < 128")
    case True
    then show ?thesis using 2(1) by (simp add: str_body_escape_ascii)
  next
    case False
    have u: "str_body (escape_u rune_error @ t) = map_option (apfst ((@) (utf8_encode rune_error))) (str_body t)"
      "str_body (escape_u 8232 @ t) = map_option (apfst ((@) (utf8_encode 8232))) (str_body t)"
      "str_body (escape_u 8233 @ t) = map_option (apfst ((@) (utf8_encode 8233))) (str_body t)" for t
      by (rule str_body_escape_u; simp add: rune_error_def)+
    show ?thesis
    proof (cases "?n = 0")
      case True
      with False 2(2) u show ?thesis by (simp add: Let_def)
    next
      case n: False
      have "str_body (escape (drop (?n - 1) cs) @ DQ # r) = Some (to_valid_utf8 (drop (?n - 1) cs), r)"
        using 2(3-5)[OF False refl refl n] by (cases "take ?n (c # cs) = utf8_encode 8232"; cases "take ?n (c # cs) = utf8_encode 8233") auto
      with False n u str_body_utf8[OF refl n False] show ?thesis
        by (simp add: Let_def del: str_body.simps take_Suc_Cons)
    qed
  qed
qed


end
