(* ===== verification/Compiler_IR.thy ===== *)
theory Compiler_IR
  imports Compiler_Validators Go_Json
begin

text \<open>
  The intermediate representation: its messages
  (\<^verbatim>\<open>protos/zynax/v1/workflow_compiler.proto\<close>) and its generation from a graph
  (\<^verbatim>\<open>services/workflow-compiler/internal/domain/ir/ir.go\<close>).  A timestamp is the integer of
  its nanoseconds.
\<close>

section \<open>Messages\<close>

datatype StateTypeIR =
    STATE_TYPE_UNSPECIFIED | STATE_TYPE_NORMAL | STATE_TYPE_TERMINAL | STATE_TYPE_HUMAN_IN_THE_LOOP

record ActionIR =
  ai_Capability :: string
  ai_Timeout :: "int option"
  ai_InputTemplateJson :: string
  ai_Async :: bool
  ai_OutputBindings :: "(string, string) gomap"
  ai_InputBindings :: "(string, string) gomap"

record TransitionIR =
  ti_EventType :: string
  ti_TargetState :: string
  ti_Conditions :: "(string, string) gomap"

record StateIR =
  si_Id :: string
  si_Type :: StateTypeIR
  si_Actions :: "ActionIR list"
  si_Transitions :: "TransitionIR list"
  si_Outputs :: "(string, string) gomap"

record WorkflowIR =
  ir_WorkflowId :: string
  ir_Name :: string
  ir_Namespace :: string
  ir_ApiVersion :: string
  ir_CompiledAt :: int
  ir_InitialState :: string
  ir_States :: "StateIR list"
  ir_IrVersion :: string

section \<open>Generation\<close>

definition irVersion :: string where
  "irVersion = ''v1''"

fun convertStateType :: "StateType \<Rightarrow> StateTypeIR" where
  "convertStateType StateTypeTerminal = STATE_TYPE_TERMINAL"
| "convertStateType StateTypeHumanInTheLoop = STATE_TYPE_HUMAN_IN_THE_LOOP"
| "convertStateType StateTypeNormal = STATE_TYPE_NORMAL"

definition copyBindings :: "(string, string) gomap \<Rightarrow> (string, string) gomap" where
  "copyBindings m = foldl (\<lambda>out (k, v). gm_put k v out) [] m"

definition marshalInputTemplate :: "(string, go_value) gomap \<Rightarrow> string option" where
  "marshalInputTemplate input = (if input = [] then Some '''' else json_Marshal (VMap input))"

definition convertTransitions :: "Transition list \<Rightarrow> TransitionIR list" where
  "convertTransitions ts =
     map (\<lambda>t. \<lparr>ti_EventType = tr_EventType t, ti_TargetState = tr_TargetState t,
               ti_Conditions = tr_Conditions t\<rparr>) ts"

text \<open>The loop stops at the first input that cannot be marshalled.\<close>

fun convertActions :: "string \<Rightarrow> nat \<Rightarrow> Action list \<Rightarrow> message + ActionIR list" where
  "convertActions stateID i [] = Inr []"
| "convertActions stateID i (a # as) =
     (case marshalInputTemplate (act_Input a) of
        None \<Rightarrow> Inl (Sprintf ''state %q action[%d]: cannot marshal input: %w'' [FS stateID, FI (int i)])
      | Some inputJSON \<Rightarrow>
          (case convertActions stateID (Suc i) as of
             Inl e \<Rightarrow> Inl e
           | Inr out \<Rightarrow>
               Inr (\<lparr>ai_Capability = act_Capability a,
                     ai_Timeout = (if act_Timeout a > 0 then Some (act_Timeout a) else None),
                     ai_InputTemplateJson = inputJSON, ai_Async = act_Async a,
                     ai_OutputBindings = copyBindings (act_OutputBindings a),
                     ai_InputBindings = copyBindings (act_InputBindings a)\<rparr> # out)))"

text \<open>One turn of the loop of \<^verbatim>\<open>convertStates\<close>, and the loop over the sorted IDs.\<close>

definition convert_state :: "string \<Rightarrow> State \<Rightarrow> message + StateIR" where
  "convert_state sid s =
     (case convertActions sid 0 (st_Actions s) of
        Inl e \<Rightarrow> Inl e
      | Inr actions \<Rightarrow>
          Inr \<lparr>si_Id = sid, si_Type = convertStateType (st_Type s), si_Actions = actions,
               si_Transitions = convertTransitions (st_Transitions s),
               si_Outputs = copyBindings (st_Outputs s)\<rparr>)"

definition zero_State :: State where
  "zero_State = \<lparr>st_ID = '''', st_Type = StateTypeNormal, st_Actions = [], st_Transitions = [],
                st_Outputs = [], st_Line = 0\<rparr>"

fun convert_ids :: "(string, State) gomap \<Rightarrow> string list \<Rightarrow> message + StateIR list" where
  "convert_ids states [] = Inr []"
| "convert_ids states (sid # sids) =
     (case convert_state sid (gm_get zero_State states sid) of
        Inl e \<Rightarrow> Inl e
      | Inr s \<Rightarrow> (case convert_ids states sids of Inl e \<Rightarrow> Inl e | Inr out \<Rightarrow> Inr (s # out)))"

definition convertStates :: "(string, State) gomap \<Rightarrow> message + StateIR list" where
  "convertStates states = convert_ids states (sort_Strings (map fst states))"

text \<open>\<open>now\<close> is what \<^verbatim>\<open>time.Now().UTC()\<close> would return, \<open>compiledAt\<close> is \<open>None\<close> for the zero time.\<close>

definition ToIR ::
  "WorkflowGraph option \<Rightarrow> string \<Rightarrow> string \<Rightarrow> int option \<Rightarrow> int \<Rightarrow> message + WorkflowIR" where
  "ToIR graph workflowID apiVersion compiledAt now =
     (case graph of
        None \<Rightarrow> Inl (Msg ''graph must not be nil'')
      | Some g \<Rightarrow>
          if workflowID = '''' then Inl (Msg ''workflowID must not be empty'')
          else case convertStates (g_States g) of
              Inl e \<Rightarrow> Inl e
            | Inr states \<Rightarrow>
                Inr \<lparr>ir_WorkflowId = workflowID, ir_Name = g_Name g, ir_Namespace = g_Namespace g,
                     ir_ApiVersion = apiVersion,
                     ir_CompiledAt = (case compiledAt of None \<Rightarrow> now | Some t \<Rightarrow> t),
                     ir_InitialState = g_InitialState g, ir_States = states, ir_IrVersion = irVersion\<rparr>)"

section \<open>The states of the representation\<close>

lemma map_of_copyBindings [simp]: "gm_ok m \<Longrightarrow> map_of (copyBindings m) = map_of m"
proof -
  have "map_of (foldl (\<lambda>out (k, v). gm_put k v out) acc m) = map_of acc ++ map_of m"
    if "gm_ok m" for acc m :: "(string, string) gomap"
    using that
  proof (induction m arbitrary: acc)
    case (Cons p m)
    obtain k v where "p = (k, v)" by (cases p)
    with Cons show ?case
      by (auto simp: map_add_def map_of_eq_None_iff fun_eq_iff split: option.splits)
         (metis image_eqI fst_conv map_of_SomeD option.distinct(1))+
  qed simp
  from this[of m "[]"] show "gm_ok m \<Longrightarrow> map_of (copyBindings m) = map_of m"
    by (simp add: copyBindings_def)
qed

lemma convert_ids_Inr:
  "convert_ids states ids = Inr out \<Longrightarrow>
     list_all2 (\<lambda>i s. convert_state i (gm_get zero_State states i) = Inr s) ids out"
  by (induction states ids arbitrary: out rule: convert_ids.induct) (auto split: sum.splits)

lemma convert_state_id: "convert_state i s = Inr t \<Longrightarrow> si_Id t = i"
  by (auto simp: convert_state_def split: sum.splits)

lemma convertStates_ids: "convertStates states = Inr out \<Longrightarrow> map si_Id out = sort_Strings (map fst states)"
proof -
  assume "convertStates states = Inr out"
  then have "list_all2 (\<lambda>i s. convert_state i (gm_get zero_State states i) = Inr s)
      (sort_Strings (map fst states)) out"
    by (simp add: convertStates_def convert_ids_Inr)
  then show ?thesis
    by (induction rule: list_all2_induct) (auto dest: convert_state_id)
qed

lemma list_all2_in_right: "list_all2 P xs ys \<Longrightarrow> y \<in> set ys \<Longrightarrow> \<exists>x \<in> set xs. P x y"
  by (induction rule: list_all2_induct) auto

lemma convertStates_in:
  assumes "convertStates states = Inr out" "gm_ok states" "s \<in> set out"
  shows "\<exists>st. (si_Id s, st) \<in> set states \<and> convert_state (si_Id s) st = Inr s"
proof -
  from assms(1) have l: "list_all2 (\<lambda>i s. convert_state i (gm_get zero_State states i) = Inr s)
      (sort_Strings (map fst states)) out"
    by (simp add: convertStates_def convert_ids_Inr)
  with assms(3) obtain i where i: "i \<in> set (map fst states)" "convert_state i (gm_get zero_State states i) = Inr s"
    using list_all2_in_right[OF l assms(3)] by auto
  then obtain st where "(i, st) \<in> set states" by auto
  then have "map_of states i = Some st" using assms(2) by (simp add: gm_ok_in_set)
  with i convert_state_id[OF i(2)] \<open>(i, st) \<in> set states\<close> show ?thesis by (auto simp: gm_get_def)
qed

lemma convert_ids_cong:
  "map_of s1 = map_of s2 \<Longrightarrow> convert_ids s1 ids = convert_ids s2 ids"
  by (induction ids) (simp_all add: gm_get_def cong: sum.case_cong)

text \<open>The generated representation does not depend on the iteration order of the map of
  states: two graphs with the same states give the same IR.\<close>

theorem ToIR_deterministic:
  assumes "gm_ok (g_States g)" "gm_ok ss" "set ss = set (g_States g)"
  shows "ToIR (Some (g\<lparr>g_States := ss\<rparr>)) wid api at now = ToIR (Some g) wid api at now"
proof -
  have "map_of ss = map_of (g_States g)" using assms by (simp add: map_of_inject_set gm_ok_def)
  moreover have "sort_Strings (map fst ss) = sort_Strings (map fst (g_States g))"
    using assms by (intro sort_Strings_set_eq) (auto simp: gm_ok_def)
  ultimately have "convertStates ss = convertStates (g_States g)"
    unfolding convertStates_def by (metis convert_ids_cong)
  then show ?thesis by (simp add: ToIR_def cong: sum.case_cong)
qed

text \<open>Erasing the guards and the context writes of the transitions of a graph.\<close>

definition erase_state :: "State \<Rightarrow> State" where
  "erase_state st = st\<lparr>st_Transitions := map (\<lambda>t. t\<lparr>tr_Guard := '''', tr_Set := []\<rparr>) (st_Transitions st)\<rparr>"

definition erase_guards :: "WorkflowGraph \<Rightarrow> WorkflowGraph" where
  "erase_guards g = g\<lparr>g_States := map (\<lambda>(sid, st). (sid, erase_state st)) (g_States g)\<rparr>"

lemma convert_state_erase: "convert_state sid (erase_state st) = convert_state sid st"
  by (simp add: convert_state_def erase_state_def convertTransitions_def comp_def cong: sum.case_cong)

lemma gm_get_erase:
  "gm_get zero_State (map (\<lambda>(sid, st). (sid, erase_state st)) ss) x = erase_state (gm_get zero_State ss x)"
  by (simp add: gm_get_def map_of_map erase_state_def zero_State_def split: option.splits)

lemma convertStates_erase:
  "convertStates (map (\<lambda>(sid, st). (sid, erase_state st)) ss) = convertStates ss"
proof -
  have "convert_ids (map (\<lambda>(sid, st). (sid, erase_state st)) ss) xs = convert_ids ss xs" for xs
    by (induction xs) (simp_all add: gm_get_erase convert_state_erase cong: sum.case_cong)
  then show ?thesis by (simp add: convertStates_def comp_def case_prod_beta)
qed

text \<open>The representation does not carry the guards and the context writes of transitions: a
  graph and the same graph with all of them erased compile to the same IR.\<close>

theorem ToIR_drops_guards: "ToIR (Some (erase_guards g)) wid api at now = ToIR (Some g) wid api at now"
  by (simp add: ToIR_def erase_guards_def convertStates_erase cong: sum.case_cong)

end
