(* ===== verification/Compiler_Server.thy ===== *)
theory Compiler_Server
  imports Compiler_IR
begin

text \<open>
  The compiler's policy gate
  (\<^verbatim>\<open>services/workflow-compiler/internal/domain/policy_gate.go\<close>) and its gRPC server
  (\<^verbatim>\<open>services/workflow-compiler/internal/api/server.go\<close>).  What a call reads from its
  environment is an argument: the context's error, the clock, the random ID.
\<close>

section \<open>The policy gate\<close>

definition AnnotationEngineHint :: string where
  "AnnotationEngineHint = ''zynax.io/engine-hint''"

datatype PolicyViolationKind = PolicyViolationRouting

record PolicyGateError =
  pg_Kind :: PolicyViolationKind
  pg_Message :: message

record RoutingPolicyConfig =
  rp_Namespace :: string
  rp_AllowedEngines :: "string list"

type_synonym PolicyGate = "(string, RoutingPolicyConfig) gomap"

definition NewPolicyGate :: "RoutingPolicyConfig list \<Rightarrow> PolicyGate" where
  "NewPolicyGate policies =
     foldl (\<lambda>pg p. if rp_Namespace p \<noteq> '''' then gm_put (rp_Namespace p) p pg else pg) [] policies"

definition checkRoutingPolicy :: "PolicyGate \<Rightarrow> string \<Rightarrow> (string, string) gomap \<Rightarrow> PolicyGateError option" where
  "checkRoutingPolicy pg ns annotations =
     (case map_of pg ns of
        None \<Rightarrow> None
      | Some policy \<Rightarrow>
          if rp_AllowedEngines policy = [] then None
          else case map_of annotations AnnotationEngineHint of
              None \<Rightarrow> None
            | Some hint \<Rightarrow>
                if hint = '''' then None
                else if list_ex (\<lambda>allowed. allowed = hint) (rp_AllowedEngines policy) then None
                else Some \<lparr>pg_Kind = PolicyViolationRouting,
                  pg_Message = Sprintf ''engine %q is not allowed in namespace %q; allowed engines: %v''
                    [FS hint, FS ns, FL (rp_AllowedEngines policy)]\<rparr>)"

definition PolicyGate_Check :: "PolicyGate \<Rightarrow> WorkflowGraph \<Rightarrow> (string, string) gomap \<Rightarrow> PolicyGateError option" where
  "PolicyGate_Check pg g annotations = checkRoutingPolicy pg (g_Namespace g) annotations"

section \<open>The server\<close>

datatype ProtoErrorCode =
    COMPILATION_ERROR_CODE_UNSPECIFIED
  | COMPILATION_ERROR_CODE_YAML_PARSE_ERROR
  | COMPILATION_ERROR_CODE_NO_INITIAL_STATE
  | COMPILATION_ERROR_CODE_MULTIPLE_INITIAL_STATES
  | COMPILATION_ERROR_CODE_NO_TERMINAL_STATE
  | COMPILATION_ERROR_CODE_ORPHAN_STATE
  | COMPILATION_ERROR_CODE_UNKNOWN_STATE_REFERENCE
  | COMPILATION_ERROR_CODE_DUPLICATE_STATE_NAME
  | COMPILATION_ERROR_CODE_MISSING_REQUIRED_FIELD
  | COMPILATION_ERROR_CODE_INVALID_FIELD_VALUE

fun errorCodeMap :: "CompilationErrorCode \<Rightarrow> ProtoErrorCode" where
  "errorCodeMap ErrorCodeUnspecified = COMPILATION_ERROR_CODE_UNSPECIFIED"
| "errorCodeMap ErrorCodeYAMLParseError = COMPILATION_ERROR_CODE_YAML_PARSE_ERROR"
| "errorCodeMap ErrorCodeNoInitialState = COMPILATION_ERROR_CODE_NO_INITIAL_STATE"
| "errorCodeMap ErrorCodeMultipleInitialStates = COMPILATION_ERROR_CODE_MULTIPLE_INITIAL_STATES"
| "errorCodeMap ErrorCodeNoTerminalState = COMPILATION_ERROR_CODE_NO_TERMINAL_STATE"
| "errorCodeMap ErrorCodeOrphanState = COMPILATION_ERROR_CODE_ORPHAN_STATE"
| "errorCodeMap ErrorCodeUnknownStateReference = COMPILATION_ERROR_CODE_UNKNOWN_STATE_REFERENCE"
| "errorCodeMap ErrorCodeDuplicateStateName = COMPILATION_ERROR_CODE_DUPLICATE_STATE_NAME"
| "errorCodeMap ErrorCodeMissingRequiredField = COMPILATION_ERROR_CODE_MISSING_REQUIRED_FIELD"
| "errorCodeMap ErrorCodeInvalidFieldValue = COMPILATION_ERROR_CODE_INVALID_FIELD_VALUE"
| "errorCodeMap ErrorCodeCircularTransition = COMPILATION_ERROR_CODE_INVALID_FIELD_VALUE"

record CompilationError =
  ce_Code :: ProtoErrorCode
  ce_Message :: message
  ce_LineNumber :: int
  ce_StateName :: string

definition toProtoErrors :: "ParseErrors \<Rightarrow> CompilationError list" where
  "toProtoErrors errs =
     map (\<lambda>e. \<lparr>ce_Code = errorCodeMap (pe_Code e), ce_Message = pe_Message e,
               ce_LineNumber = (if pe_Line e \<le> MaxInt32 then to_int32 (pe_Line e) else MaxInt32),
               ce_StateName = pe_StateName e\<rparr>) errs"

record CompileWorkflowRequest =
  cq_ManifestYaml :: string
  cq_Namespace :: string

record CompileWorkflowResponse =
  cr_WorkflowIr :: "WorkflowIR option"
  cr_Errors :: "CompilationError list"
  cr_CompilationDurationMs :: int

record ValidateManifestResponse =
  vr_Valid :: bool
  vr_Errors :: "CompilationError list"

definition minDurationMs :: int where
  "minDurationMs = 1"

definition compile_errors :: "ParseErrors \<Rightarrow> CompileWorkflowResponse" where
  "compile_errors errs = \<lparr>cr_WorkflowIr = None, cr_Errors = toProtoErrors errs, cr_CompilationDurationMs = 0\<rparr>"

text \<open>What a call of \<^verbatim>\<open>CompileWorkflow\<close> reads: the context, the random ID, the clock, the
  duration it measures.\<close>

record compile_env =
  env_ctx :: "ctx_error option"
  env_id :: string
  env_now :: int
  env_durationMs :: int

definition policy_stub :: "string \<Rightarrow> WorkflowGraph" where
  "policy_stub ns = \<lparr>g_Name = '''', g_Namespace = ns, g_InitialState = '''', g_States = []\<rparr>"

definition CompileWorkflow ::
  "yaml_lib \<Rightarrow> PolicyGate option \<Rightarrow> compile_env \<Rightarrow> CompileWorkflowRequest \<Rightarrow> rpc_error + CompileWorkflowResponse" where
  "CompileWorkflow yaml policyGate env req =
     (case env_ctx env of
        Some err \<Rightarrow> Inl (FromContextError err)
      | None \<Rightarrow>
     if cq_ManifestYaml req = '''' then Inl (InvalidArgument, Msg ''manifest_yaml must not be empty'')
     else case ParseManifest yaml (cq_ManifestYaml req) of
        Inl parseErrs \<Rightarrow> Inr (compile_errors parseErrs)
      | Inr manifest0 \<Rightarrow>
     let manifest = (if mf_Namespace manifest0 = '''' \<and> cq_Namespace req \<noteq> ''''
                     then manifest0\<lparr>mf_Namespace := cq_Namespace req\<rparr> else manifest0)
     in case (case policyGate of
                None \<Rightarrow> None
              | Some pg \<Rightarrow> PolicyGate_Check pg (policy_stub (mf_Namespace manifest)) (mf_Annotations manifest)) of
        Some gateErr \<Rightarrow>
          (case pg_Message gateErr of Sprintf f as \<Rightarrow>
             Inl (PermissionDenied, Sprintf (''routing policy violation: '' @ f) as))
      | None \<Rightarrow>
     case Build manifest of
        Inl buildErrs \<Rightarrow> Inr (compile_errors buildErrs)
      | Inr g \<Rightarrow>
     let validationErrs = Run_validators g All_validators in
     if validationErrs \<noteq> [] then Inr (compile_errors validationErrs)
     else case ToIR (Some g) (env_id env) (mf_APIVersion manifest) (Some (env_now env)) (env_now env) of
        Inl (Sprintf f as) \<Rightarrow> Inl (Internal, Sprintf (''IR generation: '' @ f) as)
      | Inr wfIR \<Rightarrow>
          Inr \<lparr>cr_WorkflowIr = Some wfIR, cr_Errors = [],
               cr_CompilationDurationMs = (if env_durationMs env = 0 then minDurationMs else env_durationMs env)\<rparr>)"

definition ValidateManifest ::
  "yaml_lib \<Rightarrow> ctx_error option \<Rightarrow> string \<Rightarrow> rpc_error + ValidateManifestResponse" where
  "ValidateManifest yaml ctx manifestYaml =
     (case ctx of
        Some err \<Rightarrow> Inl (FromContextError err)
      | None \<Rightarrow>
     if manifestYaml = '''' then Inl (InvalidArgument, Msg ''manifest_yaml must not be empty'')
     else case ParseManifest yaml manifestYaml of
        Inl parseErrs \<Rightarrow> Inr \<lparr>vr_Valid = False, vr_Errors = toProtoErrors parseErrs\<rparr>
      | Inr manifest \<Rightarrow>
          let allErrs = (case Build manifest of
                Inl buildErrs \<Rightarrow> buildErrs
              | Inr g \<Rightarrow> Run_validators g All_validators)
          in Inr \<lparr>vr_Valid = (allErrs = []), vr_Errors = toProtoErrors allErrs\<rparr>)"

definition GetCompiledWorkflow :: "ctx_error option \<Rightarrow> string \<Rightarrow> rpc_error" where
  "GetCompiledWorkflow ctx workflowId =
     (case ctx of
        Some err \<Rightarrow> FromContextError err
      | None \<Rightarrow>
          if workflowId = '''' then (InvalidArgument, Msg ''workflow_id must not be empty'')
          else (NotFound, Sprintf ''workflow %q not found: compiler is stateless - retain ir_payload from CompileWorkflow response'' [FS workflowId]))"

section \<open>The policy gate decides by the last policy of the namespace\<close>

lemma map_of_NewPolicyGate:
  "map_of (NewPolicyGate ps) ns = (if ns = '''' then None else find (\<lambda>p. rp_Namespace p = ns) (rev ps))"
  by (induction ps rule: rev_induct) (auto simp: NewPolicyGate_def)

definition policy_allows :: "RoutingPolicyConfig list \<Rightarrow> string \<Rightarrow> string \<Rightarrow> bool" where
  "policy_allows ps ns hint \<longleftrightarrow>
     (case find (\<lambda>p. rp_Namespace p = ns) (rev ps) of
        None \<Rightarrow> True
      | Some p \<Rightarrow> ns = '''' \<or> rp_AllowedEngines p = [] \<or> hint = '''' \<or> hint \<in> set (rp_AllowedEngines p))"

text \<open>The policy gate lets a workflow pass exactly when the last policy given for its namespace
  (if any) has an empty allow-list, the manifest has no engine hint, or the hint is in
  the allow-list.\<close>

theorem PolicyGate_Check_iff:
  "PolicyGate_Check (NewPolicyGate ps) g annotations = None \<longleftrightarrow>
     policy_allows ps (g_Namespace g) (gm_get '''' annotations AnnotationEngineHint)"
  by (auto simp: PolicyGate_Check_def checkRoutingPolicy_def map_of_NewPolicyGate policy_allows_def
      gm_get_def list_ex_iff split: option.splits)

section \<open>What a compiled workflow satisfies\<close>

definition ir_ids :: "WorkflowIR \<Rightarrow> string list" where
  "ir_ids w = map si_Id (ir_States w)"

definition ir_edges :: "WorkflowIR \<Rightarrow> (string \<times> string) set" where
  "ir_edges w = {(si_Id s, ti_TargetState t) | s t. s \<in> set (ir_States w) \<and> t \<in> set (si_Transitions s)}"

definition ir_terminals :: "WorkflowIR \<Rightarrow> string set" where
  "ir_terminals w = {si_Id s | s. s \<in> set (ir_States w) \<and> si_Type s = STATE_TYPE_TERMINAL}"

definition ir_closed :: "WorkflowIR \<Rightarrow> bool" where
  "ir_closed w \<longleftrightarrow> distinct (ir_ids w) \<and> ir_InitialState w \<in> set (ir_ids w) \<and>
     (\<forall>(x, y) \<in> ir_edges w. y \<in> set (ir_ids w)) \<and>
     (\<forall>s \<in> set (ir_States w). si_Type s \<noteq> STATE_TYPE_UNSPECIFIED)"

definition ir_live :: "WorkflowIR \<Rightarrow> bool" where
  "ir_live w \<longleftrightarrow> ir_terminals w \<noteq> {} \<and>
     (\<forall>x \<in> set (ir_ids w). (ir_InitialState w, x) \<in> (ir_edges w)\<^sup>*) \<and>
     (\<forall>x. (x, x) \<in> (ir_edges w)\<^sup>+ \<longrightarrow> (\<exists>t \<in> ir_terminals w. (x, t) \<in> (ir_edges w)\<^sup>*))"

lemma convertStateType_iff [simp]:
  "convertStateType t = STATE_TYPE_TERMINAL \<longleftrightarrow> t = StateTypeTerminal"
  "convertStateType t \<noteq> STATE_TYPE_UNSPECIFIED"
  by (cases t; simp)+

lemma convert_state_shape:
  assumes "convert_state i st = Inr s"
  shows "si_Id s = i" "si_Type s = convertStateType (st_Type st)"
    "ti_TargetState ` set (si_Transitions s) = set (state_targets st)"
  using assms by (auto simp: convert_state_def convertTransitions_def state_targets_def image_image split: sum.splits)

lemma ToIR_states:
  assumes "ToIR (Some g) wid api at now = Inr w" "gm_ok (g_States g)"
  shows "ir_ids w = sort_Strings (map fst (g_States g))" "ir_InitialState w = g_InitialState g"
    "ir_edges w = set (edges g)" "ir_terminals w = set (terminals g)"
    "\<forall>s \<in> set (ir_States w). si_Type s \<noteq> STATE_TYPE_UNSPECIFIED"
proof -
  have c: "convertStates (g_States g) = Inr (ir_States w)" and i: "ir_InitialState w = g_InitialState g"
    using assms(1) by (auto simp: ToIR_def split: if_splits sum.splits)
  show ids: "ir_ids w = sort_Strings (map fst (g_States g))"
    using convertStates_ids[OF c] by (simp add: ir_ids_def)
  show "ir_InitialState w = g_InitialState g" by (rule i)
  note from_ir = convertStates_in[OF c assms(2)]
  have to_ir: "\<exists>s \<in> set (ir_States w). convert_state x st = Inr s" if m: "(x, st) \<in> set (g_States g)" for x st
  proof -
    have "x \<in> set (ir_ids w)" using m ids by force
    then obtain s where s: "s \<in> set (ir_States w)" "si_Id s = x" by (auto simp: ir_ids_def)
    with from_ir[of s] obtain st' where "(x, st') \<in> set (g_States g)" "convert_state x st' = Inr s" by auto
    with m s assms(2) show ?thesis by (metis gm_ok_in_set option.inject)
  qed
  show "ir_edges w = set (edges g)"
  proof (intro set_eqI iffI; clarify)
    fix x y assume "(x, y) \<in> ir_edges w"
    then obtain s t where "s \<in> set (ir_States w)" "t \<in> set (si_Transitions s)" "x = si_Id s" "y = ti_TargetState t"
      by (auto simp: ir_edges_def)
    with from_ir[of s] convert_state_shape(3) show "(x, y) \<in> set (edges g)" by (fastforce simp: set_edges)
  next
    fix x y assume "(x, y) \<in> set (edges g)"
    then obtain st where st: "(x, st) \<in> set (g_States g)" "y \<in> set (state_targets st)" by (auto simp: set_edges)
    from to_ir[OF st(1)] obtain s where s: "s \<in> set (ir_States w)" "convert_state x st = Inr s" by blast
    with st convert_state_shape[OF s(2)] show "(x, y) \<in> ir_edges w" by (fastforce simp: ir_edges_def)
  qed
  show "ir_terminals w = set (terminals g)"
  proof (intro set_eqI iffI)
    fix x assume "x \<in> ir_terminals w"
    then obtain s where s: "s \<in> set (ir_States w)" "x = si_Id s" "si_Type s = STATE_TYPE_TERMINAL"
      by (auto simp: ir_terminals_def)
    with from_ir[of s] obtain st where st: "(x, st) \<in> set (g_States g)" "convert_state x st = Inr s" by auto
    with s convert_state_shape(2)[OF st(2)] show "x \<in> set (terminals g)" by (force simp: terminals_def)
  next
    fix x assume "x \<in> set (terminals g)"
    then obtain st where st: "(x, st) \<in> set (g_States g)" "st_Type st = StateTypeTerminal"
      by (auto simp: terminals_def)
    from to_ir[OF st(1)] obtain s where s: "s \<in> set (ir_States w)" "convert_state x st = Inr s" by blast
    with st convert_state_shape[OF s(2)] show "x \<in> ir_terminals w" by (auto simp: ir_terminals_def)
  qed

  show "\<forall>s \<in> set (ir_States w). si_Type s \<noteq> STATE_TYPE_UNSPECIFIED"
    using from_ir convert_state_shape(2) by fastforce
qed

lemma ParseManifest_namespace: "ParseManifest yaml d = Inr m \<Longrightarrow> mf_Namespace m \<noteq> ''''"
  by (auto simp: ParseManifest_def Let_def defaultNamespace_def split: sum.splits if_splits)

text \<open>The namespace of a compile request has no effect: the parser has already replaced an
  empty namespace by the default one.\<close>

theorem CompileWorkflow_ignores_namespace:
  "CompileWorkflow yaml pg env (req\<lparr>cq_Namespace := ns\<rparr>) = CompileWorkflow yaml pg env req"
proof (cases "ParseManifest yaml (cq_ManifestYaml req)")
  case (Inr m)
  with ParseManifest_namespace[OF Inr] show ?thesis
    by (cases "env_ctx env") (simp_all add: CompileWorkflow_def)
qed (cases "env_ctx env"; simp add: CompileWorkflow_def)

lemma CompileWorkflow_ir:
  assumes "CompileWorkflow yaml pg env req = Inr r" "cr_WorkflowIr r = Some w"
  shows "\<exists>m g. ParseManifest yaml (cq_ManifestYaml req) = Inr m \<and> Build m = Inr g \<and>
     Run_validators g All_validators = [] \<and>
     ToIR (Some g) (env_id env) (mf_APIVersion m) (Some (env_now env)) (env_now env) = Inr w"
  using assms ParseManifest_namespace[of yaml "cq_ManifestYaml req"]
  by (auto simp: CompileWorkflow_def compile_errors_def Let_def
      split: option.splits sum.splits if_splits message.splits)

lemma Run_All_Nil:
  assumes "Run_validators g All_validators = []"
  shows "TerminalStateValidator g = []" "OrphanStateValidator g = []" "CircularTransitionDetector g = []"
    "DuplicateTransitionValidator g = []" "CapabilityRefValidator g = []" "EventNameValidator g = []"
    "NamespaceValidator g = []" "TransitionSetValidator g = []" "CrossNamespaceCapabilityValidator g = []"
  using assms by (simp_all add: Run_validators_def All_validators_def)

lemma Build_states_closed:
  assumes "Build m = Inr g" "gm_ok (mf_States m)"
  shows "gm_ok (g_States g)" "g_InitialState g \<in> fst ` set (g_States g)" "terminals g \<noteq> []"
    "(x, y) \<in> set (edges g) \<Longrightarrow> y \<in> fst ` set (g_States g)"
proof -
  have v: "manifest_valid m" and g: "g_States g = mf_States m" "g_InitialState g = mf_InitialState m"
    using assms build_errors_Nil[OF assms(2)] by (auto simp: Build_Inr)
  show "gm_ok (g_States g)" using assms g by simp
  show "g_InitialState g \<in> fst ` set (g_States g)" using v g by (simp add: manifest_valid_def gm_has_iff)
  show "terminals g \<noteq> []" using v g by (auto simp: manifest_valid_def terminals_def filter_empty_conv)
  show "y \<in> fst ` set (g_States g)" if "(x, y) \<in> set (edges g)"
    using that v g by (auto simp: manifest_valid_def states_closed_def set_edges state_targets_def gm_has_iff)
qed

lemma compiled_closed_live:
  assumes "CompileWorkflow yaml pg env req = Inr r" "cr_WorkflowIr r = Some w"
    and "\<And>root raw. yaml_Decode yaml root = Inr raw \<Longrightarrow> gm_ok (ysp_States (yf_Spec raw))"
  shows "ir_closed w \<and> ir_live w"
proof -
  obtain m g where m: "ParseManifest yaml (cq_ManifestYaml req) = Inr m" and b: "Build m = Inr g"
    and v: "Run_validators g All_validators = []"
    and w: "ToIR (Some g) (env_id env) (mf_APIVersion m) (Some (env_now env)) (env_now env) = Inr w"
    using CompileWorkflow_ir[OF assms(1,2)] by blast
  have ok: "gm_ok (mf_States m)" using ParseManifest_states_ok[OF m assms(3)] by simp
  note g = Build_states_closed[OF b ok]
  note ir = ToIR_states[OF w g(1)]
  have "ir_closed w"
    using g ir by (auto simp: ir_closed_def gm_ok_def)
  moreover have "ir_live w"
    using g(3) ir Run_All_Nil(2,3)[OF v]
    by (auto simp: ir_live_def OrphanStateValidator_Nil CircularTransitionDetector_Nil
        on_cycle_def can_finish_def)
  ultimately show ?thesis by blast
qed

text \<open>C1 A workflow that \<^verbatim>\<open>CompileWorkflow\<close> returns is closed and live: its state IDs are distinct,
  the initial state and every transition target is one of them and no state has an
  unspecified type; it has a terminal state, every state can be reached from the
  initial one, and every state on a cycle can reach a terminal state.\<close>

theorem CompileWorkflow_sound:
  assumes "CompileWorkflow yaml pg env req = Inr r" "cr_WorkflowIr r = Some w"
    and "\<And>root raw. yaml_Decode yaml root = Inr raw \<Longrightarrow> gm_ok (ysp_States (yf_Spec raw))"
  shows "ir_closed w \<and> ir_live w"
  using compiled_closed_live [OF assms(1,2)] assms(3) by blast

text \<open>C8 \<^verbatim>\<open>ValidateManifest\<close> agrees with \<^verbatim>\<open>CompileWorkflow\<close> without a policy gate: a manifest reported
  valid never makes compilation return errors, and for an invalid one compilation
  returns exactly the errors of the validation.\<close>

theorem ValidateManifest_agrees:
  assumes "env_ctx env = None" "ValidateManifest yaml None (cq_ManifestYaml req) = Inr v"
  shows "if vr_Valid v
     then \<forall>r. CompileWorkflow yaml None env req = Inr r \<longrightarrow> cr_Errors r = [] \<and> cr_WorkflowIr r \<noteq> None
     else CompileWorkflow yaml None env req =
            Inr \<lparr>cr_WorkflowIr = None, cr_Errors = vr_Errors v, cr_CompilationDurationMs = 0\<rparr>"
proof (cases "ParseManifest yaml (cq_ManifestYaml req)")
  case (Inl e)
  then show ?thesis using assms by (auto simp: CompileWorkflow_def ValidateManifest_def compile_errors_def split: if_splits)
next
  case (Inr m)
  note n = ParseManifest_namespace[OF Inr]
  have y: "cq_ManifestYaml req \<noteq> ''''" using assms by (auto simp: ValidateManifest_def)
  show ?thesis
  proof (cases "Build m")
    case (Inl e)
    then have "e \<noteq> []" by (auto simp: Build_def Let_def split: if_splits)
    with Inl Inr n y assms show ?thesis
      by (auto simp: CompileWorkflow_def ValidateManifest_def compile_errors_def)
  next
    case (Inr g)
    with \<open>ParseManifest _ _ = Inr m\<close> n y assms show ?thesis
      by (auto simp: CompileWorkflow_def ValidateManifest_def compile_errors_def Let_def
          split: if_splits sum.splits message.splits)
  qed
qed

end
