(* ===== verification/Compiler_Example.thy ===== *)
theory Compiler_Example
  imports Compiler_Server
begin

text \<open>
  A small workflow run through the compiler by evaluation, with the instances of the
  compiler's properties at it: one working state that retries itself on failure, a
  second state that is terminal and publishes the first one's output.
\<close>

definition ex_raw :: yamlManifest where
  "ex_raw = \<lparr>yf_Kind = ''Workflow'', yf_APIVersion = ''zynax.io/v1'',
     yf_Metadata = \<lparr>ym_Name = ''demo'', ym_Namespace = '''', ym_Labels = [], ym_Annotations = []\<rparr>,
     yf_Spec = \<lparr>ysp_InitialState = ''work'',
       ysp_States = [(''work'', \<lparr>ys_Type = '''',
            ys_Actions = [\<lparr>ya_Capability = ''summarize'', ya_Timeout = '''',
               ya_Input = [(''text'', VString ''hi'')], ya_Output = [(''summary'', VString ''result'')], ya_Async = False\<rparr>],
            ys_On = [\<lparr>yt_Event = ''summarize.completed'', yt_Goto = ''done'', yt_Guard = '''', yt_Set = []\<rparr>,
                     \<lparr>yt_Event = ''summarize.failed'', yt_Goto = ''work'', yt_Guard = '''', yt_Set = []\<rparr>],
            ys_Outputs = []\<rparr>),
          (''done'', \<lparr>ys_Type = ''terminal'', ys_Actions = [], ys_On = [],
            ys_Outputs = [(''summary'', VString ''$.states.work.output.summary'')]\<rparr>)]\<rparr>\<rparr>"

definition ex_root :: yaml_node where
  "ex_root = YNode DocumentNode [] 1 []"

definition ex_yaml :: yaml_lib where
  "ex_yaml = \<lparr>yaml_Unmarshal = (\<lambda>_. Inr ex_root), yaml_Decode = (\<lambda>_. Inr ex_raw)\<rparr>"

definition ex_env :: compile_env where
  "ex_env = \<lparr>env_ctx = None, env_id = ''wf-1'', env_now = 7, env_durationMs = 0\<rparr>"

definition ex_req :: CompileWorkflowRequest where
  "ex_req = \<lparr>cq_ManifestYaml = ''kind: Workflow'', cq_Namespace = ''''\<rparr>"

definition ex_manifest :: Manifest where
  "ex_manifest = (case ParseManifest ex_yaml ''kind: Workflow'' of Inr m \<Rightarrow> m)"

definition ex_graph :: WorkflowGraph where
  "ex_graph = (case Build ex_manifest of Inr g \<Rightarrow> g)"

definition ex_response :: CompileWorkflowResponse where
  "ex_response = (case CompileWorkflow ex_yaml None ex_env ex_req of Inr r \<Rightarrow> r)"

definition ex_ir :: WorkflowIR where
  "ex_ir = (case cr_WorkflowIr ex_response of Some w \<Rightarrow> w)"

lemma ex_parse: "ParseManifest ex_yaml ''kind: Workflow'' = Inr ex_manifest"
  unfolding ex_manifest_def by code_simp

lemma ex_build: "Build ex_manifest = Inr ex_graph"
  unfolding ex_graph_def by code_simp

lemma ex_compile: "CompileWorkflow ex_yaml None ex_env ex_req = Inr ex_response"
  unfolding ex_response_def by code_simp

lemma ex_ir: "cr_WorkflowIr ex_response = Some ex_ir"
  unfolding ex_ir_def by code_simp

lemma ex_decode: "yaml_Decode ex_yaml root = Inr raw \<Longrightarrow> gm_ok (ysp_States (yf_Spec raw))"
  by (auto simp: ex_yaml_def ex_raw_def)

theorem ParseManifest_accepts_witness:
  "(\<exists>m. ParseManifest ex_yaml ''kind: Workflow'' = Inr m) \<longleftrightarrow> yaml_manifest_ok ex_raw"
  by (rule ParseManifest_accepts [of _ _ ex_root]) (simp_all add: ex_yaml_def ex_root_def)

theorem ParseManifest_wf_witness: "manifest_wf ex_manifest"
  by (rule ParseManifest_wf [OF ex_parse ex_decode])

lemma ex_states_ok: "gm_ok (mf_States ex_manifest)"
  by (rule ParseManifest_states_ok [OF ex_parse]) (rule ex_decode)

lemma ex_graph_ok: "gm_ok (g_States ex_graph)"
  by (rule Build_states_closed(1) [OF ex_build ex_states_ok])

theorem Build_iff_witness: "manifest_valid ex_manifest"
  using Build_iff [of ex_manifest] ex_build ex_states_ok by blast

theorem Build_order_independent_witness:
  "set (build_errors (ex_manifest\<lparr>mf_States := rev (mf_States ex_manifest)\<rparr>)) = set (build_errors ex_manifest)"
  by (rule Build_order_independent) (use ex_states_ok in \<open>simp_all add: gm_ok_def rev_map [symmetric]\<close>)

theorem capability_validators_sound_witness: "capability_ok (g_Namespace ex_graph) ''summarize''"
proof -
  have "CapabilityRefValidator ex_graph = []" "CrossNamespaceCapabilityValidator ex_graph = []"
    by code_simp+
  moreover have "map_of (g_States ex_graph) ''work'' \<noteq> None"
    "act_Capability (hd (st_Actions (the (map_of (g_States ex_graph) ''work'')))) = ''summarize''"
    "st_Actions (the (map_of (g_States ex_graph) ''work'')) \<noteq> []"
    by code_simp+
  ultimately show ?thesis
    using capability_validators_sound [of ex_graph "''work''" "the (map_of (g_States ex_graph) ''work'')"
        "hd (st_Actions (the (map_of (g_States ex_graph) ''work'')))"]
    by (auto simp: map_of_SomeD)
qed

theorem ToIR_deterministic_witness:
  "ToIR (Some (ex_graph\<lparr>g_States := rev (g_States ex_graph)\<rparr>)) ''wf-1'' ''v1'' None 7 =
   ToIR (Some ex_graph) ''wf-1'' ''v1'' None 7"
  by (rule ToIR_deterministic) (use ex_graph_ok in \<open>simp_all add: gm_ok_def rev_map [symmetric]\<close>)

theorem CompileWorkflow_sound_witness: "ir_closed ex_ir \<and> ir_live ex_ir"
  by (rule CompileWorkflow_sound [OF ex_compile ex_ir]) (rule ex_decode)

theorem ValidateManifest_agrees_witness:
  "\<exists>v. ValidateManifest ex_yaml None ''kind: Workflow'' = Inr v \<and> vr_Valid v \<and> cr_WorkflowIr ex_response \<noteq> None"
proof -
  define v where "v = (case ValidateManifest ex_yaml None ''kind: Workflow'' of Inr v \<Rightarrow> v)"
  have v: "ValidateManifest ex_yaml None (cq_ManifestYaml ex_req) = Inr v" and ok: "vr_Valid v"
    unfolding v_def by code_simp+
  have "env_ctx ex_env = None" by (simp add: ex_env_def)
  from ValidateManifest_agrees [OF this v] ok ex_compile have "cr_WorkflowIr ex_response \<noteq> None" by simp
  with v ok show ?thesis by (auto simp: ex_req_def)
qed

end
