(* ===== verification/Go_Float.thy ===== *)
theory Go_Float
  imports Go_Lib Complex_Main
begin

text \<open>
  The type \<^verbatim>\<open>float64\<close>: IEEE double precision, rounding to nearest with ties to even.  A finite
  value is the rational number it stands for, so the two zeros are one value.  And the
  text of floats: \<^verbatim>\<open>strconv.ParseFloat\<close> and the verb \<^verbatim>\<open>%f\<close>.
\<close>

section \<open>Rounding\<close>

fun bit_count :: "nat \<Rightarrow> nat" where
  "bit_count n = (if n = 0 then 0 else Suc (bit_count (n div 2)))"

declare bit_count.simps [simp del]

definition pow2 :: "int \<Rightarrow> rat" where
  "pow2 k = (if k \<ge> 0 then 2 ^ nat k else 1 / 2 ^ nat (- k))"

text \<open>The exponent of a positive rational: the largest \<open>k\<close> with \<open>2\<^sup>k \<le> q\<close>.\<close>

definition exponent :: "rat \<Rightarrow> int" where
  "exponent q =
     (case quotient_of q of (a, b) \<Rightarrow>
        let k = int (bit_count (nat a)) - int (bit_count (nat b)) in if pow2 k \<le> q then k else k - 1)"

definition round_even :: "rat \<Rightarrow> int" where
  "round_even q =
     (let f = \<lfloor>q\<rfloor>; d = q - of_int f in
      if d < 1 / 2 then f else if d > 1 / 2 then f + 1 else if even f then f else f + 1)"

datatype float64 = FFin rat | FInf bool | FNaN

definition round64 :: "rat \<Rightarrow> float64" where
  "round64 q =
     (if q = 0 then FFin 0
      else let e = max (- 1074) (exponent \<bar>q\<bar> - 52); v = of_int (round_even (q / pow2 e)) * pow2 e in
           if \<bar>v\<bar> \<ge> pow2 1024 then FInf (q < 0) else FFin v)"

section \<open>Operations\<close>

fun f_lt :: "float64 \<Rightarrow> float64 \<Rightarrow> bool" where
  "f_lt (FFin a) (FFin b) = (a < b)"
| "f_lt (FInf n) (FFin _) = n"
| "f_lt (FFin _) (FInf n) = (\<not> n)"
| "f_lt (FInf m) (FInf n) = (m \<and> \<not> n)"
| "f_lt FNaN _ = False"
| "f_lt _ FNaN = False"

fun f_add :: "float64 \<Rightarrow> float64 \<Rightarrow> float64" where
  "f_add (FFin a) (FFin b) = round64 (a + b)"
| "f_add (FInf n) (FFin _) = FInf n"
| "f_add (FFin _) (FInf n) = FInf n"
| "f_add (FInf m) (FInf n) = (if m = n then FInf m else FNaN)"
| "f_add FNaN _ = FNaN"
| "f_add _ FNaN = FNaN"

fun f_mul :: "float64 \<Rightarrow> float64 \<Rightarrow> float64" where
  "f_mul (FFin a) (FFin b) = round64 (a * b)"
| "f_mul (FInf n) (FFin a) = (if a = 0 then FNaN else FInf (n \<noteq> (a < 0)))"
| "f_mul (FFin a) (FInf n) = (if a = 0 then FNaN else FInf (n \<noteq> (a < 0)))"
| "f_mul (FInf m) (FInf n) = FInf (m \<noteq> n)"
| "f_mul FNaN _ = FNaN"
| "f_mul _ FNaN = FNaN"

text \<open>Division by a constant other than zero.\<close>

fun f_div :: "float64 \<Rightarrow> rat \<Rightarrow> float64" where
  "f_div (FFin a) b = round64 (a / b)"
| "f_div (FInf n) b = FInf (n \<noteq> (b < 0))"
| "f_div FNaN b = FNaN"

text \<open>The conversion to \<^verbatim>\<open>int\<close>, as on amd64: a value out of range gives the smallest integer.\<close>

fun f_to_int :: "float64 \<Rightarrow> int" where
  "f_to_int (FFin a) =
     (let i = (if a < 0 then - \<lfloor>- a\<rfloor> else \<lfloor>a\<rfloor>) in if MinInt64 \<le> i \<and> i \<le> MaxInt64 then i else MinInt64)"
| "f_to_int _ = MinInt64"

lemma f_lt_NaN [simp]: "\<not> f_lt x FNaN" "\<not> f_lt FNaN x"
  by (cases x; simp)+

lemma f_lt_irrefl [simp]: "\<not> f_lt x x"
  by (cases x) auto

lemma f_lt_trans: "f_lt x y \<Longrightarrow> f_lt y z \<Longrightarrow> f_lt x z"
  by (cases x; cases y; cases z) auto

lemma f_lt_total: "x \<noteq> FNaN \<Longrightarrow> y \<noteq> FNaN \<Longrightarrow> f_lt x y \<or> x = y \<or> f_lt y x"
  by (cases x; cases y) auto

lemma f_lt_weaken: "f_lt x y \<Longrightarrow> z \<noteq> FNaN \<Longrightarrow> \<not> f_lt z y \<Longrightarrow> f_lt x z"
  by (cases x; cases y; cases z) auto

lemma round64_not_NaN [simp]: "round64 q \<noteq> FNaN"
  by (simp add: round64_def Let_def)

lemma round64_zero [simp]: "round64 0 = FFin 0"
  by (simp add: round64_def)

section \<open>Exactness\<close>

lemma pow2_pos [simp]: "0 < pow2 k"
  by (simp add: pow2_def)

lemma round_even_int [simp]: "round_even (of_int n) = n"
  by (simp add: round_even_def)

lemma bit_count_bounds: "0 < n \<Longrightarrow> 2 ^ (bit_count n - 1) \<le> n \<and> n < 2 ^ bit_count n \<and> 0 < bit_count n"
proof (induction n rule: bit_count.induct)
  case (1 n)
  show ?case
  proof (cases "n div 2 = 0")
    case True
    with 1(2) have "n = 1" by auto
    then show ?thesis by (simp add: bit_count.simps)
  next
    case False
    with 1 have ih: "2 ^ (bit_count (n div 2) - 1) \<le> n div 2" "n div 2 < 2 ^ bit_count (n div 2)" "0 < bit_count (n div 2)"
      by simp_all
    have "bit_count n = Suc (bit_count (n div 2))" using 1(2) by (simp add: bit_count.simps [of n])
    moreover have "2 ^ bit_count (n div 2) = 2 * (2::nat) ^ (bit_count (n div 2) - 1)"
      using ih(3) by (cases "bit_count (n div 2)") simp_all
    moreover have "2 * 2 ^ (bit_count (n div 2) - 1) \<le> n" "n < 2 * 2 ^ bit_count (n div 2)"
      using ih(1,2) by linarith+
    ultimately show ?thesis by simp
  qed
qed

lemma quotient_of_nat: "quotient_of (of_nat n) = (int n, 1)"
  using quotient_of_int [of "int n"] by simp

lemma exponent_nat:
  assumes "0 < n"
  shows "exponent (of_nat n) = int (bit_count n) - 1"
proof -
  have "quotient_of (rat_of_nat n) = (int n, 1)" by (rule quotient_of_nat)
  moreover have "bit_count 1 = 1" by (simp add: bit_count.simps)
  moreover have "pow2 (int (bit_count n) - 1) \<le> of_nat n"
  proof -
    have "pow2 (int (bit_count n) - 1) = 2 ^ (bit_count n - 1)"
      using bit_count_bounds [OF assms] by (simp add: pow2_def nat_diff_distrib)
    then show ?thesis using bit_count_bounds [OF assms] by (metis of_nat_le_iff of_nat_numeral of_nat_power)
  qed
  ultimately show ?thesis by (simp add: exponent_def Let_def)
qed

text \<open>An integer of at most 53 bits is a \<^verbatim>\<open>float64\<close>.\<close>

lemma round64_int:
  assumes "\<bar>i\<bar> < 2 ^ 53"
  shows "round64 (of_int i) = FFin (of_int i)"
proof (cases "i = 0")
  case False
  define n where "n = nat \<bar>i\<bar>"
  have n: "0 < n" "n < 2 ^ 53" "\<bar>rat_of_int i\<bar> = of_nat n" using False assms by (auto simp: n_def)
  have "2 ^ (bit_count n - 1) < (2::nat) ^ 53" using bit_count_bounds [OF n(1)] n(2) by simp
  then have "bit_count n - 1 < 53" by (simp only: power_strict_increasing_iff one_less_numeral_iff semiring_norm)
  then have e: "max (- 1074) (exponent (of_nat n) - 52) = - int (53 - bit_count n)"
    using bit_count_bounds [OF n(1)] by (simp add: exponent_nat [OF n(1)])
  let ?k = "53 - bit_count n"
  have p: "pow2 (- int ?k) = 1 / 2 ^ ?k" by (cases "?k = 0") (simp_all add: pow2_def)
  have "rat_of_int i / (1 / 2 ^ ?k) = of_int (i * 2 ^ ?k)" by simp
  then have r: "round_even (rat_of_int i / pow2 (- int ?k)) = i * 2 ^ ?k" unfolding p by (simp only: round_even_int)
  have "\<bar>rat_of_int i\<bar> < pow2 1024"
  proof -
    have "n < 2 ^ 1024" using n(2) by (rule less_trans) simp
    then have "rat_of_nat n < rat_of_nat (2 ^ 1024)" by (simp only: of_nat_less_iff)
    then show ?thesis by (simp add: pow2_def n(3))
  qed
  then show ?thesis using False by (simp add: round64_def n(3) e r) (simp add: p n(3))
qed simp

section \<open>Text\<close>

text \<open>\<^verbatim>\<open>strconv.ParseFloat\<close>: the value, and whether the error is nil.  A syntax error gives zero, a
  value out of range an infinity.\<close>

definition is_hex_letter :: "char \<Rightarrow> bool" where
  "is_hex_letter c \<longleftrightarrow> lower_char c \<in> set ''abcdef''"

definition hex_digit_val :: "char \<Rightarrow> nat" where
  "hex_digit_val c = (if is_digit c then digit_val c else of_char (lower_char c) - 87)"

text \<open>The mantissa: its digits, how many of them follow the point, and the rest of the text.\<close>

fun read_mantissa :: "bool \<Rightarrow> bool \<Rightarrow> string \<Rightarrow> string \<times> nat \<times> string" where
  "read_mantissa hex dot [] = ([], 0, [])"
| "read_mantissa hex dot (c # cs) =
     (if c = CHR ''_'' then read_mantissa hex dot cs
      else if c = CHR ''.'' then (if dot then ([], 0, c # cs) else read_mantissa hex True cs)
      else if is_digit c \<or> hex \<and> is_hex_letter c
        then (case read_mantissa hex dot cs of (ds, k, r) \<Rightarrow> (c # ds, if dot then Suc k else k, r))
      else ([], 0, c # cs))"

text \<open>The digits of an exponent, which stop counting at five digits.\<close>

definition exponent_val :: "string \<Rightarrow> int" where
  "exponent_val ds = foldl (\<lambda>e c. if e < 10000 then e * 10 + int (digit_val c) else e) 0 (filter is_digit ds)"

definition read_exponent :: "bool \<Rightarrow> string \<Rightarrow> int option" where
  "read_exponent hex r =
     (case r of
        [] \<Rightarrow> if hex then None else Some 0
      | c # cs \<Rightarrow>
          if lower_char c \<noteq> (if hex then CHR ''p'' else CHR ''e'') then None
          else let neg = (cs \<noteq> [] \<and> hd cs = CHR ''-'');
                   ds = (if cs \<noteq> [] \<and> (hd cs = CHR ''+'' \<or> hd cs = CHR ''-'') then tl cs else cs)
               in if ds = [] \<or> \<not> is_digit (hd ds) \<or> \<not> list_all (\<lambda>c. is_digit c \<or> c = CHR ''_'') ds then None
                  else Some (if neg then - exponent_val ds else exponent_val ds))"

text \<open>Underscores separate digits; \<open>prev\<close> is the class of the character before.\<close>

fun underscores_ok :: "bool \<Rightarrow> char \<Rightarrow> string \<Rightarrow> bool" where
  "underscores_ok hex prev [] = (prev \<noteq> CHR ''_'')"
| "underscores_ok hex prev (c # cs) =
     (if is_digit c \<or> hex \<and> is_hex_letter c then underscores_ok hex (CHR ''0'') cs
      else if c = CHR ''_'' then prev = CHR ''0'' \<and> underscores_ok hex (CHR ''_'') cs
      else prev \<noteq> CHR ''_'' \<and> underscores_ok hex (CHR ''!'') cs)"

definition pow10 :: "int \<Rightarrow> rat" where
  "pow10 k = (if k \<ge> 0 then 10 ^ nat k else 1 / 10 ^ nat (- k))"

definition ParseFloat :: "string \<Rightarrow> float64 \<times> bool" where
  "ParseFloat s =
     (let neg = (s \<noteq> [] \<and> hd s = CHR ''-'');
          u = (if s \<noteq> [] \<and> (hd s = CHR ''+'' \<or> hd s = CHR ''-'') then tl s else s);
          hex = (length u > 2 \<and> hd u = CHR ''0'' \<and> lower_char (u ! 1) = CHR ''x'');
          body = (if hex then drop 2 u else u)
      in if EqualFold u ''inf'' \<or> EqualFold u ''infinity'' then (FInf neg, True)
         else if EqualFold s ''nan'' then (FNaN, True)
         else case read_mantissa hex False body of
             (ds, k, r) \<Rightarrow>
               if ds = [] then (FFin 0, False)
               else (case read_exponent hex r of
                       None \<Rightarrow> (FFin 0, False)
                     | Some e \<Rightarrow>
                         if \<not> underscores_ok hex (if hex then CHR ''0'' else CHR ''!'') body then (FFin 0, False)
                         else let q = (if hex then of_nat (foldl (\<lambda>a c. 16 * a + hex_digit_val c) 0 ds) * pow2 (e - 4 * int k)
                                       else of_nat (digits_val ds) * pow10 (e - int k))
                              in (case round64 (if neg then - q else q) of
                                    FFin v \<Rightarrow> (FFin v, True)
                                  | f \<Rightarrow> (f, False))))"

text \<open>The verb \<^verbatim>\<open>%f\<close> on a finite value, given its sign and magnitude: six digits after the point,
  a tie rounded to even.\<close>

definition pad_digits :: "nat \<Rightarrow> string \<Rightarrow> string" where
  "pad_digits n s = replicate (n - length s) (CHR ''0'') @ s"

definition Sprintf_f :: "bool \<Rightarrow> rat \<Rightarrow> string" where
  "Sprintf_f neg v =
     (let ds = pad_digits 7 (show_nat (nat (round_even (v * 1000000))))
      in (if neg then ''-'' else '''') @ take (length ds - 6) ds @ ''.'' @ drop (length ds - 6) ds)"

lemma read_mantissa_digits: "list_all is_digit ds \<Longrightarrow> read_mantissa hex dot ds = (ds, if dot then length ds else 0, [])"
  by (induction ds) (auto simp: is_digit_def)

lemma underscores_ok_digits: "list_all is_digit ds \<Longrightarrow> p \<noteq> CHR ''_'' \<Longrightarrow> underscores_ok hex p ds"
  by (induction ds arbitrary: p) auto

lemma pow10_0 [simp]: "pow10 0 = 1"
  by (simp add: pow10_def)

lemma lower_char_digit: "is_digit d \<Longrightarrow> lower_char d = d"
  by (auto simp: lower_char_def is_digit_def is_upper_def)

lemma ParseFloat_digits:
  assumes u: "list_all is_digit u" "u \<noteq> []" and s: "s = (if neg then CHR ''-'' # u else u)"
  shows "ParseFloat s =
    (case round64 (if neg then - of_nat (digits_val u) else of_nat (digits_val u)) of FFin v \<Rightarrow> (FFin v, True) | f \<Rightarrow> (f, False))"
proof -
  obtain c cs where c: "u = c # cs" "is_digit c" using u by (cases u) auto
  have other: "\<not> is_digit (CHR ''i'')" "\<not> is_digit (CHR ''n'')" "\<not> is_digit (CHR ''x'')" "\<not> is_digit (CHR ''-'')" "\<not> is_digit (CHR ''+'')"
    by (simp_all add: is_digit_def)
  have low: "lower_char (CHR ''i'') = CHR ''i''" "lower_char (CHR ''n'') = CHR ''n''" "lower_char (CHR ''-'') = CHR ''-''"
    by (simp_all add: lower_char_def is_upper_def)
  have sign: "c \<noteq> CHR ''-''" "c \<noteq> CHR ''+''" "c \<noteq> CHR ''i''" "c \<noteq> CHR ''n''" using c(2) other by auto
  have words: "\<not> EqualFold u ''inf''" "\<not> EqualFold u ''infinity''" "\<not> EqualFold s ''nan''"
    using c(1,2) sign low by (simp_all add: s EqualFold_def ToLower_def lower_char_digit)
  have hex: "\<not> (2 < length u \<and> hd u = CHR ''0'' \<and> lower_char (u ! 1) = CHR ''x'')"
  proof
    assume x: "2 < length u \<and> hd u = CHR ''0'' \<and> lower_char (u ! 1) = CHR ''x''"
    with u(1) have "is_digit (u ! 1)" by (simp add: list_all_length)
    with x other show False by (simp add: lower_char_digit)
  qed
  then have hex': "(2 < length u \<and> hd u = CHR ''0'' \<and> lower_char (u ! 1) = CHR ''x'') = False" by blast
  have hd: "(s \<noteq> [] \<and> hd s = CHR ''-'') = neg" "(if s \<noteq> [] \<and> (hd s = CHR ''+'' \<or> hd s = CHR ''-'') then tl s else s) = u"
    using sign by (auto simp: s c(1))
  show ?thesis
    unfolding ParseFloat_def Let_def hd hex' if_False using words u
    by (simp add: read_mantissa_digits underscores_ok_digits read_exponent_def)
qed

lemma digit_char_0: "digit_char 0 = CHR ''0''"
  by code_simp

lemma show_nat_10: "0 < m \<Longrightarrow> show_nat (10 * m) = show_nat m @ ''0''"
  by (subst show_nat.simps) (simp add: digit_char_0)

lemma Sprintf_f_nat: "Sprintf_f neg (of_nat n) = (if neg then ''-'' else '''') @ show_nat n @ ''.000000''"
proof -
  have "round_even (rat_of_nat n * 1000000) = int n * 1000000"
    using round_even_int [of "int n * 1000000"] by simp
  moreover have "pad_digits 7 (show_nat (n * 1000000)) = show_nat n @ ''000000''"
  proof (cases "n = 0")
    case False
    have "n * 1000000 = 10 * (10 * (10 * (10 * (10 * (10 * n)))))" by simp
    then have "show_nat (n * 1000000) = show_nat n @ ''000000''" using False by (simp only: show_nat_10 mult_pos_pos) (simp add: show_nat_10)
    moreover have "Suc 0 \<le> length (show_nat n)" by (simp add: Suc_le_eq)
    ultimately show ?thesis by (simp add: pad_digits_def del: length_greater_0_conv)
  next
    case True
    have "replicate 6 (CHR ''0'') = ''000000''" by (simp add: numeral_eq_Suc)
    then show ?thesis using True by (simp add: pad_digits_def show_nat.simps digit_char_0)
  qed
  ultimately show ?thesis by (simp add: Sprintf_f_def nat_mult_distrib)
qed

end
