(* ===== verification/Engine_Data.thy ===== *)
theory Engine_Data
  imports Compiler_Graph Go_Json Go_Float
begin

text \<open>
  The run-scoped data context of the engine adapter
  (\<^verbatim>\<open>services/engine-adapter/internal/domain/datacontext.go\<close>) and the bounds on captured
  outputs (\<^verbatim>\<open>outputs.go\<close>).
\<close>

section \<open>Scopes and errors\<close>

definition dataRefPrefix :: string where
  "dataRefPrefix = ''$.''"

record DataContextScope =
  sc_RunID :: string
  sc_Namespace :: string

definition scope_equals :: "DataContextScope \<Rightarrow> DataContextScope \<Rightarrow> bool" where
  "scope_equals s other \<longleftrightarrow> sc_RunID s = sc_RunID other \<and> sc_Namespace s = sc_Namespace other"

text \<open>The typed errors of the engine domain.\<close>

datatype engine_err =
    ScopeError DataContextScope DataContextScope string
  | DataReferenceError string string message
  | OutputSizeError string nat nat

type_synonym eng_error = "engine_err go_error"

record WorkflowDataContext =
  dc_scope :: DataContextScope
  dc_store :: "(string, string) gomap"

definition NewScopedWorkflowDataContext :: "DataContextScope \<Rightarrow> WorkflowDataContext" where
  "NewScopedWorkflowDataContext scope = \<lparr>dc_scope = scope, dc_store = []\<rparr>"

definition assertScope :: "WorkflowDataContext \<Rightarrow> DataContextScope \<Rightarrow> string \<Rightarrow> eng_error option" where
  "assertScope c requester op =
     (if \<not> scope_equals (dc_scope c) requester then Some (Typed (ScopeError (dc_scope c) requester op)) else None)"

section \<open>Scalars\<close>

text \<open>Decoding a JSON number gives a \<^verbatim>\<open>float64\<close>, or an error when its magnitude is out of range; the
  text of the scalar is that of the verb \<^verbatim>\<open>%f\<close>.\<close>

definition float64_ok :: "string \<Rightarrow> bool" where
  "float64_ok t = snd (ParseFloat t)"

definition literal_value :: "string \<Rightarrow> rat option" where
  "literal_value t = (case ParseFloat t of (FFin v, True) \<Rightarrow> Some v | _ \<Rightarrow> None)"

fun scalarString :: "json \<Rightarrow> message + string" where
  "scalarString (JStr s) = Inr s"
| "scalarString (JBool b) = Inr (if b then ''true'' else ''false'')"
| "scalarString (JNum t) =
     (case literal_value t of
        Some v \<Rightarrow> Inr (TrimSuffix (TrimRightChar (CHR ''0'') (Sprintf_f (HasPrefix t ''-'') \<bar>v\<bar>)) ''.'')
      | None \<Rightarrow> Inl (Msg ''type mismatch: undecodable value''))"
| "scalarString JNull = Inl (Sprintf ''type mismatch: expected scalar, got %T'' [FS ''<nil>''])"
| "scalarString (JArr _) = Inl (Sprintf ''type mismatch: expected scalar, got %T'' [FS ''[]interface {}''])"
| "scalarString (JObj _) = Inl (Sprintf ''type mismatch: expected scalar, got %T'' [FS ''map[string]interface {}''])"

fun extract_path :: "string \<Rightarrow> string list \<Rightarrow> (string, json) gomap \<Rightarrow> message + string" where
  "extract_path sourcePath [] cur = Inl (Sprintf ''source path %q not found in output payload'' [FS sourcePath])"
| "extract_path sourcePath (seg # segs) cur =
     (case map_of cur seg of
        None \<Rightarrow> Inl (Sprintf ''source path %q not found in output payload'' [FS sourcePath])
      | Some raw \<Rightarrow>
          if segs = [] then scalarString raw
          else (case raw of
                  JObj next \<Rightarrow> extract_path sourcePath segs next
                | JNull \<Rightarrow> extract_path sourcePath segs []
                | _ \<Rightarrow> Inl (Sprintf ''source path %q traverses a non-object at %q'' [FS sourcePath, FS seg])))"

definition extractScalar :: "(string, json) gomap \<Rightarrow> string \<Rightarrow> message + string" where
  "extractScalar doc sourcePath =
     (if sourcePath = '''' then Inl (Msg ''empty source path'')
      else extract_path sourcePath (Split (CHR ''.'') sourcePath) doc)"

section \<open>Reading and writing the context\<close>

definition outputKey :: "string \<Rightarrow> string \<Rightarrow> string" where
  "outputKey stateID key = ''states.'' @ stateID @ ''.output.'' @ key"

definition canonicalRefKey :: "string \<Rightarrow> message + string" where
  "canonicalRefKey ref =
     (let path = TrimPrefix ref dataRefPrefix; parts = Split (CHR ''.'') path in
      if length parts \<noteq> 4 \<or> parts ! 0 \<noteq> ''states'' \<or> parts ! 2 \<noteq> ''output'' \<or>
         parts ! 1 = '''' \<or> parts ! 3 = ''''
      then Inl (Sprintf ''malformed reference; expected %sstates.<state>.output.<key>'' [FS dataRefPrefix])
      else Inr path)"

text \<open>The loop over the bindings: it stops at the first value that cannot be extracted, with
  what it has stored so far.\<close>

fun write_loop ::
  "string \<Rightarrow> (string, json) gomap \<Rightarrow> (string, string) gomap \<Rightarrow> (string, string) gomap
   \<Rightarrow> eng_error option \<times> (string, string) gomap" where
  "write_loop stateID doc [] store = (None, store)"
| "write_loop stateID doc ((key, sourcePath) # bs) store =
     (case extractScalar doc sourcePath of
        Inl reason \<Rightarrow> (Some (Typed (DataReferenceError key sourcePath reason)), store)
      | Inr val \<Rightarrow> write_loop stateID doc bs (gm_put (outputKey stateID key) val store))"

definition output_doc :: "string \<Rightarrow> (string, json) gomap option" where
  "output_doc payload = (if payload = '''' then Some [] else Unmarshal_map payload)"

definition WriteOutputs ::
  "WorkflowDataContext \<Rightarrow> DataContextScope \<Rightarrow> string \<Rightarrow> (string, string) gomap \<Rightarrow> string
   \<Rightarrow> eng_error option \<times> WorkflowDataContext" where
  "WriteOutputs c requester stateID bindings payload =
     (case assertScope c requester ''write'' of
        Some err \<Rightarrow> (Some err, c)
      | None \<Rightarrow>
          if bindings = [] then (None, c)
          else case output_doc payload of
              None \<Rightarrow> (Some (Typed (DataReferenceError stateID payload
                        (Msg ''output payload is not a JSON object: %v''))), c)
            | Some doc \<Rightarrow>
                (case write_loop stateID doc bindings (dc_store c) of
                   (err, store) \<Rightarrow> (err, c\<lparr>dc_store := store\<rparr>)))"

fun resolve_loop ::
  "(string, string) gomap \<Rightarrow> (string, string) gomap \<Rightarrow> (string, string) gomap \<Rightarrow> eng_error + (string, string) gomap" where
  "resolve_loop store [] resolved = Inr resolved"
| "resolve_loop store ((inputKey, ref) # bs) resolved =
     (if \<not> HasPrefix ref dataRefPrefix then resolve_loop store bs (gm_put inputKey ref resolved)
      else case canonicalRefKey ref of
          Inl reason \<Rightarrow> Inl (Typed (DataReferenceError inputKey ref reason))
        | Inr key \<Rightarrow>
            (case map_of store key of
               None \<Rightarrow> Inl (Typed (DataReferenceError inputKey ref (Msg ''not found in workflow data context'')))
             | Some val \<Rightarrow> resolve_loop store bs (gm_put inputKey val resolved)))"

definition ResolveInputs ::
  "WorkflowDataContext \<Rightarrow> DataContextScope \<Rightarrow> (string, string) gomap \<Rightarrow> eng_error + (string, string) gomap" where
  "ResolveInputs c requester bindings =
     (case assertScope c requester ''read'' of
        Some err \<Rightarrow> Inl err
      | None \<Rightarrow> if bindings = [] then Inr [] else resolve_loop (dc_store c) bindings [])"

definition mergeInputs :: "(string, string) gomap \<Rightarrow> (string, string) gomap \<Rightarrow> (string, string) gomap" where
  "mergeInputs base inputs =
     (if inputs = [] then base
      else foldl (\<lambda>m (k, v). gm_put k v m) (foldl (\<lambda>m (k, v). gm_put k v m) [] base) inputs)"

section \<open>Output bounds\<close>

definition MaxOutputValueBytes :: nat where
  "MaxOutputValueBytes = 64 * 1024"

definition MaxOutputsTotalBytes :: nat where
  "MaxOutputsTotalBytes = 256 * 1024"

fun bounds_loop :: "(string, string) gomap \<Rightarrow> nat \<Rightarrow> eng_error option" where
  "bounds_loop [] tot =
     (if tot > MaxOutputsTotalBytes then Some (Typed (OutputSizeError '''' tot MaxOutputsTotalBytes)) else None)"
| "bounds_loop ((k, v) # outputs) tot =
     (if length v > MaxOutputValueBytes then Some (Typed (OutputSizeError k (length v) MaxOutputValueBytes))
      else bounds_loop outputs (tot + (length k + length v)))"

definition enforceOutputBounds :: "(string, string) gomap \<Rightarrow> eng_error option" where
  "enforceOutputBounds outputs = bounds_loop outputs 0"

section \<open>References\<close>

lemma length_Split: "length (Split c s) = Suc (length (filter (\<lambda>x. x = c) s))"
proof (induction s)
  case (Cons x s)
  then show ?case by (cases "Split c s") auto
qed simp

lemma TrimPrefix_data_ref [simp]: "TrimPrefix (data_ref s k) dataRefPrefix = outputKey s k"
  by (simp add: TrimPrefix_def data_ref_def dataRefPrefix_def outputKey_def HasPrefix_def)

lemma Split_outputKey:
  "Split (CHR ''.'') (outputKey s k) = ''states'' # Split (CHR ''.'') s @ ''output'' # Split (CHR ''.'') k"
proof -
  have e: "outputKey s k = ''states'' @ CHR ''.'' # (s @ CHR ''.'' # (''output'' @ CHR ''.'' # k))"
    by (simp add: outputKey_def)
  show ?thesis unfolding e Split_append by simp
qed

lemma canonicalRefKey_data_ref:
  assumes "s \<noteq> ''''" "k \<noteq> ''''"
  shows "(\<exists>key. canonicalRefKey (data_ref s k) = Inr key) \<longleftrightarrow> CHR ''.'' \<notin> set s \<and> CHR ''.'' \<notin> set k"
proof
  assume "CHR ''.'' \<notin> set s \<and> CHR ''.'' \<notin> set k"
  then show "\<exists>key. canonicalRefKey (data_ref s k) = Inr key"
    using assms by (simp add: canonicalRefKey_def Let_def Split_outputKey)
next
  assume "\<exists>key. canonicalRefKey (data_ref s k) = Inr key"
  then have "length (Split (CHR ''.'') (outputKey s k)) = 4"
    by (auto simp: canonicalRefKey_def Let_def split: if_splits)
  then have "length (Split (CHR ''.'') s) + length (Split (CHR ''.'') k) = 2"
    by (simp add: Split_outputKey)
  then show "CHR ''.'' \<notin> set s \<and> CHR ''.'' \<notin> set k"
    by (auto simp: length_Split filter_empty_conv)
qed

lemma canonicalRefKey_plain:
  "s \<noteq> '''' \<Longrightarrow> k \<noteq> '''' \<Longrightarrow> CHR ''.'' \<notin> set s \<Longrightarrow> CHR ''.'' \<notin> set k \<Longrightarrow>
   canonicalRefKey (data_ref s k) = Inr (outputKey s k)"
  by (simp add: canonicalRefKey_def Let_def Split_outputKey)

text \<open>C10 A reference that the compiler accepts can be resolved at run time only if neither its
  state nor its key contains a dot: with a dot the engine rejects it as malformed, although
  the compiler's \<^verbatim>\<open>parseBindingRef\<close> has accepted it.\<close>

theorem compiled_reference_runtime:
  assumes "parseBindingRef ref = Some (s, k)"
  shows "(\<exists>key. canonicalRefKey ref = Inr key) \<longleftrightarrow> CHR ''.'' \<notin> set s \<and> CHR ''.'' \<notin> set k"
  using parseBindingRef_sound[OF assms] canonicalRefKey_data_ref by simp

theorem compiled_reference_runtime_witness:
  "parseBindingRef ''$.states.a.output.b.c'' = Some (''a'', ''b.c'') \<and>
   \<not> (\<exists>key. canonicalRefKey ''$.states.a.output.b.c'' = Inr key)"
proof -
  have p: "parseBindingRef ''$.states.a.output.b.c'' = Some (''a'', ''b.c'')" by code_simp
  show ?thesis using compiled_reference_runtime [OF p] p by simp
qed

section \<open>The store\<close>

text \<open>The value of a binding: the literal, or what the store holds for the reference.\<close>

definition binding_value :: "(string, string) gomap \<Rightarrow> string \<Rightarrow> string option" where
  "binding_value store ref =
     (if \<not> HasPrefix ref dataRefPrefix then Some ref
      else case canonicalRefKey ref of Inl _ \<Rightarrow> None | Inr key \<Rightarrow> map_of store key)"

lemma resolve_loop_Some:
  "binding_value store ref = Some v \<Longrightarrow>
   resolve_loop store ((i, ref) # bs) acc = resolve_loop store bs (gm_put i v acc)"
  by (auto simp: binding_value_def split: if_splits sum.splits)

lemma resolve_loop_None:
  "binding_value store ref = None \<Longrightarrow> \<exists>e. resolve_loop store ((i, ref) # bs) acc = Inl e"
  by (auto simp: binding_value_def split: if_splits sum.splits)

lemma resolve_loop_Inr:
  "gm_ok bs \<Longrightarrow> resolve_loop store bs acc = Inr r \<Longrightarrow>
     (\<forall>(i, ref) \<in> set bs. binding_value store ref \<noteq> None) \<and>
     map_of r = map_of acc ++ (\<lambda>i. case map_of bs i of None \<Rightarrow> None | Some ref \<Rightarrow> binding_value store ref)"
proof (induction bs arbitrary: acc)
  case (Cons p bs)
  obtain i ref where p: "p = (i, ref)" by (cases p)
  have bs: "gm_ok bs" "map_of bs i = None" using Cons.prems(1) p by (simp_all add: map_of_eq_None_iff)
  show ?case
  proof (cases "binding_value store ref")
    case None
    then show ?thesis using resolve_loop_None[of store ref i bs acc] Cons.prems(2) p by auto
  next
    case (Some v)
    with Cons.IH[OF bs(1), of "gm_put i v acc"] Cons.prems(2) p bs(2) show ?thesis
      by (auto simp: resolve_loop_Some fun_eq_iff map_add_def simp del: resolve_loop.simps split: option.splits)
  qed
qed (simp add: map_add_def)

lemma resolve_loop_defined:
  "(\<forall>(i, ref) \<in> set bs. binding_value store ref \<noteq> None) \<Longrightarrow> \<exists>r. resolve_loop store bs acc = Inr r"
  by (induction bs arbitrary: acc) (auto simp: resolve_loop_Some simp del: resolve_loop.simps(2))

text \<open>Reading inputs in the run's own scope succeeds exactly when every binding is a literal
  or a reference to a stored output, and then gives each input its literal or the stored
  value, whatever the order of the bindings.\<close>

theorem ResolveInputs_iff:
  assumes "gm_ok bs" "requester = dc_scope c"
  shows "(\<exists>r. ResolveInputs c requester bs = Inr r \<and> map_of r = m) \<longleftrightarrow>
    (\<forall>(i, ref) \<in> set bs. binding_value (dc_store c) ref \<noteq> None) \<and>
    m = (\<lambda>i. case map_of bs i of None \<Rightarrow> None | Some ref \<Rightarrow> binding_value (dc_store c) ref)"
proof -
  have s: "assertScope c requester op = None" for op
    using assms(2) by (simp add: assertScope_def scope_equals_def)
  show ?thesis
  proof (cases "bs = []")
    case False
    then show ?thesis
      using resolve_loop_Inr[OF assms(1), of "dc_store c" "[]"] resolve_loop_defined[of bs "dc_store c" "[]"] s
      by (auto simp: ResolveInputs_def)
  qed (auto simp: ResolveInputs_def s fun_eq_iff)
qed

lemma write_loop_ok:
  "gm_ok bs \<Longrightarrow> write_loop sid doc bs store = (None, store') \<Longrightarrow>
     (\<forall>(k, p) \<in> set bs. \<exists>v. extractScalar doc p = Inr v \<and> map_of store' (outputKey sid k) = Some v) \<and>
     (\<forall>x. x \<notin> outputKey sid ` fst ` set bs \<longrightarrow> map_of store' x = map_of store x)"
proof (induction sid doc bs store arbitrary: store' rule: write_loop.induct)
  case (2 sid doc k p bs store)
  from 2(3) obtain v where v: "extractScalar doc p = Inr v"
    and w: "write_loop sid doc bs (gm_put (outputKey sid k) v store) = (None, store')"
    by (auto split: sum.splits)
  note ih = 2(1)[OF v _ w]
  have "outputKey sid k \<notin> outputKey sid ` fst ` set bs" using 2(2) by (auto simp: outputKey_def)
  with ih 2(2) v show ?case by auto
qed simp

lemma write_loop_frame:
  "write_loop sid doc bs store = (e, store') \<Longrightarrow> x \<notin> outputKey sid ` fst ` set bs \<Longrightarrow>
   map_of store' x = map_of store x"
  by (induction sid doc bs store arbitrary: store' rule: write_loop.induct) (auto split: sum.splits)

lemma own_scope: "assertScope c (dc_scope c) op = None"
  by (simp add: assertScope_def scope_equals_def)

lemma scope_equals_iff: "scope_equals s t \<longleftrightarrow> s = t"
  by (auto simp: scope_equals_def)

lemma WriteOutputs_None:
  assumes "WriteOutputs c requester sid bs payload = (None, c')" "bs \<noteq> []"
  shows "\<exists>doc. output_doc payload = Some doc \<and>
    write_loop sid doc bs (dc_store c) = (None, dc_store c') \<and> dc_scope c' = dc_scope c"
  using assms by (auto simp: WriteOutputs_def split: option.splits prod.splits)


text \<open>C14 Isolation: a write leaves the owner of a context and every output of another state as
  they were, also when it fails; a read or write in the name of another run is denied with
  a \<^verbatim>\<open>ScopeError\<close> and changes nothing.\<close>

theorem data_context_isolated:
  assumes "WriteOutputs c requester sid bs payload = (e, c')"
  shows "dc_scope c' = dc_scope c \<and>
    (x \<notin> outputKey sid ` fst ` set bs \<longrightarrow> map_of (dc_store c') x = map_of (dc_store c) x) \<and>
    (requester \<noteq> dc_scope c \<longrightarrow> c' = c \<and> e = Some (Typed (ScopeError (dc_scope c) requester ''write'')) \<and>
       ResolveInputs c requester bs' = Inl (Typed (ScopeError (dc_scope c) requester ''read'')))"
proof (intro conjI impI)
  show "dc_scope c' = dc_scope c"
    using assms by (auto simp: WriteOutputs_def split: option.splits prod.splits if_splits)
  show "map_of (dc_store c') x = map_of (dc_store c) x" if "x \<notin> outputKey sid ` fst ` set bs"
    using assms write_loop_frame[OF _ that]
    by (auto simp: WriteOutputs_def split: option.splits prod.splits if_splits)
qed (use assms in \<open>auto simp: WriteOutputs_def ResolveInputs_def assertScope_def scope_equals_iff\<close>)

section \<open>Template context and bounds\<close>

lemma map_of_put_all:
  "gm_ok m \<Longrightarrow> map_of (foldl (\<lambda>m (k, v). gm_put k v m) acc m) = map_of acc ++ map_of m"
proof (induction m arbitrary: acc)
  case (Cons p m)
  obtain k v where p: "p = (k, v)" by (cases p)
  have "map_of m k = None" using Cons.prems p by (simp add: map_of_eq_None_iff)
  with Cons p show ?case by (auto simp: fun_eq_iff map_add_def split: option.splits)
qed simp

lemma map_of_mergeInputs:
  "gm_ok base \<Longrightarrow> gm_ok inputs \<Longrightarrow> map_of (mergeInputs base inputs) = map_of base ++ map_of inputs"
  by (simp add: mergeInputs_def map_of_put_all)

lemma bounds_loop_None:
  "bounds_loop m t = None \<longleftrightarrow> (\<forall>(k, v) \<in> set m. length v \<le> MaxOutputValueBytes) \<and>
     t + sum_list (map (\<lambda>(k, v). length k + length v) m) \<le> MaxOutputsTotalBytes"
  by (induction m t rule: bounds_loop.induct) (auto simp: not_less)

text \<open>Captured outputs pass the bounds exactly when no value is longer than 64 KiB and the
  names and values together are not longer than 256 KiB.\<close>

theorem enforceOutputBounds_iff:
  "enforceOutputBounds m = None \<longleftrightarrow> list_all (\<lambda>(k, v). length v \<le> 65536) m \<and>
     sum_list (map (\<lambda>(k, v). length k + length v) m) \<le> 262144"
  by (simp add: enforceOutputBounds_def list_all_iff bounds_loop_None MaxOutputValueBytes_def MaxOutputsTotalBytes_def)

section \<open>A context written and read\<close>

definition ex_scope :: DataContextScope where
  "ex_scope = \<lparr>sc_RunID = ''run-1'', sc_Namespace = ''default''\<rparr>"

definition ex_result :: string where
  "ex_result = ''{'' @ quote ''result'' @ '':'' @ quote ''ok'' @ ''}''"

definition ex_written :: "eng_error option \<times> WorkflowDataContext" where
  "ex_written = WriteOutputs (NewScopedWorkflowDataContext ex_scope) ex_scope ''work''
     [(''summary'', ''result'')] ex_result"

lemma ex_written: "WriteOutputs (NewScopedWorkflowDataContext ex_scope) ex_scope ''work''
     [(''summary'', ''result'')] ex_result = (None, snd ex_written)"
  unfolding ex_written_def by code_simp


theorem data_context_isolated_witness:
  "dc_scope (snd ex_written) = ex_scope \<and>
   map_of (dc_store (snd ex_written)) ''states.other.output.x'' = None"
  using data_context_isolated [OF ex_written, of "''states.other.output.x''"]
  by (simp add: NewScopedWorkflowDataContext_def outputKey_def)

theorem ResolveInputs_iff_witness:
  "\<exists>r. ResolveInputs (snd ex_written) ex_scope [(''a'', ''lit''), (''b'', data_ref ''work'' ''summary'')] = Inr r \<and>
     map_of r = [''a'' \<mapsto> ''lit'', ''b'' \<mapsto> ''ok'']"
proof -
  let ?bs = "[(''a'', ''lit''), (''b'', data_ref ''work'' ''summary'')]"
  have s: "ex_scope = dc_scope (snd ex_written)" by code_simp
  have v: "binding_value (dc_store (snd ex_written)) ''lit'' = Some ''lit''"
    "binding_value (dc_store (snd ex_written)) (data_ref ''work'' ''summary'') = Some ''ok''" by code_simp+
  show ?thesis
    by (rule iffD2 [OF ResolveInputs_iff [of ?bs]]) (use s v in \<open>auto simp: fun_eq_iff\<close>)
qed

lemma TrimRight_zeros:
  assumes "s \<noteq> []" "list_all is_digit s"
  shows "TrimSuffix (TrimRightChar (CHR ''0'') (p @ s @ ''.000000'')) ''.'' = p @ s"
proof -
  have "HasSuffix (p @ s @ ''.'') ''.''" by (auto simp: HasSuffix_iff)
  then show ?thesis by (simp add: TrimRightChar_def TrimSuffix_def)
qed

text \<open>An integer of at most 53 bits that an activity returns is stored as its decimal digits: the
  detour over a \<^verbatim>\<open>float64\<close> and its text loses nothing.\<close>

theorem scalarString_integer:
  assumes "\<bar>i\<bar> < 2 ^ 53"
  shows "scalarString (JNum (Itoa i)) = Inr (Itoa i)"
proof -
  let ?u = "show_nat (nat \<bar>i\<bar>)"
  have itoa: "Itoa i = (if i < 0 then CHR ''-'' # ?u else ?u)" by (simp add: Itoa_def)
  have digits: "list_all is_digit ?u" "?u \<noteq> []" by (simp_all add: show_nat_digits)
  have "(if i < 0 then - rat_of_nat (nat \<bar>i\<bar>) else rat_of_nat (nat \<bar>i\<bar>)) = rat_of_int i" by simp
  with ParseFloat_digits [OF digits itoa] round64_int [OF assms]
  have "literal_value (Itoa i) = Some (of_int i)" by (simp add: literal_value_def)
  moreover have "\<bar>rat_of_int i\<bar> = of_nat (nat \<bar>i\<bar>)" by simp
  then have "Sprintf_f (i < 0) \<bar>rat_of_int i\<bar> = (if i < 0 then ''-'' else '''') @ ?u @ ''.000000''"
    by (simp only: Sprintf_f_nat)
  moreover have "HasPrefix (Itoa i) ''-'' \<longleftrightarrow> i < 0"
    using digits by (cases ?u) (auto simp: itoa HasPrefix_def is_digit_def)
  ultimately show ?thesis
    using TrimRight_zeros [OF digits(2,1), of "if i < 0 then ''-'' else ''''"] by (simp only: scalarString.simps option.case) (simp add: itoa)
qed

theorem scalarString_integer_witness: "scalarString (JNum (Itoa 42)) = Inr (Itoa 42)"
  using scalarString_integer [of 42] by simp

end
