(* ===== verification/Engine_Interpreter.thy ===== *)
theory Engine_Interpreter
  imports Engine_Data Compiler_Server
begin

text \<open>
  The interpreter of the engine adapter
  (\<^verbatim>\<open>services/engine-adapter/internal/domain/interpreter.go\<close>) and the classification of task
  results (\<^verbatim>\<open>activity.go\<close>).

  What the interpreter calls is its environment: the activity executor and the event
  publisher answer as functions of the history of effects so far, the template engine and
  the CEL evaluator as functions of their arguments.  A run is a sequence of steps, one
  per turn of the loop of \<^verbatim>\<open>Run\<close>; \<open>Run\<close> takes the number of turns it may make.
\<close>

section \<open>Activities\<close>

record ActivityInput =
  in_CapabilityName :: string
  in_InputPayload :: string
  in_WorkflowID :: string
  in_TimeoutSeconds :: int

record ActivityResult =
  res_EventType :: string
  res_Payload :: string

text \<open>The status of a task as the engine reads it from the broker, and the task's fields
  the dispatcher uses.\<close>

datatype TaskStatusPb =
    TASK_STATUS_UNSPECIFIED | TASK_STATUS_PENDING | TASK_STATUS_DISPATCHED | TASK_STATUS_COMPLETED
  | TASK_STATUS_FAILED | TASK_STATUS_CANCELLED | TASK_STATUS_RETRYING

record polled_task =
  pt_Status :: TaskStatusPb
  pt_ResultPayload :: string
  pt_Error :: "string option"

definition extractResult :: "string \<Rightarrow> string \<Rightarrow> eng_error + ActivityResult" where
  "extractResult payload capabilityName =
     (let defaultEvent = capabilityName @ ''.completed'' in
      if payload = '''' then Inr \<lparr>res_EventType = defaultEvent, res_Payload = payload\<rparr>
      else case Unmarshal_map payload of
          None \<Rightarrow> Inl (Errorf ''engine-adapter: unmarshal result payload: %w'' [])
        | Some envelope \<Rightarrow>
            Inr \<lparr>res_EventType = (case map_of envelope ''_event'' of
                    Some (JStr s) \<Rightarrow> if s \<noteq> '''' then s else defaultEvent
                  | _ \<Rightarrow> defaultEvent),
                 res_Payload = payload\<rparr>)"

text \<open>\<open>None\<close>: the task is still in progress.\<close>

definition handleStatus :: "polled_task \<Rightarrow> string \<Rightarrow> (eng_error + ActivityResult) option" where
  "handleStatus task capabilityName =
     (case pt_Status task of
        TASK_STATUS_COMPLETED \<Rightarrow> Some (extractResult (pt_ResultPayload task) capabilityName)
      | TASK_STATUS_FAILED \<Rightarrow>
          Some (Inl (Errorf ''engine-adapter: capability %q failed: %s''
            [FS capabilityName, FS (case pt_Error task of None \<Rightarrow> ''unknown error'' | Some msg \<Rightarrow> msg)]))
      | TASK_STATUS_CANCELLED \<Rightarrow>
          Some (Inl (Errorf ''engine-adapter: capability %q task cancelled'' [FS capabilityName]))
      | _ \<Rightarrow> None)"

text \<open>The polling loop over the sequence of answers: an answer is the context's error, an error
  of the call, or the task.  \<open>None\<close>: the answers ended while the task was in progress.\<close>

datatype poll_answer = PollCtxDone string | PollError string | PollTask polled_task

fun poll :: "string \<Rightarrow> string \<Rightarrow> poll_answer list \<Rightarrow> (eng_error + ActivityResult) option" where
  "poll taskID cap [] = None"
| "poll taskID cap (PollCtxDone err # as) = Some (Inl (Errorf ''engine-adapter: %w'' [FS err]))"
| "poll taskID cap (PollError err # as) =
     Some (Inl (Errorf ''engine-adapter: get task %q: %w'' [FS taskID, FS err]))"
| "poll taskID cap (PollTask task # as) =
     (case handleStatus task cap of Some r \<Rightarrow> Some r | None \<Rightarrow> poll taskID cap as)"

section \<open>Environment\<close>

datatype effect =
    Dispatch ActivityInput
  | Publish string string string "string option"

record engine_env =
  e_exec :: "effect list \<Rightarrow> ActivityInput \<Rightarrow> eng_error + ActivityResult"
  e_pub :: "effect list \<Rightarrow> effect \<Rightarrow> eng_error option"
  e_template :: "string \<Rightarrow> (string, string) gomap \<Rightarrow> eng_error + string"
  e_cel :: "string \<Rightarrow> (string, string) gomap \<Rightarrow> bool option"

record run_state =
  rs_cur :: string
  rs_ctx :: "(string, string) gomap"
  rs_data :: WorkflowDataContext
  rs_tr :: "effect list"

section \<open>Templates, guards, payloads\<close>

text \<open>Every context value is escaped for a JSON string before the template sees it.\<close>

definition escape_ctx :: "(string, string) gomap \<Rightarrow> (string, string) gomap" where
  "escape_ctx ctx = map (\<lambda>(k, v). (k, escape v)) ctx"

definition resolveTemplate :: "engine_env \<Rightarrow> string \<Rightarrow> (string, string) gomap \<Rightarrow> eng_error + string" where
  "resolveTemplate env tmpl ctx = e_template env tmpl (escape_ctx ctx)"

definition evalGuard :: "engine_env \<Rightarrow> string \<Rightarrow> (string, string) gomap \<Rightarrow> bool" where
  "evalGuard env expr ctx =
     (let e = TrimSpace expr in
      if e = '''' then False
      else case e_cel env e ctx of None \<Rightarrow> False | Some b \<Rightarrow> b)"

definition guardsMatch :: "engine_env \<Rightarrow> (string, string) gomap \<Rightarrow> (string, string) gomap \<Rightarrow> bool" where
  "guardsMatch env conditions ctx = list_all (\<lambda>(label, expr). evalGuard env expr ctx) conditions"

definition resolveTransition ::
  "engine_env \<Rightarrow> TransitionIR list \<Rightarrow> ActivityResult \<Rightarrow> (string, string) gomap \<Rightarrow> eng_error + TransitionIR" where
  "resolveTransition env transitions result ctx =
     (case find (\<lambda>t. (res_EventType result = '''' \<or> ti_EventType t = res_EventType result) \<and>
                     guardsMatch env (ti_Conditions t) ctx) transitions of
        Some t \<Rightarrow> Inr t
      | None \<Rightarrow> Inl (Errorf ''engine-adapter: no transition matched event %q'' [FS (res_EventType result)]))"

text \<open>Decoding into \<^verbatim>\<open>interface{}\<close> fails on a number outside the range of a \<^verbatim>\<open>float64\<close>.\<close>

fun floats_ok :: "json \<Rightarrow> bool" where
  "floats_ok (JNum t) = float64_ok t"
| "floats_ok (JArr js) = list_all floats_ok js"
| "floats_ok (JObj m) = list_all (\<lambda>(k, j). floats_ok j) m"
| "floats_ok _ = True"

definition mergePayload :: "(string, string) gomap \<Rightarrow> string \<Rightarrow> (string, string) gomap" where
  "mergePayload ctx payload =
     (if payload = '''' then ctx
      else case Unmarshal_map payload of
          None \<Rightarrow> ctx
        | Some m \<Rightarrow>
            if \<not> list_all (\<lambda>(k, j). floats_ok j) m then ctx
            else foldl (\<lambda>c (k, v). if k = ''_event'' then c
                       else case v of JStr s \<Rightarrow> gm_put k s c | _ \<Rightarrow> c) ctx m)"

section \<open>Running\<close>

definition findState :: "WorkflowIR \<Rightarrow> string \<Rightarrow> StateIR option" where
  "findState ir stateID = find (\<lambda>s. si_Id s = stateID) (ir_States ir)"

definition run_scope :: "WorkflowIR \<Rightarrow> DataContextScope" where
  "run_scope ir = \<lparr>sc_RunID = ir_WorkflowId ir, sc_Namespace = ir_Namespace ir\<rparr>"

definition timeout_seconds :: "int option \<Rightarrow> int" where
  "timeout_seconds t = (case t of None \<Rightarrow> 0 | Some ns \<Rightarrow> min (ns div 1000000000) MaxInt32)"

fun execute_loop ::
  "engine_env \<Rightarrow> WorkflowIR \<Rightarrow> string \<Rightarrow> (string, string) gomap \<Rightarrow> ActionIR list \<Rightarrow> ActivityResult option
   \<Rightarrow> WorkflowDataContext \<Rightarrow> effect list
   \<Rightarrow> (eng_error + ActivityResult option) \<times> WorkflowDataContext \<times> effect list" where
  "execute_loop env ir sid ctx [] lst data tr = (Inr lst, data, tr)"
| "execute_loop env ir sid ctx (action # actions) lst data tr =
     (if ai_Async action then execute_loop env ir sid ctx actions lst data tr
      else case ResolveInputs data (run_scope ir) (ai_InputBindings action) of
        Inl err \<Rightarrow> (Inl err, data, tr)
      | Inr inputs \<Rightarrow>
     (case resolveTemplate env (ai_InputTemplateJson action) (mergeInputs ctx inputs) of
        Inl err \<Rightarrow> (Inl (Wrapf ''engine-adapter: action %q template error: %w'' [FS (ai_Capability action)] err), data, tr)
      | Inr resolved \<Rightarrow>
     let input = \<lparr>in_CapabilityName = ai_Capability action, in_InputPayload = resolved,
                  in_WorkflowID = ir_WorkflowId ir, in_TimeoutSeconds = timeout_seconds (ai_Timeout action)\<rparr>;
         tr' = tr @ [Dispatch input]
     in (case e_exec env tr input of
        Inl err \<Rightarrow> (Inl (Wrapf ''engine-adapter: action %q: %w'' [FS (ai_Capability action)] err), data, tr')
      | Inr result \<Rightarrow>
     (case WriteOutputs data (run_scope ir) sid (ai_OutputBindings action) (res_Payload result) of
        (Some err, data') \<Rightarrow> (Inl err, data', tr')
      | (None, data') \<Rightarrow> execute_loop env ir sid ctx actions (Some result) data' tr'))))"

definition executeActions ::
  "engine_env \<Rightarrow> WorkflowIR \<Rightarrow> StateIR \<Rightarrow> run_state
   \<Rightarrow> (eng_error + ActivityResult) \<times> WorkflowDataContext \<times> effect list" where
  "executeActions env ir state s =
     (case execute_loop env ir (si_Id state) (rs_ctx s) (si_Actions state) None (rs_data s) (rs_tr s) of
        (Inl err, data, tr) \<Rightarrow> (Inl err, data, tr)
      | (Inr None, data, tr) \<Rightarrow> (Inr \<lparr>res_EventType = '''', res_Payload = ''''\<rparr>, data, tr)
      | (Inr (Some result), data, tr) \<Rightarrow> (Inr result, data, tr))"

definition marshalTerminalPayload :: "(string, string) gomap \<Rightarrow> string" where
  "marshalTerminalPayload outputs =
     json_print (JObj [(''outputs'', JObj (map (\<lambda>(k, v). (k, JStr v)) outputs))])"

abbreviation ev_failed :: "WorkflowIR \<Rightarrow> string \<Rightarrow> effect" where
  "ev_failed ir st \<equiv> Publish ''zynax.workflow.failed'' (ir_WorkflowId ir) st None"

text \<open>\<^verbatim>\<open>publishFailed\<close> is best effort: its error is only logged.\<close>

definition publishFailed :: "WorkflowIR \<Rightarrow> string \<Rightarrow> effect list \<Rightarrow> effect list" where
  "publishFailed ir st tr = tr @ [ev_failed ir st]"

definition captureTerminalOutputs ::
  "WorkflowIR \<Rightarrow> StateIR \<Rightarrow> run_state \<Rightarrow> (eng_error + (string, string) gomap) \<times> effect list" where
  "captureTerminalOutputs ir state s =
     (case ResolveInputs (rs_data s) (run_scope ir) (si_Outputs state) of
        Inl err \<Rightarrow> (Inl err, publishFailed ir (rs_cur s) (rs_tr s))
      | Inr outputs \<Rightarrow>
          (case enforceOutputBounds outputs of
             Some err \<Rightarrow> (Inl err, publishFailed ir (rs_cur s) (rs_tr s))
           | None \<Rightarrow>
               (Inr outputs, rs_tr s @ [Publish ''zynax.workflow.completed'' (ir_WorkflowId ir) (rs_cur s)
                  (Some (marshalTerminalPayload outputs))])))"

text \<open>One turn of the loop: the end of the run, or the state of the next turn.\<close>

definition run_step ::
  "engine_env \<Rightarrow> WorkflowIR \<Rightarrow> run_state \<Rightarrow> ((eng_error + (string, string) gomap) \<times> effect list) + run_state" where
  "run_step env ir s =
     (case findState ir (rs_cur s) of
        None \<Rightarrow> Inl (Inl (Errorf ''engine-adapter: state %q not found in IR'' [FS (rs_cur s)]), rs_tr s)
      | Some state \<Rightarrow>
     if si_Type state = STATE_TYPE_TERMINAL then Inl (captureTerminalOutputs ir state s)
     else let ent = Publish ''zynax.workflow.state.entered'' (ir_WorkflowId ir) (rs_cur s) None;
              s1 = s\<lparr>rs_tr := rs_tr s @ [ent]\<rparr>
     in case e_pub env (rs_tr s) ent of
        Some err \<Rightarrow> Inl (Inl (Wrapf ''engine-adapter: publish state.entered: %w'' [] err), rs_tr s1)
      | None \<Rightarrow>
     (case executeActions env ir state s1 of
        (Inl err, data, tr) \<Rightarrow> Inl (Inl err, publishFailed ir (rs_cur s) tr)
      | (Inr result, data, tr) \<Rightarrow>
     (case resolveTransition env (si_Transitions state) result (rs_ctx s) of
        Inl err \<Rightarrow> Inl (Inl err, publishFailed ir (rs_cur s) tr)
      | Inr transition \<Rightarrow>
          Inr \<lparr>rs_cur = ti_TargetState transition,
               rs_ctx = mergePayload (rs_ctx s) (res_Payload result),
               rs_data = data,
               rs_tr = tr @ [Publish ''zynax.workflow.state.exited'' (ir_WorkflowId ir) (rs_cur s) None]\<rparr>)))"

fun run_loop ::
  "engine_env \<Rightarrow> WorkflowIR \<Rightarrow> nat \<Rightarrow> run_state \<Rightarrow> ((eng_error + (string, string) gomap) \<times> effect list) option" where
  "run_loop env ir 0 s = None"
| "run_loop env ir (Suc n) s = (case run_step env ir s of Inl out \<Rightarrow> Some out | Inr s' \<Rightarrow> run_loop env ir n s')"

definition run_init :: "WorkflowIR \<Rightarrow> run_state" where
  "run_init ir = \<lparr>rs_cur = ir_InitialState ir, rs_ctx = [],
                  rs_data = NewScopedWorkflowDataContext (run_scope ir), rs_tr = []\<rparr>"

definition Run ::
  "engine_env \<Rightarrow> WorkflowIR \<Rightarrow> nat \<Rightarrow> ((eng_error + (string, string) gomap) \<times> effect list) option" where
  "Run env ir turns = run_loop env ir turns (run_init ir)"

section \<open>Steps keep the run's invariant\<close>

definition is_final :: "effect \<Rightarrow> bool" where
  "is_final e = (case e of
       Publish t w s p \<Rightarrow> t = ''zynax.workflow.completed'' \<or> t = ''zynax.workflow.failed''
     | Dispatch i \<Rightarrow> False)"

text \<open>The states a trace reports as entered.\<close>

definition entered :: "effect list \<Rightarrow> string list" where
  "entered tr = List.map_filter (\<lambda>e. case e of
       Publish t w s p \<Rightarrow> if t = ''zynax.workflow.state.entered'' then Some s else None
     | Dispatch i \<Rightarrow> None) tr"

lemma entered_simps [simp]:
  "entered [] = []" "entered (xs @ ys) = entered xs @ entered ys"
  "entered [Dispatch i] = []"
  "entered [Publish t w s p] = (if t = ''zynax.workflow.state.entered'' then [s] else [])"
  by (simp_all add: entered_def map_filter_def)

definition run_inv :: "WorkflowIR \<Rightarrow> run_state \<Rightarrow> bool" where
  "run_inv ir s \<longleftrightarrow>
     dc_scope (rs_data s) = run_scope ir \<and> list_all (\<lambda>e. \<not> is_final e) (rs_tr s) \<and>
     hd (entered (rs_tr s) @ [rs_cur s]) = ir_InitialState ir \<and>
     successively (\<lambda>x y. (x, y) \<in> ir_edges ir) (entered (rs_tr s) @ [rs_cur s])"

lemma WriteOutputs_scope: "WriteOutputs c r sid bs p = (e, c') \<Longrightarrow> dc_scope c' = dc_scope c"
  by (auto simp: WriteOutputs_def split: option.splits prod.splits if_splits)

lemma WriteOutputs_own_error:
  "WriteOutputs c (dc_scope c) sid bs p = (Some e, c') \<Longrightarrow> \<exists>k r m. e = Typed (DataReferenceError k r m)"
proof -
  have "write_loop sid doc bs st = (Some e, st') \<Longrightarrow> \<exists>k r m. e = Typed (DataReferenceError k r m)" for doc st st'
    by (induction sid doc bs st rule: write_loop.induct) (auto split: sum.splits)
  then show "WriteOutputs c (dc_scope c) sid bs p = (Some e, c') \<Longrightarrow> ?thesis"
    by (auto simp: WriteOutputs_def own_scope split: option.splits prod.splits if_splits)
qed

lemma ResolveInputs_own_error:
  "ResolveInputs c (dc_scope c) bs = Inl e \<Longrightarrow> \<exists>k r m. e = Typed (DataReferenceError k r m)"
proof -
  have "resolve_loop st bs acc = Inl e \<Longrightarrow> \<exists>k r m. e = Typed (DataReferenceError k r m)" for st acc
    by (induction st bs acc rule: resolve_loop.induct) (auto split: sum.splits option.splits if_splits)
  then show "ResolveInputs c (dc_scope c) bs = Inl e \<Longrightarrow> ?thesis"
    by (auto simp: ResolveInputs_def own_scope split: if_splits)
qed

text \<open>The errors a run can end with, when its state is known.\<close>

definition run_error :: "eng_error \<Rightarrow> bool" where
  "run_error e \<longleftrightarrow> (case e of
       Typed (DataReferenceError k r m) \<Rightarrow> True
     | Typed (OutputSizeError k n l) \<Rightarrow> True
     | Typed (ScopeError a b c) \<Rightarrow> False
     | Errorf f as \<Rightarrow> f = ''engine-adapter: no transition matched event %q''
     | Wrapf f as e' \<Rightarrow> True)"


lemma run_error_simps [simp]:
  "run_error (Typed (DataReferenceError k r m))" "run_error (Typed (OutputSizeError k n l))"
  "\<not> run_error (Typed (ScopeError a b c))" "run_error (Wrapf f as e)"
  "run_error (Errorf f as) \<longleftrightarrow> f = ''engine-adapter: no transition matched event %q''"
  by (simp_all add: run_error_def)

lemma own_errors:
  "dc_scope c = s \<Longrightarrow> ResolveInputs c s bs = Inl e \<Longrightarrow> run_error e"
  "dc_scope c = s \<Longrightarrow> WriteOutputs c s sid bs p = (Some e, c') \<Longrightarrow> run_error e"
  using ResolveInputs_own_error WriteOutputs_own_error by fastforce+

text \<open>The trace grew by dispatches only.\<close>

definition dispatched :: "effect list \<Rightarrow> effect list \<Rightarrow> bool" where
  "dispatched tr tr' \<longleftrightarrow> (\<exists>ds. tr' = tr @ map Dispatch ds)"

lemma dispatched_refl [simp]: "dispatched tr tr"
  by (auto simp: dispatched_def intro: exI[of _ "[]"])

lemma dispatched_step: "dispatched (tr @ [Dispatch i]) tr' \<Longrightarrow> dispatched tr tr'"
  by (auto simp: dispatched_def intro: exI[of _ "i # _"])

lemma dispatched_one [simp]: "dispatched tr (tr @ [Dispatch i])"
  by (rule dispatched_step [of _ i]) simp

text \<open>One synchronous action: the loop ends with an error, or goes on after one dispatch.\<close>

lemma execute_loop_action:
  assumes "execute_loop env ir sid ctx (a # as) l d tr = (r, d', tr')" "dc_scope d = run_scope ir" "\<not> ai_Async a"
  shows "(\<exists>e. r = Inl e \<and> run_error e) \<and> dc_scope d' = run_scope ir \<and> dispatched tr tr' \<or>
    (\<exists>res d1 i. execute_loop env ir sid ctx as (Some res) d1 (tr @ [Dispatch i]) = (r, d', tr') \<and>
       dc_scope d1 = run_scope ir)"
proof (cases "ResolveInputs d (run_scope ir) (ai_InputBindings a)")
  case (Inl e)
  then show ?thesis using assms own_errors(1)[OF assms(2) Inl] by auto
next
  case in_: (Inr inputs)
  show ?thesis
  proof (cases "resolveTemplate env (ai_InputTemplateJson a) (mergeInputs ctx inputs)")
    case (Inl e)
    then show ?thesis using assms in_ by auto
  next
    case tm: (Inr resolved)
    let ?i = "\<lparr>in_CapabilityName = ai_Capability a, in_InputPayload = resolved,
       in_WorkflowID = ir_WorkflowId ir, in_TimeoutSeconds = timeout_seconds (ai_Timeout a)\<rparr>"
    show ?thesis
    proof (cases "e_exec env tr ?i")
      case (Inl e)
      then show ?thesis using assms in_ tm by (auto simp: Let_def)
    next
      case ex: (Inr result)
      obtain e d1 where w: "WriteOutputs d (run_scope ir) sid (ai_OutputBindings a) (res_Payload result) = (e, d1)"
        by fastforce
      have sc: "dc_scope d1 = run_scope ir" using WriteOutputs_scope[OF w] assms(2) by simp
      show ?thesis
      proof (cases e)
        case None
        then have "execute_loop env ir sid ctx as (Some result) d1 (tr @ [Dispatch ?i]) = (r, d', tr')"
          using assms in_ tm ex w by (simp add: Let_def)
        with sc show ?thesis by blast
      next
        case (Some err)
        then show ?thesis using assms in_ tm ex w sc own_errors(2)[OF assms(2) w[unfolded Some]]
          by (auto simp: Let_def)
      qed
    qed
  qed
qed

lemma execute_loop_inv:
  assumes "execute_loop env ir sid ctx as l d tr = (r, d', tr')" "dc_scope d = run_scope ir"
  shows "dc_scope d' = run_scope ir \<and> dispatched tr tr' \<and> (\<forall>e. r = Inl e \<longrightarrow> run_error e)"
  using assms
proof (induction as arbitrary: l d tr)
  case (Cons a as)
  show ?case
  proof (cases "ai_Async a")
    case True
    with Cons.IH[of l d tr] Cons.prems show ?thesis by simp
  next
    case False
    from execute_loop_action[OF Cons.prems False] Cons.IH dispatched_step show ?thesis by blast
  qed
qed auto

lemma executeActions_inv:
  assumes "executeActions env ir state s = (r, d', tr')" "dc_scope (rs_data s) = run_scope ir"
  shows "dc_scope d' = run_scope ir \<and> dispatched (rs_tr s) tr' \<and> (\<forall>e. r = Inl e \<longrightarrow> run_error e)"
proof -
  obtain r0 where "execute_loop env ir (si_Id state) (rs_ctx s) (si_Actions state) None (rs_data s) (rs_tr s)
      = (r0, d', tr')" and "\<And>e. r = Inl e \<Longrightarrow> r0 = Inl e"
    using assms(1) unfolding executeActions_def
    by (auto split: prod.splits sum.splits option.splits)
  with execute_loop_inv[OF _ assms(2)] show ?thesis by blast
qed

lemma findState_Some: "findState ir x = Some st \<Longrightarrow> st \<in> set (ir_States ir) \<and> si_Id st = x"
  by (auto simp: findState_def find_Some_iff)

lemma findState_known: "x \<in> set (ir_ids ir) \<Longrightarrow> \<exists>st. findState ir x = Some st"
  by (auto simp: findState_def ir_ids_def find_None_iff not_None_eq [symmetric] simp del: not_None_eq)

lemma resolveTransition_Inr:
  "resolveTransition env ts res ctx = Inr t \<Longrightarrow> t \<in> set ts"
  "resolveTransition env ts res ctx = Inl e \<Longrightarrow> run_error e"
  by (auto simp: resolveTransition_def find_Some_iff split: option.splits)

lemma dispatched_quiet:
  "dispatched tr tr' \<Longrightarrow> entered tr' = entered tr \<and> (list_all (\<lambda>e. \<not> is_final e) tr' \<longleftrightarrow> list_all (\<lambda>e. \<not> is_final e) tr)"
proof -
  have "entered (map Dispatch ds) = [] \<and> list_all (\<lambda>e. \<not> is_final e) (map Dispatch ds)" for ds
    by (induction ds) (auto simp: entered_def map_filter_def is_final_def)
  then show "dispatched tr tr' \<Longrightarrow> ?thesis" by (auto simp: dispatched_def)
qed

text \<open>What one turn does: it ends the run, or executes the state's actions and takes a transition.\<close>

lemma run_step_cases:
  obtains (unknown) "findState ir (rs_cur s) = None"
      "run_step env ir s = Inl (Inl (Errorf ''engine-adapter: state %q not found in IR'' [FS (rs_cur s)]), rs_tr s)"
  | (terminal) st where "findState ir (rs_cur s) = Some st" "si_Type st = STATE_TYPE_TERMINAL"
      "run_step env ir s = Inl (captureTerminalOutputs ir st s)"
  | (unpublished) st e where "findState ir (rs_cur s) = Some st"
      "run_step env ir s = Inl (Inl (Wrapf ''engine-adapter: publish state.entered: %w'' [] e),
         rs_tr s @ [Publish ''zynax.workflow.state.entered'' (ir_WorkflowId ir) (rs_cur s) None])"
  | (acted) st r d tr where "findState ir (rs_cur s) = Some st" "si_Type st \<noteq> STATE_TYPE_TERMINAL"
      "executeActions env ir st (s\<lparr>rs_tr := rs_tr s @ [Publish ''zynax.workflow.state.entered'' (ir_WorkflowId ir) (rs_cur s) None]\<rparr>)
         = (r, d, tr)"
      "run_step env ir s = (case r of
         Inl err \<Rightarrow> Inl (Inl err, publishFailed ir (rs_cur s) tr)
       | Inr result \<Rightarrow>
           (case resolveTransition env (si_Transitions st) result (rs_ctx s) of
              Inl err \<Rightarrow> Inl (Inl err, publishFailed ir (rs_cur s) tr)
            | Inr t \<Rightarrow> Inr \<lparr>rs_cur = ti_TargetState t, rs_ctx = mergePayload (rs_ctx s) (res_Payload result),
                 rs_data = d,
                 rs_tr = tr @ [Publish ''zynax.workflow.state.exited'' (ir_WorkflowId ir) (rs_cur s) None]\<rparr>))"
proof (cases "findState ir (rs_cur s)")
  case None
  then show ?thesis using unknown by (simp add: run_step_def)
next
  case (Some st)
  let ?ent = "Publish ''zynax.workflow.state.entered'' (ir_WorkflowId ir) (rs_cur s) None"
  obtain r d tr where x: "executeActions env ir st (s\<lparr>rs_tr := rs_tr s @ [?ent]\<rparr>) = (r, d, tr)" by (metis prod_cases3)
  show ?thesis
  proof (cases "si_Type st = STATE_TYPE_TERMINAL")
    case True
    then show ?thesis using Some terminal by (simp add: run_step_def)
  next
    case False
    show ?thesis
    proof (cases "e_pub env (rs_tr s) ?ent")
      case None
      with Some False x show ?thesis by (intro acted[OF Some False x]) (simp add: run_step_def Let_def split: sum.split)
    next
      case e: (Some e)
      with Some False show ?thesis by (intro unpublished[OF Some, of e]) (simp add: run_step_def Let_def)
    qed
  qed
qed

definition path_from_start :: "WorkflowIR \<Rightarrow> string list \<Rightarrow> bool" where
  "path_from_start ir xs \<longleftrightarrow> xs \<noteq> [] \<and> hd xs = ir_InitialState ir \<and>
     successively (\<lambda>x y. (x, y) \<in> ir_edges ir) xs"

text \<open>How a run ends: with the outputs of a terminal state that the entered states lead to,
  announced by a last \<^verbatim>\<open>completed\<close> event that carries them and that no other final event
  precedes; or with an error, and no \<^verbatim>\<open>completed\<close> event.\<close>

definition run_outcome :: "WorkflowIR \<Rightarrow> eng_error + (string, string) gomap \<Rightarrow> effect list \<Rightarrow> bool" where
  "run_outcome ir res tr \<longleftrightarrow>
     (case res of
        Inr outputs \<Rightarrow>
          (\<exists>tr0 t. tr = tr0 @ [Publish ''zynax.workflow.completed'' (ir_WorkflowId ir) t (Some (marshalTerminalPayload outputs))] \<and>
             list_all (\<lambda>e. \<not> is_final e) tr0 \<and> t \<in> ir_terminals ir \<and> path_from_start ir (entered tr0 @ [t]) \<and>
             enforceOutputBounds outputs = None)
      | Inl e \<Rightarrow>
          (\<exists>tr0. list_all (\<lambda>e. \<not> is_final e) tr0 \<and> (tr = tr0 \<or> (\<exists>t. tr = tr0 @ [ev_failed ir t]))))"

lemma run_inv_iff:
  "run_inv ir s \<longleftrightarrow> dc_scope (rs_data s) = run_scope ir \<and> list_all (\<lambda>e. \<not> is_final e) (rs_tr s) \<and>
     path_from_start ir (entered (rs_tr s) @ [rs_cur s])"
  by (simp add: run_inv_def path_from_start_def)

lemma path_snoc:
  "path_from_start ir (xs @ [x]) \<Longrightarrow> (x, y) \<in> ir_edges ir \<Longrightarrow> path_from_start ir ((xs @ [x]) @ [y])"
  unfolding path_from_start_def successively_append_iff[of _ "xs @ [x]" "[y]"] by (cases xs) auto

lemma bounds_loop_error: "bounds_loop m t = Some e \<Longrightarrow> run_error e"
  by (induction m t rule: bounds_loop.induct) (auto split: if_splits)

lemma run_step_ok:
  assumes inv: "run_inv ir s"
  shows "(case run_step env ir s of
     Inr s' \<Rightarrow> run_inv ir s' \<and> (rs_cur s, rs_cur s') \<in> ir_edges ir
   | Inl (res, tr) \<Rightarrow> run_outcome ir res tr \<and> (findState ir (rs_cur s) \<noteq> None \<longrightarrow> (\<forall>e. res = Inl e \<longrightarrow> run_error e)))"
proof (cases rule: run_step_cases[of ir s env])
  case unknown
  then show ?thesis using inv by (auto simp: run_outcome_def run_inv_iff)
next
  case (terminal st)
  have "rs_cur s \<in> ir_terminals ir"
    using findState_Some[OF terminal(1)] terminal(2) unfolding ir_terminals_def
    by (intro CollectI exI[of _ st]) auto
  then show ?thesis using inv terminal own_errors(1)
    by (auto simp: run_outcome_def run_inv_iff captureTerminalOutputs_def publishFailed_def
        enforceOutputBounds_def split: sum.splits option.splits dest: bounds_loop_error)
next
  case (unpublished st e)
  then show ?thesis using inv by (auto simp: run_outcome_def run_inv_iff is_final_def)
next
  case (acted st r d tr)
  let ?ent = "Publish ''zynax.workflow.state.entered'' (ir_WorkflowId ir) (rs_cur s) None"
  have x: "dc_scope d = run_scope ir \<and> dispatched (rs_tr s @ [?ent]) tr \<and> (\<forall>e. r = Inl e \<longrightarrow> run_error e)"
    using executeActions_inv[OF acted(3)] inv by (simp add: run_inv_iff)
  have q: "entered tr = entered (rs_tr s) @ [rs_cur s]" "list_all (\<lambda>e. \<not> is_final e) tr"
    using x inv dispatched_quiet by (force simp: run_inv_iff is_final_def)+
  have e: "(rs_cur s, ti_TargetState t) \<in> ir_edges ir" if "t \<in> set (si_Transitions st)" for t
    using findState_Some[OF acted(1)] that unfolding ir_edges_def
    by (intro CollectI exI[of _ st] exI[of _ t]) auto
  show ?thesis
    unfolding acted(4) using x q inv acted(1)
    by (auto simp: run_outcome_def run_inv_iff publishFailed_def is_final_def
        dest: resolveTransition_Inr e split: sum.splits)
       (use e path_snoc resolveTransition_Inr in \<open>fastforce\<close>)+
qed

section \<open>Whole runs\<close>

lemma run_inv_init: "run_inv ir (run_init ir)"
  by (simp add: run_inv_def run_init_def NewScopedWorkflowDataContext_def)

lemma run_loop_ok:
  "run_inv ir s \<Longrightarrow> run_loop env ir n s = Some (res, tr) \<Longrightarrow>
   run_outcome ir res tr \<and>
   (ir_closed ir \<longrightarrow> rs_cur s \<in> set (ir_ids ir) \<longrightarrow> (\<forall>e. res = Inl e \<longrightarrow> run_error e))"
proof (induction n arbitrary: s)
  case (Suc n)
  note ok = run_step_ok[OF Suc.prems(1), of env]
  show ?case
  proof (cases "run_step env ir s")
    case (Inl out)
    then show ?thesis using Suc.prems(2) ok findState_known[of "rs_cur s" ir] by auto
  next
    case (Inr s')
    then have i: "run_inv ir s'" "(rs_cur s, rs_cur s') \<in> ir_edges ir" "run_loop env ir n s' = Some (res, tr)"
      using ok Suc.prems(2) by auto
    then have "ir_closed ir \<Longrightarrow> rs_cur s' \<in> set (ir_ids ir)" by (auto simp: ir_closed_def)
    with Suc.IH[OF i(1,3)] show ?thesis by blast
  qed
qed simp

lemma run_loop_mono: "run_loop env ir n s = Some out \<Longrightarrow> n \<le> m \<Longrightarrow> run_loop env ir m s = Some out"
proof (induction n arbitrary: s m)
  case (Suc n)
  then obtain k where "m = Suc k" "n \<le> k" by (cases m) auto
  with Suc show ?case by (auto split: sum.splits)
qed simp


lemma Run_closed:
  assumes "ir_closed ir" "Run env ir n = Some (Inl e, tr)"
  shows "run_error e"
  using run_loop_ok[OF run_inv_init] assms by (auto simp: Run_def ir_closed_def run_init_def)

text \<open>The run of a closed workflow never fails because a state is unknown, and never because
  its data context belongs to another run: an error is an unresolved reference, an output
  that is too large, a missing transition, or an error of the environment that it wraps.\<close>

theorem Run_closed_errors:
  assumes "ir_closed ir" "Run env ir n = Some (Inl e, tr)"
  shows "run_error e"
  by (rule Run_closed [OF assms])

lemma finite_reach: "finite E \<Longrightarrow> finite (E\<^sup>* `` {x})"
proof -
  assume "finite E"
  have "E\<^sup>* `` {x} \<subseteq> insert x (Range E)" by (auto elim: rtranclE)
  with \<open>finite E\<close> show ?thesis by (meson finite_Range finite_insert finite_subset)
qed

lemma run_loop_acyclic:
  assumes "acyclic (ir_edges ir)" "finite (ir_edges ir)"
  shows "run_inv ir s \<Longrightarrow> card ((ir_edges ir)\<^sup>* `` {rs_cur s}) \<le> n \<Longrightarrow> \<exists>out. run_loop env ir n s = Some out"
proof (induction n arbitrary: s)
  let ?R = "\<lambda>x. (ir_edges ir)\<^sup>* `` {x}"
  have fin: "finite (?R x)" for x by (rule finite_reach [OF assms(2)])
  case 0
  have "rs_cur s \<in> ?R (rs_cur s)" by simp
  with 0(2) fin[of "rs_cur s"] show ?case by auto
next
  let ?R = "\<lambda>x. (ir_edges ir)\<^sup>* `` {x}"
  have fin: "finite (?R x)" for x by (rule finite_reach [OF assms(2)])
  case (Suc n)
  show ?case
  proof (cases "run_step env ir s")
    case (Inr s')
    have i: "run_inv ir s'" "(rs_cur s, rs_cur s') \<in> ir_edges ir"
      using run_step_ok[OF Suc.prems(1), of env] Inr by auto
    have "rs_cur s \<notin> ?R (rs_cur s')"
      using i(2) assms(1) by (auto simp: acyclic_def dest: rtrancl_into_trancl2)
    moreover have "?R (rs_cur s') \<subseteq> ?R (rs_cur s)" using i(2) by (auto intro: converse_rtrancl_into_rtrancl)
    ultimately have "?R (rs_cur s') \<subset> ?R (rs_cur s)" by auto
    then have "card (?R (rs_cur s')) < card (?R (rs_cur s))" using fin by (simp add: psubset_card_mono)
    with Suc Inr i(1) show ?thesis by simp
  qed simp
qed

lemma finite_ir_edges: "finite (ir_edges ir)"
proof -
  have "ir_edges ir = (\<Union>s \<in> set (ir_States ir). \<Union>t \<in> set (si_Transitions s). {(si_Id s, ti_TargetState t)})"
    by (auto simp: ir_edges_def)
  then show ?thesis by simp
qed

lemma ir_closed_reach:
  assumes "ir_closed ir" shows "(ir_edges ir)\<^sup>* `` {ir_InitialState ir} \<subseteq> set (ir_ids ir)"
proof -
  have "y \<in> set (ir_ids ir)" if "(ir_InitialState ir, y) \<in> (ir_edges ir)\<^sup>*" for y
    using that assms by (induction rule: rtrancl_induct) (auto simp: ir_closed_def)
  then show ?thesis by auto
qed

lemma Run_acyclic:
  assumes "ir_closed ir" "acyclic (ir_edges ir)" "length (ir_States ir) \<le> n"
  shows "\<exists>out. Run env ir n = Some out"
proof -
  have "card ((ir_edges ir)\<^sup>* `` {ir_InitialState ir}) \<le> card (set (ir_ids ir))"
    by (rule card_mono [OF _ ir_closed_reach[OF assms(1)]]) simp
  also have "\<dots> \<le> length (ir_States ir)" using card_length[of "ir_ids ir"] by (simp add: ir_ids_def)
  finally have "\<exists>out. run_loop env ir (length (ir_States ir)) (run_init ir) = Some out"
    using run_loop_acyclic[OF assms(2) finite_ir_edges run_inv_init] by (simp add: run_init_def)
  with assms(3) show ?thesis unfolding Run_def by (meson run_loop_mono)
qed

text \<open>The run of a closed workflow without cycles ends, whatever the environment answers, after
  at most as many turns as there are states; more turns do not change the result.\<close>

theorem Run_acyclic_terminates:
  assumes "ir_closed ir" "acyclic (ir_edges ir)" "length (ir_States ir) \<le> n"
  shows "\<exists>out. Run env ir n = Some out"
  by (rule Run_acyclic [OF assms])

section \<open>Guards with the program cache\<close>

text \<open>\<^verbatim>\<open>evalGuard\<close> with its cache of compiled programs; \<open>compile\<close> and \<open>evalp\<close> stand for the CEL
  library.\<close>

definition evalGuard_cached ::
  "(string \<Rightarrow> 'p option) \<Rightarrow> ('p \<Rightarrow> (string, string) gomap \<Rightarrow> bool option) \<Rightarrow> (string, 'p) gomap
   \<Rightarrow> string \<Rightarrow> (string, string) gomap \<Rightarrow> bool \<times> (string, 'p) gomap" where
  "evalGuard_cached compile evalp progCache expr ctx =
     (let e = TrimSpace expr; run = (\<lambda>p. case evalp p ctx of None \<Rightarrow> False | Some b \<Rightarrow> b) in
      if e = '''' then (False, progCache)
      else case map_of progCache e of
          Some prog \<Rightarrow> (run prog, progCache)
        | None \<Rightarrow>
            (case compile e of
               None \<Rightarrow> (False, progCache)
             | Some prog \<Rightarrow> (run prog, gm_put e prog progCache)))"

fun evalGuards_cached ::
  "(string \<Rightarrow> 'p option) \<Rightarrow> ('p \<Rightarrow> (string, string) gomap \<Rightarrow> bool option) \<Rightarrow> (string, 'p) gomap
   \<Rightarrow> (string \<times> (string, string) gomap) list \<Rightarrow> bool list" where
  "evalGuards_cached compile evalp cache [] = []"
| "evalGuards_cached compile evalp cache ((expr, ctx) # calls) =
     (case evalGuard_cached compile evalp cache expr ctx of
        (b, cache') \<Rightarrow> b # evalGuards_cached compile evalp cache' calls)"

definition cel_of :: "(string \<Rightarrow> 'p option) \<Rightarrow> ('p \<Rightarrow> (string, string) gomap \<Rightarrow> bool option)
   \<Rightarrow> string \<Rightarrow> (string, string) gomap \<Rightarrow> bool option" where
  "cel_of compile evalp e ctx = (case compile e of None \<Rightarrow> None | Some p \<Rightarrow> evalp p ctx)"

lemma evalGuard_cached_ok:
  assumes "map_of cache \<subseteq>\<^sub>m compile" "e_cel env = cel_of compile evalp"
  shows "fst (evalGuard_cached compile evalp cache expr ctx) = evalGuard env expr ctx \<and>
    map_of (snd (evalGuard_cached compile evalp cache expr ctx)) \<subseteq>\<^sub>m compile"
proof (cases "map_of cache (TrimSpace expr)")
  case (Some p)
  then have "compile (TrimSpace expr) = Some p" using assms(1) by (metis domI map_le_def)
  with Some assms show ?thesis by (simp add: evalGuard_cached_def evalGuard_def cel_of_def Let_def)
next
  case None
  with assms show ?thesis
    by (auto simp: evalGuard_cached_def evalGuard_def cel_of_def Let_def map_le_def split: option.splits)
qed

text \<open>The cache of compiled CEL programs is transparent: any sequence of guard evaluations
  through the cache gives the results of compiling every expression afresh.\<close>

theorem evalGuard_cache_transparent:
  assumes "e_cel env = cel_of compile evalp"
  shows "evalGuards_cached compile evalp [] calls = map (\<lambda>(expr, ctx). evalGuard env expr ctx) calls"
proof -
  have "evalGuards_cached compile evalp cache calls = map (\<lambda>(expr, ctx). evalGuard env expr ctx) calls"
    if "map_of cache \<subseteq>\<^sub>m compile" for cache
    using that
  proof (induction calls arbitrary: cache)
    case (Cons c calls)
    obtain expr ctx where c: "c = (expr, ctx)" by (cases c)
    obtain b cache' where e: "evalGuard_cached compile evalp cache expr ctx = (b, cache')" by fastforce
    from evalGuard_cached_ok[OF Cons.prems assms, of expr ctx] e Cons.IH[of cache'] c show ?case by simp
  qed simp
  then show ?thesis by simp
qed

section \<open>Values in templates\<close>

lemma is_ws_simps [simp]: "\<not> is_ws DQ" "\<not> is_ws (CHR ''{'')" "\<not> is_ws (CHR ''}'')" "\<not> is_ws (CHR '':'')"
  by (simp_all add: is_ws_def)

lemma str_body_quoted: "str_body (escape s @ DQ # r) = Some (to_valid_utf8 s, r)"
  by (rule escape_roundtrip)

lemma json_Unmarshal_one_field:
  "json_Unmarshal (''{'' @ quote p @ '':'' @ quote v @ ''}'') = Some (JObj [(to_valid_utf8 p, JStr (to_valid_utf8 v))])"
  by (simp add: json_Unmarshal_def jvalue.simps jmembers.simps quote_def str_body_quoted gm_put_def)


end
