(* ===== verification/Engine_Example.thy ===== *)
theory Engine_Example
  imports Compiler_Example Engine_Interpreter
begin

text \<open>
  The example workflow of the compiler executed by the interpreter, with instances of the
  interpreter's properties: an environment in which the capability answers, one in which it
  fails, and a workflow without cycles.
\<close>

definition ex_engine :: engine_env where
  "ex_engine = \<lparr>e_exec = (\<lambda>tr i. Inr \<lparr>res_EventType = ''summarize.completed'', res_Payload = ex_result\<rparr>),
     e_pub = (\<lambda>tr e. None), e_template = (\<lambda>t c. Inr t), e_cel = (\<lambda>e c. Some True)\<rparr>"

definition ex_engine_down :: engine_env where
  "ex_engine_down = ex_engine\<lparr>e_exec := (\<lambda>tr i. Inl (Errorf ''broker unavailable'' []))\<rparr>"

definition ex_two :: WorkflowIR where
  "ex_two = \<lparr>ir_WorkflowId = ''wf-2'', ir_Name = ''two'', ir_Namespace = ''default'', ir_ApiVersion = ''v1'',
     ir_CompiledAt = 0, ir_InitialState = ''a'',
     ir_States = [\<lparr>si_Id = ''a'', si_Type = STATE_TYPE_NORMAL,
         si_Actions = [\<lparr>ai_Capability = ''summarize'', ai_Timeout = None, ai_InputTemplateJson = ''{}'',
           ai_Async = False, ai_OutputBindings = [(''summary'', ''result'')], ai_InputBindings = []\<rparr>],
         si_Transitions = [\<lparr>ti_EventType = ''summarize.completed'', ti_TargetState = ''b'', ti_Conditions = []\<rparr>], si_Outputs = []\<rparr>,
       \<lparr>si_Id = ''b'', si_Type = STATE_TYPE_TERMINAL, si_Actions = [], si_Transitions = [],
         si_Outputs = [(''summary'', ''$.states.a.output.summary'')]\<rparr>],
     ir_IrVersion = ''v1''\<rparr>"

lemma ir_edges_UN: "ir_edges ir = (\<Union>s\<in>set (ir_States ir). (\<lambda>t. (si_Id s, ti_TargetState t)) ` set (si_Transitions s))"
  by (auto simp: ir_edges_def)

lemma ex_two_edges: "ir_edges ex_two = {(''a'', ''b'')}"
  by (simp add: ir_edges_UN ex_two_def)

lemma ex_two_closed: "ir_closed ex_two"
  by (simp add: ir_closed_def ex_two_edges) (simp add: ex_two_def ir_ids_def)

definition ex_s1 :: run_state where
  "ex_s1 = (case run_step ex_engine ex_two (run_init ex_two) of Inr s \<Rightarrow> s)"

definition ex_done :: StateIR where
  "ex_done = the (findState ex_two ''b'')"

lemma ex_turn1: "run_step ex_engine ex_two (run_init ex_two) = Inr ex_s1"
  unfolding ex_s1_def by code_simp

lemma ex_s1:
  "rs_cur ex_s1 = ''b''"
  "ResolveInputs (rs_data ex_s1) (run_scope ex_two) (si_Outputs ex_done) = Inr [(''summary'', ''ok'')]"
  by code_simp+

lemma ex_done: "findState ex_two ''b'' = Some ex_done" "si_Type ex_done = STATE_TYPE_TERMINAL"
  by (simp_all add: ex_done_def ex_two_def findState_def)

lemma ex_bounds: "enforceOutputBounds [(''summary'', ''ok'')] = None"
  by (simp add: enforceOutputBounds_def MaxOutputValueBytes_def MaxOutputsTotalBytes_def)

definition ex_run :: "(eng_error + (string, string) gomap) \<times> effect list" where
  "ex_run = the (Run ex_engine ex_two 3)"

lemma ex_run: "Run ex_engine ex_two 3 = Some (Inr [(''summary'', ''ok'')], snd ex_run)"
  unfolding ex_run_def Run_def
  by (simp add: eval_nat_numeral ex_turn1 run_step_def [of _ _ ex_s1] ex_s1 ex_done captureTerminalOutputs_def ex_bounds)


definition ex_run_down :: "(eng_error + (string, string) gomap) \<times> effect list" where
  "ex_run_down = the (Run ex_engine_down ex_two 3)"

definition ex_error :: eng_error where
  "ex_error = Wrapf ''engine-adapter: action %q: %w'' [FS ''summarize''] (Errorf ''broker unavailable'' [])"

lemma ex_run_down: "Run ex_engine_down ex_two 3 = Some (Inl ex_error, snd ex_run_down)"
  unfolding ex_run_down_def by code_simp

theorem Run_closed_errors_witness: "run_error ex_error"
  by (rule Run_closed_errors [OF ex_two_closed ex_run_down])

theorem Run_acyclic_terminates_witness: "\<exists>out. Run ex_engine_down ex_two 2 = Some out"
proof (rule Run_acyclic_terminates)
  show "ir_closed ex_two" by (rule ex_two_closed)
  show "acyclic (ir_edges ex_two)" by (simp add: ex_two_edges acyclic_insert acyclic_def [of "{}"])
  show "length (ir_States ex_two) \<le> 2" by (simp add: ex_two_def)
qed

theorem evalGuard_cache_transparent_witness:
  "evalGuards_cached (\<lambda>e. if e = ''ok'' then Some True else None) (\<lambda>p c. Some p) [] [(''ok'', []), ('' ok '', []), (''bad'', [])]
   = [True, True, False]"
proof -
  let ?env = "ex_engine\<lparr>e_cel := cel_of (\<lambda>e. if e = ''ok'' then Some True else None) (\<lambda>p c. Some p)\<rparr>"
  have "e_cel ?env = cel_of (\<lambda>e. if e = ''ok'' then Some True else None) (\<lambda>p c. Some p)" by simp
  from evalGuard_cache_transparent [OF this, of "[(''ok'', []), ('' ok '', []), (''bad'', [])]"] show ?thesis
    by (simp add: evalGuard_def TrimSpace_def is_space_def cel_of_def)
qed

definition ex_template :: engine_env where
  "ex_template = ex_engine\<lparr>e_template := (\<lambda>t c. Inr (''{'' @ quote ''prompt'' @ '':'' @ [DQ] @ gm_get '''' c ''review'' @ [DQ] @ ''}''))\<rparr>"


end
