(* ===== verification/Go_Encoding.thy ===== *)
theory Go_Encoding
  imports Go_Json
begin

text \<open>
  The encodings of the Go library the services use for tokens and identifiers:
  \<^verbatim>\<open>encoding/base64\<close> (\<^verbatim>\<open>StdEncoding\<close>) and \<^verbatim>\<open>encoding/hex\<close>, and the handling of
  \<^verbatim>\<open>json.RawMessage\<close>: the raw text of the members of an object and its compact form.
\<close>

section \<open>base64\<close>

text \<open>The alphabet: upper case, lower case, digits, plus and slash.\<close>

definition b64_char :: "nat \<Rightarrow> char" where
  "b64_char n =
     char_of (if n < 26 then n + 65 else if n < 52 then n + 71 else if n < 62 then n - 4
              else if n = 62 then 43 else 47)"

definition b64_val :: "char \<Rightarrow> nat option" where
  "b64_val c =
     (let n = byte c in
      if 65 \<le> n \<and> n \<le> 90 then Some (n - 65)
      else if 97 \<le> n \<and> n \<le> 122 then Some (n - 71)
      else if 48 \<le> n \<and> n \<le> 57 then Some (n + 4)
      else if n = 43 then Some 62
      else if n = 47 then Some 63
      else None)"

abbreviation PAD :: char where "PAD \<equiv> CHR ''=''"

fun b64_EncodeToString :: "string \<Rightarrow> string" where
  "b64_EncodeToString [] = []"
| "b64_EncodeToString [a] = [b64_char (byte a div 4), b64_char (byte a mod 4 * 16), PAD, PAD]"
| "b64_EncodeToString [a, b] =
     [b64_char (byte a div 4), b64_char (byte a mod 4 * 16 + byte b div 16), b64_char (byte b mod 16 * 4), PAD]"
| "b64_EncodeToString (a # b # c # r) =
     b64_char (byte a div 4) # b64_char (byte a mod 4 * 16 + byte b div 16) #
     b64_char (byte b mod 16 * 4 + byte c div 64) # b64_char (byte c mod 64) # b64_EncodeToString r"

text \<open>The decoder skips line breaks, then reads groups of four; padding ends the last group.\<close>

fun b64_quanta :: "string \<Rightarrow> string option" where
  "b64_quanta [] = Some []"
| "b64_quanta (a # b # c # d # r) =
     (case (b64_val a, b64_val b) of
        (Some w, Some x) \<Rightarrow>
          if c = PAD then (if d = PAD \<and> r = [] then Some [char_of (w * 4 + x div 16)] else None)
          else (case b64_val c of
             None \<Rightarrow> None
           | Some y \<Rightarrow>
               if d = PAD then
                 (if r = [] then Some [char_of (w * 4 + x div 16), char_of (x mod 16 * 16 + y div 4)] else None)
               else (case b64_val d of
                  None \<Rightarrow> None
                | Some z \<Rightarrow>
                    map_option (\<lambda>t. char_of (w * 4 + x div 16) # char_of (x mod 16 * 16 + y div 4) #
                      char_of (y mod 4 * 64 + z) # t) (b64_quanta r)))
      | _ \<Rightarrow> None)"
| "b64_quanta _ = None"

definition b64_DecodeString :: "string \<Rightarrow> string option" where
  "b64_DecodeString s = b64_quanta (filter (\<lambda>c. c \<noteq> CHR 0x0A \<and> c \<noteq> CHR 0x0D) s)"

lemma b64_char_cases:
  assumes "n < 64"
  shows "b64_val (b64_char n) = Some n" "b64_char n \<noteq> PAD" "b64_char n \<noteq> CHR 0x0A" "b64_char n \<noteq> CHR 0x0D"
proof -
  have b: "byte (b64_char n) = (if n < 26 then n + 65 else if n < 52 then n + 71 else if n < 62 then n - 4
              else if n = 62 then 43 else 47)"
    using assms by (simp add: b64_char_def)
  then show "b64_val (b64_char n) = Some n"
    using assms by (auto simp: b64_val_def Let_def)
  have "byte (b64_char n) \<noteq> byte PAD" "byte (b64_char n) \<noteq> byte (CHR 0x0A)" "byte (b64_char n) \<noteq> byte (CHR 0x0D)"
    using b by auto
  then show "b64_char n \<noteq> PAD" "b64_char n \<noteq> CHR 0x0A" "b64_char n \<noteq> CHR 0x0D" by metis+
qed

lemma byte_lt [simp]: "byte c < 256"
proof -
  have "byte c mod 256 = byte c" by (simp flip: of_char_of)
  then show ?thesis by (metis mod_less_divisor zero_less_numeral)
qed

lemma byte_div [simp]: "byte c div 4 < 64" "byte c div 16 < 16" "byte c div 64 < 4"
  by (simp_all add: div_less_iff_less_mult)

lemma b64_index_lt [simp]:
  "byte c mod 4 * 16 < 64" "byte c mod 16 * 4 < 64"
  "byte c mod 4 * 16 + byte d div 16 < 64" "byte c mod 16 * 4 + byte d div 64 < 64"
proof -
  have "byte c mod 4 < 4" "byte c mod 16 < 16" by simp_all
  moreover have "byte d div 16 < 16" "byte d div 64 < 4" by simp_all
  ultimately show "byte c mod 4 * 16 < 64" "byte c mod 16 * 4 < 64"
    "byte c mod 4 * 16 + byte d div 16 < 64" "byte c mod 16 * 4 + byte d div 64 < 64"
    by linarith+
qed

lemma group_div_mod: "y < k \<Longrightarrow> (m * k + y) div k = m" "y < k \<Longrightarrow> (m * k + y) mod k = (y :: nat)"
  by simp_all

lemma b64_bytes [simp]:
  "byte a div 4 * 4 + (byte a mod 4 * 16 + byte b div 16) div 16 = byte a"
  "byte a div 4 * 4 + byte a mod 4 * 16 div 16 = byte a"
  "(byte a mod 4 * 16 + byte b div 16) mod 16 * 16 + (byte b mod 16 * 4 + byte c div 64) div 4 = byte b"
  "(byte a mod 4 * 16 + byte b div 16) mod 16 * 16 + byte b mod 16 * 4 div 4 = byte b"
  "(byte b mod 16 * 4 + byte c div 64) mod 4 * 64 + byte c mod 64 = byte c"
  by (simp_all only: group_div_mod byte_div div_mult_mod_eq nonzero_mult_div_cancel_right)

lemma b64_quanta_encode: "b64_quanta (b64_EncodeToString s) = Some s"
  by (induction s rule: b64_EncodeToString.induct) (simp_all add: b64_char_cases)

lemma b64_encode_no_breaks:
  "c \<in> set (b64_EncodeToString s) \<Longrightarrow> c \<noteq> CHR 0x0A \<and> c \<noteq> CHR 0x0D"
  by (induction s rule: b64_EncodeToString.induct) (auto simp: b64_char_cases)

lemma b64_roundtrip [simp]: "b64_DecodeString (b64_EncodeToString s) = Some s"
proof -
  have "filter (\<lambda>c. c \<noteq> CHR 0x0A \<and> c \<noteq> CHR 0x0D) (b64_EncodeToString s) = b64_EncodeToString s"
    using b64_encode_no_breaks by (auto simp: filter_id_conv)
  then show ?thesis by (simp add: b64_DecodeString_def b64_quanta_encode)
qed

lemma b64_encode_Nil [simp]: "b64_EncodeToString s = [] \<longleftrightarrow> s = []"
  by (cases s rule: b64_EncodeToString.cases) auto

section \<open>hex\<close>

definition hex_EncodeToString :: "string \<Rightarrow> string" where
  "hex_EncodeToString s = concat (map (\<lambda>c. [hex_digit (byte c div 16), hex_digit (byte c mod 16)]) s)"

section \<open>Raw JSON messages\<close>

text \<open>\<^verbatim>\<open>json.Unmarshal\<close> into \<^verbatim>\<open>map[string]json.RawMessage\<close>: the text of every member's value.  A
  repeated key keeps its last value; \<open>null\<close> leaves the map nil.\<close>

definition raw_of :: "string \<Rightarrow> string \<Rightarrow> string" where
  "raw_of s r = take (length s - length r) s"

function raw_members :: "string \<Rightarrow> (string \<times> string) list" where
  "raw_members s =
     (case skip_ws s of
        q # qs \<Rightarrow>
          (case str_body qs of
             None \<Rightarrow> []
           | Some (k, r) \<Rightarrow>
               (case jvalue (tl (skip_ws r)) of
                  None \<Rightarrow> []
                | Some (v, r2) \<Rightarrow>
                    (k, raw_of (skip_ws (tl (skip_ws r))) r2) #
                    (case skip_ws r2 of
                       d # ds \<Rightarrow> if d = CHR '','' \<and> length ds < length s then raw_members ds else []
                     | [] \<Rightarrow> [])))
      | [] \<Rightarrow> [])"
  by pat_completeness auto
termination raw_members
  by (relation "measure length") auto

declare raw_members.simps [simp del]

definition Unmarshal_raw_map :: "string \<Rightarrow> (string \<times> string) list option" where
  "Unmarshal_raw_map s =
     (case json_Unmarshal s of
        Some (JObj []) \<Rightarrow> Some []
      | Some (JObj m) \<Rightarrow> Some (foldl (\<lambda>m (k, v). gm_put k v m) [] (raw_members (tl (skip_ws s))))
      | Some JNull \<Rightarrow> Some []
      | _ \<Rightarrow> None)"

text \<open>A raw message is marshalled in compact form: white space outside strings is dropped, and
  the characters that are special in HTML are escaped.\<close>

fun compact :: "bool \<Rightarrow> string \<Rightarrow> string" where
  "compact in_str [] = []"
| "compact in_str (c # cs) =
     (if c = CHR ''<'' \<or> c = CHR ''>'' \<or> c = CHR ''&'' then escape_u (byte c) @ compact in_str cs
      else if in_str \<and> c = BSL then
        (case cs of [] \<Rightarrow> [c] | d # ds \<Rightarrow> c # d # compact True ds)
      else if in_str \<and> byte c = 0xE2 \<and> take 1 cs = [CHR 0x80] \<and> 1 < length cs \<and>
              (cs ! 1 = CHR 0xA8 \<or> cs ! 1 = CHR 0xA9)
        then escape_u (if cs ! 1 = CHR 0xA8 then 0x2028 else 0x2029) @ compact True (drop 2 cs)
      else if c = DQ then c # compact (\<not> in_str) cs
      else if \<not> in_str \<and> is_ws c then compact False cs
      else c # compact in_str cs)"

definition json_Marshal_raw :: "(string \<times> string) list \<Rightarrow> string" where
  "json_Marshal_raw m =
     ''{'' @ commas (map (\<lambda>(k, raw). quote k @ '':'' @ compact False raw) (sort_fields m)) @ ''}''"

lemma gm_ok_Unmarshal_raw_map: "Unmarshal_raw_map s = Some m \<Longrightarrow> gm_ok m"
proof -
  have "gm_ok (foldl (\<lambda>m (k, v). gm_put k v m) acc ms)" if "gm_ok acc" for acc ms :: "(string \<times> string) list"
    using that by (induction ms arbitrary: acc) auto
  then show "Unmarshal_raw_map s = Some m \<Longrightarrow> gm_ok m"
    by (auto simp: Unmarshal_raw_map_def split: option.splits json.splits list.splits)
qed

lemma sort_key_map_of:
  fixes m m' :: "(string \<times> 'a) list"
  assumes "gm_ok m" "gm_ok m'" "map_of m = map_of m'"
  shows "sort_fields m = sort_fields m'"
proof -
  have eq: "set m = set m'" by (rule map_of_eq_set_eq [OF assms])
  have "inj_on fst (set m)" "distinct m" "distinct m'"
    using assms(1,2) by (simp_all add: gm_ok_def distinct_map)
  with eq show ?thesis unfolding sort_fields_def
    by (intro map_sorted_distinct_set_unique [of fst]) (auto simp: distinct_map)
qed

section \<open>Decoding into structs\<close>

text \<open>A struct is decoded from a JSON object by the names of its fields, which match up to case;
  the last of several matching members counts.\<close>

text \<open>The member a struct field is decoded from.\<close>

definition struct_field :: "string \<Rightarrow> (string \<times> json) list \<Rightarrow> json" where
  "struct_field name m =
     (case filter (\<lambda>(k, v). EqualFold k name) (rev m) of [] \<Rightarrow> JNull | (k, v) # _ \<Rightarrow> v)"

text \<open>Decoding into a struct, a string slice and an integer.  \<open>None\<close> is a type error; \<open>null\<close>
  leaves the zero value.\<close>

definition decode_struct :: "json \<Rightarrow> (string \<times> json) list option" where
  "decode_struct j = (case j of JObj m \<Rightarrow> Some m | JNull \<Rightarrow> Some [] | _ \<Rightarrow> None)"

definition decode_string :: "json \<Rightarrow> string option" where
  "decode_string j = (case j of JStr s \<Rightarrow> Some s | JNull \<Rightarrow> Some '''' | _ \<Rightarrow> None)"

definition decode_strings :: "json \<Rightarrow> string list option option" where
  "decode_strings j =
     (case j of JNull \<Rightarrow> Some None
      | JArr js \<Rightarrow> map_option Some (the_all (map decode_string js))
      | _ \<Rightarrow> None)"

definition decode_int :: "json \<Rightarrow> int option" where
  "decode_int j =
     (case j of JNull \<Rightarrow> Some 0
      | JNum t \<Rightarrow> (case Atoi t of (n, True) \<Rightarrow> Some n | _ \<Rightarrow> None)
      | _ \<Rightarrow> None)"

lemma struct_field_map_of:
  assumes "gm_ok m" "\<And>k v. (k, v) \<in> set m \<Longrightarrow> EqualFold k name \<longleftrightarrow> k = name"
  shows "struct_field name m = (case map_of m name of None \<Rightarrow> JNull | Some v \<Rightarrow> v)"
proof -
  have "filter (\<lambda>(k, v). EqualFold k name) (rev m) = rev (filter (\<lambda>(k, v). k = name) m)"
    using assms(2) by (simp add: rev_filter [symmetric]) (auto intro!: filter_cong)
  moreover have "filter (\<lambda>(k, v). k = name) m = (case map_of m name of None \<Rightarrow> [] | Some v \<Rightarrow> [(name, v)])"
    using assms(1) by (induction m) (auto simp: map_of_eq_None_iff split: option.split dest: map_of_SomeD)
  ultimately show ?thesis by (simp add: struct_field_def split: option.split)
qed

section \<open>An object of strings is read back\<close>

definition print_members :: "(string \<times> string) list \<Rightarrow> string" where
  "print_members ms = ''{'' @ commas (map (\<lambda>(k, v). quote k @ '':'' @ quote v) ms) @ ''}''"

lemma commas_Cons2: "commas (x # y # ys) = x @ CHR '','' # commas (y # ys)"
  by (simp add: commas_def)

lemma punctuation_not_ws:
  "\<not> is_ws DQ" "\<not> is_ws (CHR ''{'')" "\<not> is_ws (CHR ''}'')" "\<not> is_ws (CHR '':'')" "\<not> is_ws (CHR '','')"
  by (simp_all add: is_ws_def)

lemma jmembers_member:
  "jmembers (quote k @ '':'' @ quote v @ d # ds) =
     (if d = CHR ''}'' then Some ([(to_valid_utf8 k, JStr (to_valid_utf8 v))], ds)
      else if d = CHR '','' then map_option (apfst ((#) (to_valid_utf8 k, JStr (to_valid_utf8 v)))) (jmembers ds)
      else None)" if "\<not> is_ws d"
  using that
  by (subst jmembers.simps) (simp add: quote_def escape_roundtrip jvalue.simps punctuation_not_ws)

lemma jmembers_print:
  "ms \<noteq> [] \<Longrightarrow> jmembers (commas (map (\<lambda>(k, v). quote k @ '':'' @ quote v) ms) @ CHR ''}'' # r) =
     Some (map (\<lambda>(k, v). (to_valid_utf8 k, JStr (to_valid_utf8 v))) ms, r)"
proof (induction ms)
  case (Cons p ms)
  obtain k v where p: "p = (k, v)" by fastforce
  show ?case
  proof (cases ms)
    case Nil
    then show ?thesis
      using jmembers_member [of "CHR ''}''" k v r] by (simp add: p commas_def punctuation_not_ws)
  next
    case (Cons q qs)
    have "jmembers (commas (map (\<lambda>(k, v). quote k @ '':'' @ quote v) ms) @ CHR ''}'' # r) =
        Some (map (\<lambda>(k, v). (to_valid_utf8 k, JStr (to_valid_utf8 v))) ms, r)"
      using Cons.IH Cons by simp
    then show ?thesis
      using jmembers_member [of "CHR '',''" k v "commas (map (\<lambda>(k, v). quote k @ '':'' @ quote v) ms) @ CHR ''}'' # r"]
      by (simp add: p Cons commas_Cons2 punctuation_not_ws)
  qed
qed simp

lemma json_Unmarshal_print:
  assumes "ms \<noteq> []" "distinct (map (to_valid_utf8 \<circ> fst) ms)"
  shows "json_Unmarshal (print_members ms) = Some (JObj (map (\<lambda>(k, v). (to_valid_utf8 k, JStr (to_valid_utf8 v))) ms))"
proof -
  have put: "foldl (\<lambda>m (k, v). gm_put k v m) acc xs = acc @ xs"
    if "distinct (map fst (acc @ xs))" for acc xs :: "(string \<times> json) list"
    using that
  proof (induction xs arbitrary: acc)
    case (Cons x xs)
    have "gm_put (fst x) (snd x) acc = acc @ [x]" if "fst x \<notin> fst ` set acc" for acc
      using that by (induction acc) (auto simp: gm_put_def)
    with Cons show ?case by (simp add: case_prod_beta)
  qed simp
  define body where "body = commas (map (\<lambda>(k, v). quote k @ '':'' @ quote v) ms)"
  obtain p qs where "ms = p # qs" using assms(1) by (cases ms) auto
  then obtain cs where cs: "body = DQ # cs"
    by (cases p) (auto simp: body_def commas_def quote_def)
  have m: "jmembers (body @ ''}'') = Some (map (\<lambda>(k, v). (to_valid_utf8 k, JStr (to_valid_utf8 v))) ms, [])"
    unfolding body_def by (rule jmembers_print [OF assms(1)])
  have "print_members ms = CHR ''{'' # body @ ''}''" by (simp add: print_members_def body_def)
  moreover have "jvalue (CHR ''{'' # body @ ''}'') =
      map_option (apfst (\<lambda>ms. JObj (foldl (\<lambda>m (k, v). gm_put k v m) [] ms))) (jmembers (body @ ''}''))"
    by (subst jvalue.simps) (simp add: cs punctuation_not_ws)
  ultimately have "jvalue (print_members ms) = Some (JObj (map (\<lambda>(k, v). (to_valid_utf8 k, JStr (to_valid_utf8 v))) ms), [])"
    using put [of "[]"] assms(2) by (simp add: m comp_def case_prod_beta)
  then show ?thesis by (simp add: json_Unmarshal_def)
qed

end
