(* ===== verification/Broker_Task.thy ===== *)
theory Broker_Task
  imports Go_Encoding "HOL-Library.Word" "HOL-Library.Product_Lexorder"
begin

text \<open>
  The task records of the broker (\<^verbatim>\<open>services/task-broker/internal/domain\<close>: \<^verbatim>\<open>model.go\<close>,
  \<^verbatim>\<open>errors.go\<close>, \<^verbatim>\<open>ports.go\<close>) and the in-memory repository
  (\<^verbatim>\<open>infrastructure/memory_repo.go\<close>).

  A status, a retry count and a page size are 32-bit words read as signed integers; a time
  is the number of nanoseconds since Go's zero time, so that \<open>0\<close> is the zero time.  Tasks are
  values: a repository that stores and hands out copies stores and hands out the value.
\<close>

section \<open>Tasks\<close>

type_synonym int32 = "32 word"
type_synonym TaskStatus = int32
type_synonym time = int

definition TaskStatusUnspecified :: TaskStatus where "TaskStatusUnspecified = 0"
definition TaskStatusPending :: TaskStatus where "TaskStatusPending = 1"
definition TaskStatusDispatched :: TaskStatus where "TaskStatusDispatched = 2"
definition TaskStatusRetrying :: TaskStatus where "TaskStatusRetrying = 3"
definition TaskStatusCompleted :: TaskStatus where "TaskStatusCompleted = 4"
definition TaskStatusFailed :: TaskStatus where "TaskStatusFailed = 5"
definition TaskStatusCancelled :: TaskStatus where "TaskStatusCancelled = 6"

lemmas status_defs =
  TaskStatusUnspecified_def TaskStatusPending_def TaskStatusDispatched_def TaskStatusRetrying_def
  TaskStatusCompleted_def TaskStatusFailed_def TaskStatusCancelled_def

definition IsTerminal :: "TaskStatus \<Rightarrow> bool" where
  "IsTerminal s \<longleftrightarrow> s = TaskStatusCompleted \<or> s = TaskStatusFailed \<or> s = TaskStatusCancelled"

definition TaskStatus_String :: "TaskStatus \<Rightarrow> string" where
  "TaskStatus_String s =
     (if s = TaskStatusPending then ''PENDING''
      else if s = TaskStatusDispatched then ''DISPATCHED''
      else if s = TaskStatusRetrying then ''RETRYING''
      else if s = TaskStatusCompleted then ''COMPLETED''
      else if s = TaskStatusFailed then ''FAILED''
      else if s = TaskStatusCancelled then ''CANCELLED''
      else ''UNSPECIFIED'')"

record TaskError =
  te_Code :: string
  te_Message :: string
  te_Details :: "(string, string) gomap"

record Task =
  t_TaskID :: string
  t_WorkflowID :: string
  t_CapabilityName :: string
  t_InputPayload :: string
  t_TimeoutSeconds :: int32
  t_MaxRetries :: int32
  t_RetryCount :: int32
  t_Status :: TaskStatus
  t_DispatchedTo :: string
  t_ResultPayload :: string
  t_Error :: "TaskError option"
  t_CreatedAt :: time
  t_DispatchedAt :: time
  t_CompletedAt :: time

record AgentInfo =
  ag_AgentID :: string
  ag_Name :: string
  ag_Endpoint :: string
  ag_InputSchema :: string

record ListFilter =
  lf_WorkflowID :: string
  lf_Status :: TaskStatus
  lf_AgentID :: string
  lf_PageToken :: string
  lf_PageSize :: int32

record ListResult =
  lr_Tasks :: "Task list"
  lr_NextPageToken :: string

datatype broker_err =
    ErrTaskNotFound | ErrNoEligibleAgent | ErrTaskTerminal | ErrInvalidArgument
  | ErrCanceled | ErrDeadlineExceeded

type_synonym broker_error = "broker_err go_error"

text \<open>The repository port.  A listing is \<open>None\<close> when the call panics.\<close>

record 's TaskRepository =
  r_Save :: "'s \<Rightarrow> Task \<Rightarrow> broker_error option \<times> 's"
  r_GetByID :: "'s \<Rightarrow> string \<Rightarrow> broker_error + Task"
  r_Update :: "'s \<Rightarrow> Task \<Rightarrow> broker_error option \<times> 's"
  r_List :: "'s \<Rightarrow> ListFilter \<Rightarrow> (broker_error + ListResult) option"

text \<open>What a repository promises, in terms of the tasks it holds (\<open>abs\<close>): a task that is read is
  the one held, a write that succeeds changes the one task, a write that fails changes
  nothing.\<close>

locale task_repository =
  fixes R :: "'s TaskRepository" and ok :: "'s \<Rightarrow> bool" and abs :: "'s \<Rightarrow> string \<rightharpoonup> Task"
  assumes abs_id: "ok s \<Longrightarrow> abs s i = Some t \<Longrightarrow> t_TaskID t = i"
    and get_ok: "ok s \<Longrightarrow> r_GetByID R s i = Inr t \<Longrightarrow> abs s i = Some t"
    and get_unknown: "ok s \<Longrightarrow> r_GetByID R s i = Inl e \<Longrightarrow> errors_Is e ErrTaskNotFound \<Longrightarrow> abs s i = None"
    and save_ok: "ok s \<Longrightarrow> r_Save R s t = (None, s') \<Longrightarrow> ok s' \<and> abs s' = (abs s)(t_TaskID t \<mapsto> t)"
    and save_err: "ok s \<Longrightarrow> r_Save R s t = (Some e, s') \<Longrightarrow> ok s' \<and> abs s' = abs s"
    and update_ok: "ok s \<Longrightarrow> r_Update R s t = (None, s') \<Longrightarrow>
          ok s' \<and> t_TaskID t \<in> dom (abs s) \<and> abs s' = (abs s)(t_TaskID t \<mapsto> t)"
    and update_err: "ok s \<Longrightarrow> r_Update R s t = (Some e, s') \<Longrightarrow> ok s' \<and> abs s' = abs s"

text \<open>A repository without failures of its own: a task that is held is found and can be
  written.\<close>

locale reliable_repository = task_repository +
  assumes get_found: "ok s \<Longrightarrow> abs s i = Some t \<Longrightarrow> r_GetByID R s i = Inr t"
    and get_missing: "ok s \<Longrightarrow> abs s i = None \<Longrightarrow>
          r_GetByID R s i = Inl (Wrapf ''%w: %q'' [FS i] (Typed ErrTaskNotFound))"
    and save_total: "ok s \<Longrightarrow> fst (r_Save R s t) = None"
    and update_total: "ok s \<Longrightarrow> t_TaskID t \<in> dom (abs s) \<Longrightarrow> fst (r_Update R s t) = None"

section \<open>The in-memory repository\<close>

record memoryRepo =
  mr_tasks :: "(string, Task) gomap"

definition defaultPageSize :: int where "defaultPageSize = 50"
definition maxPageSize :: int where "maxPageSize = 500"

definition NewMemoryRepo :: memoryRepo where
  "NewMemoryRepo = \<lparr>mr_tasks = []\<rparr>"

definition mr_Save :: "memoryRepo \<Rightarrow> Task \<Rightarrow> broker_error option \<times> memoryRepo" where
  "mr_Save r task = (None, r\<lparr>mr_tasks := gm_put (t_TaskID task) task (mr_tasks r)\<rparr>)"

definition mr_GetByID :: "memoryRepo \<Rightarrow> string \<Rightarrow> broker_error + Task" where
  "mr_GetByID r taskID =
     (case map_of (mr_tasks r) taskID of
        None \<Rightarrow> Inl (Wrapf ''%w: %q'' [FS taskID] (Typed ErrTaskNotFound))
      | Some t \<Rightarrow> Inr t)"

definition mr_Update :: "memoryRepo \<Rightarrow> Task \<Rightarrow> broker_error option \<times> memoryRepo" where
  "mr_Update r task =
     (if \<not> gm_has (mr_tasks r) (t_TaskID task)
      then (Some (Wrapf ''%w: %q'' [FS (t_TaskID task)] (Typed ErrTaskNotFound)), r)
      else (None, r\<lparr>mr_tasks := gm_put (t_TaskID task) task (mr_tasks r)\<rparr>))"

definition encodePageToken :: "int \<Rightarrow> string" where
  "encodePageToken offset = b64_EncodeToString (Itoa offset)"

definition decodePageToken :: "string \<Rightarrow> broker_error + int" where
  "decodePageToken token =
     (case b64_DecodeString token of
        None \<Rightarrow> Inl (Errorf ''base64 decode: %w'' [])
      | Some b \<Rightarrow> (case Atoi b of
            (n, True) \<Rightarrow> Inr n
          | (_, False) \<Rightarrow> Inl (Errorf ''parse offset: %w'' [])))"

definition page_size :: "int32 \<Rightarrow> int" where
  "page_size n =
     (let ps = (if sint n \<le> 0 then defaultPageSize else sint n)
      in if ps > maxPageSize then maxPageSize else ps)"

definition filter_matches :: "ListFilter \<Rightarrow> Task \<Rightarrow> bool" where
  "filter_matches f t \<longleftrightarrow>
     \<not> (lf_WorkflowID f \<noteq> '''' \<and> t_WorkflowID t \<noteq> lf_WorkflowID f) \<and>
     \<not> (lf_Status f \<noteq> TaskStatusUnspecified \<and> t_Status t \<noteq> lf_Status f) \<and>
     \<not> (lf_AgentID f \<noteq> '''' \<and> t_DispatchedTo t \<noteq> lf_AgentID f)"

definition task_key :: "Task \<Rightarrow> int \<times> string" where
  "task_key t = (t_CreatedAt t, t_TaskID t)"

definition matched_tasks :: "memoryRepo \<Rightarrow> ListFilter \<Rightarrow> Task list" where
  "matched_tasks r f = sort_key task_key (filter (filter_matches f) (map snd (mr_tasks r)))"

text \<open>The page from an offset on.  A negative offset is out of the range of the slice
  expression, which panics.\<close>

definition list_page :: "Task list \<Rightarrow> int \<Rightarrow> int \<Rightarrow> ListResult option" where
  "list_page matched offset pageSize =
     (let tot = int (length matched) in
      if offset \<ge> tot then Some \<lparr>lr_Tasks = [], lr_NextPageToken = ''''\<rparr>
      else if offset < 0 then None
      else let end0 = offset + pageSize;
               hasMore = (end0 < tot);
               end1 = (if end0 > tot then tot else end0)
           in Some \<lparr>lr_Tasks = take (nat (end1 - offset)) (drop (nat offset) matched),
                    lr_NextPageToken = (if hasMore then encodePageToken end1 else '''')\<rparr>)"

definition mr_List :: "memoryRepo \<Rightarrow> ListFilter \<Rightarrow> (broker_error + ListResult) option" where
  "mr_List r f =
     (case (if lf_PageToken f \<noteq> '''' then decodePageToken (lf_PageToken f) else Inr 0) of
        Inl err \<Rightarrow> Some (Inl (Wrapf ''task-broker: invalid page_token: %w'' [] err))
      | Inr offset \<Rightarrow> map_option Inr (list_page (matched_tasks r f) offset (page_size (lf_PageSize f))))"

definition memory_repo :: "memoryRepo TaskRepository" where
  "memory_repo = \<lparr>r_Save = mr_Save, r_GetByID = mr_GetByID, r_Update = mr_Update, r_List = mr_List\<rparr>"

definition mr_ok :: "memoryRepo \<Rightarrow> bool" where
  "mr_ok r \<longleftrightarrow> gm_ok (mr_tasks r) \<and> (\<forall>(i, t) \<in> set (mr_tasks r). t_TaskID t = i)"

definition mr_abs :: "memoryRepo \<Rightarrow> string \<rightharpoonup> Task" where
  "mr_abs r = map_of (mr_tasks r)"

lemma mr_ok_put: "mr_ok r \<Longrightarrow> mr_ok (r\<lparr>mr_tasks := gm_put (t_TaskID t) t (mr_tasks r)\<rparr>)"
  by (auto simp: mr_ok_def dest!: in_set_gm_put)

interpretation mem: reliable_repository memory_repo mr_ok mr_abs
proof unfold_locales
  fix s :: memoryRepo and i :: string and t :: Task
  assume "mr_ok s" "mr_abs s i = Some t"
  then show "t_TaskID t = i" by (auto simp: mr_ok_def mr_abs_def dest!: map_of_SomeD)
qed (auto simp: memory_repo_def mr_Save_def mr_GetByID_def mr_Update_def mr_abs_def mr_ok_put gm_has_def
    split: option.splits if_splits)

section \<open>Pages\<close>

lemma encodePageToken_not_Nil [simp]: "encodePageToken n \<noteq> ''''"
  by (auto simp: encodePageToken_def Itoa_def show_nat_not_Nil)

lemma decode_encodePageToken:
  "MinInt64 \<le> n \<Longrightarrow> n \<le> MaxInt64 \<Longrightarrow> decodePageToken (encodePageToken n) = Inr n"
  by (simp add: decodePageToken_def encodePageToken_def Atoi_Itoa)

lemma page_size_pos: "0 < page_size n" "page_size n \<le> 500"
  by (simp_all add: page_size_def defaultPageSize_def maxPageSize_def Let_def)

lemma filter_matches_token [simp]: "filter_matches (f\<lparr>lf_PageToken := tok\<rparr>) = filter_matches f" for f :: ListFilter
  by (simp add: fun_eq_iff filter_matches_def)

lemma matched_tasks_token [simp]: "matched_tasks r (f\<lparr>lf_PageToken := tok\<rparr>) = matched_tasks r f" for f :: ListFilter
  by (simp add: matched_tasks_def)

text \<open>The token of the page that starts at an offset.\<close>

definition page_token :: "nat \<Rightarrow> string" where
  "page_token k = (if k = 0 then '''' else encodePageToken (int k))"

lemma mr_List_page:
  fixes f :: ListFilter
  assumes "k < length (matched_tasks r f)" "int (length (matched_tasks r f)) \<le> MaxInt64"
  shows "mr_List r (f\<lparr>lf_PageToken := page_token k\<rparr>) =
    Some (Inr \<lparr>lr_Tasks = take (nat (page_size (lf_PageSize f))) (drop k (matched_tasks r f)),
      lr_NextPageToken = (if k + nat (page_size (lf_PageSize f)) < length (matched_tasks r f)
        then page_token (k + nat (page_size (lf_PageSize f))) else '''')\<rparr>)"
proof -
  let ?L = "matched_tasks r f" and ?p = "page_size (lf_PageSize f)"
  have tok: "(if page_token k \<noteq> '''' then decodePageToken (page_token k) else Inr 0) = Inr (int k)"
    using assms by (simp add: page_token_def decode_encodePageToken)
  have p: "0 < ?p" by (rule page_size_pos)
  have "list_page ?L (int k) ?p = Some \<lparr>lr_Tasks = take (nat ?p) (drop k ?L),
      lr_NextPageToken = (if k + nat ?p < length ?L then page_token (k + nat ?p) else '''')\<rparr>"
    using assms(1) p by (auto simp: list_page_def page_token_def Let_def nat_add_distrib nat_diff_distrib)
  moreover have "lf_PageToken (f\<lparr>lf_PageToken := page_token k\<rparr>) = page_token k"
    "lf_PageSize (f\<lparr>lf_PageToken := page_token k\<rparr>) = lf_PageSize f" by simp_all
  ultimately show ?thesis unfolding mr_List_def by (simp only: tok sum.case matched_tasks_token option.map)
qed

lemma mr_List_empty:
  fixes f :: ListFilter
  assumes "matched_tasks r f = []"
  shows "mr_List r (f\<lparr>lf_PageToken := ''''\<rparr>) = Some (Inr \<lparr>lr_Tasks = [], lr_NextPageToken = ''''\<rparr>)"
  by (simp add: mr_List_def list_page_def assms)

text \<open>A client that follows the tokens until the last page.\<close>

fun collect_pages :: "nat \<Rightarrow> memoryRepo \<Rightarrow> ListFilter \<Rightarrow> Task list option" where
  "collect_pages 0 r f = None"
| "collect_pages (Suc n) r f =
     (case mr_List r f of
        Some (Inr res) \<Rightarrow>
          if lr_NextPageToken res = '''' then Some (lr_Tasks res)
          else map_option ((@) (lr_Tasks res)) (collect_pages n r (f\<lparr>lf_PageToken := lr_NextPageToken res\<rparr>))
      | _ \<Rightarrow> None)"

lemma collect_pages_from:
  fixes f :: ListFilter
  assumes "int (length (matched_tasks r f)) \<le> MaxInt64"
  shows "k < length (matched_tasks r f) \<Longrightarrow> length (matched_tasks r f) - k \<le> n \<Longrightarrow>
    collect_pages n r (f\<lparr>lf_PageToken := page_token k\<rparr>) = Some (drop k (matched_tasks r f))"
proof (induction n arbitrary: k)
  case (Suc n)
  let ?L = "matched_tasks r f" and ?p = "nat (page_size (lf_PageSize f))"
  have p: "0 < ?p" using page_size_pos(1) by simp
  note page = mr_List_page [OF Suc.prems(1) assms]
  show ?case
  proof (cases "k + ?p < length ?L")
    case True
    then have "collect_pages n r (f\<lparr>lf_PageToken := page_token (k + ?p)\<rparr>) = Some (drop (k + ?p) ?L)"
      using Suc.prems(2) p by (intro Suc.IH) auto
    moreover have "page_token (k + ?p) \<noteq> ''''" using p by (simp add: page_token_def)
    moreover have "take ?p (drop k ?L) @ drop (k + ?p) ?L = drop k ?L"
      by (metis add.commute append_take_drop_id drop_drop)
    ultimately show ?thesis
      using True by (simp add: page)
  next
    case False
    then show ?thesis by (simp add: page)
  qed
qed simp

lemma set_matched_tasks:
  "mr_ok r \<Longrightarrow> set (matched_tasks r f) = {t. mr_abs r (t_TaskID t) = Some t \<and> filter_matches f t}"
  by (force simp: matched_tasks_def mr_abs_def mr_ok_def gm_ok_in_set [symmetric])

lemma distinct_matched_tasks: "mr_ok r \<Longrightarrow> distinct (map t_TaskID (matched_tasks r f))"
proof -
  assume ok: "mr_ok r"
  then have "map t_TaskID (map snd (mr_tasks r)) = map fst (mr_tasks r)"
    by (auto simp: mr_ok_def)
  with ok have "distinct (map t_TaskID (map snd (mr_tasks r)))"
    by (simp only: mr_ok_def gm_ok_def)
  then show ?thesis by (auto simp: matched_tasks_def distinct_map inj_on_def)
qed

text \<open>C24 Following the page tokens from the first page gives every stored task that matches the
  filter exactly once, oldest first, whatever the page size asked for.\<close>

theorem pages_cover:
  fixes f :: ListFilter
  assumes "mr_ok r" "int (length (mr_tasks r)) \<le> MaxInt64"
  shows "\<exists>ts. collect_pages (Suc (length (mr_tasks r))) r (f\<lparr>lf_PageToken := ''''\<rparr>) = Some ts \<and>
    set ts = {t. mr_abs r (t_TaskID t) = Some t \<and> filter_matches f t} \<and>
    distinct (map t_TaskID ts) \<and> sorted (map t_CreatedAt ts)"
proof -
  let ?L = "matched_tasks r f"
  have len: "length ?L \<le> length (mr_tasks r)" unfolding matched_tasks_def
    by (metis length_filter_le length_map length_sort)
  have "sorted_wrt (\<lambda>x y. task_key x \<le> task_key y) ?L"
    using sorted_sort_key [of task_key "filter (filter_matches f) (map snd (mr_tasks r))"]
    by (simp only: sorted_map matched_tasks_def)
  then have sorted: "sorted (map t_CreatedAt ?L)" unfolding sorted_map
    by (rule sorted_wrt_mono_rel [rotated]) (auto simp: task_key_def less_eq_prod_def)
  have "collect_pages (Suc (length (mr_tasks r))) r (f\<lparr>lf_PageToken := ''''\<rparr>) = Some ?L"
  proof (cases "?L = []")
    case True
    then show ?thesis by (simp add: mr_List_empty)
  next
    case False
    then show ?thesis
      using collect_pages_from [of r f 0 "Suc (length (mr_tasks r))"] assms(2) len by (simp add: page_token_def)
  qed
  with sorted set_matched_tasks [OF assms(1)] distinct_matched_tasks [OF assms(1)] show ?thesis by blast
qed

end
