(* ===== verification/Broker_Slice.thy ===== *)
theory Broker_Slice
  imports Broker_Task
begin

text \<open>
  Context slices (\<^verbatim>\<open>services/task-broker/internal/domain/contextslice.go\<close>): a payload that
  names an expert is rewritten to carry exactly the slice the expert declares in its input
  schema.
\<close>

record ContextSlice =
  cs_Files :: "string list"
  cs_MaxTokens :: int

definition expertTarget :: "string \<Rightarrow> string option" where
  "expertTarget payload =
     (case Unmarshal_raw_map payload of
        None \<Rightarrow> None
      | Some flds \<Rightarrow>
          (case map_of flds ''expert'' of
             None \<Rightarrow> None
           | Some raw \<Rightarrow> (case json_Unmarshal raw of
                 Some (JStr expert) \<Rightarrow> if expert = '''' then None else Some expert
               | _ \<Rightarrow> None)))"

fun selectExpert :: "AgentInfo list \<Rightarrow> string \<Rightarrow> AgentInfo option" where
  "selectExpert [] expert = None"
| "selectExpert (a # agents) expert =
     (if ag_Name a = expert \<or> ag_AgentID a = expert then Some a else selectExpert agents expert)"

definition decode_decl :: "json \<Rightarrow> (string list option \<times> int) option" where
  "decode_decl j =
     (case decode_struct j of None \<Rightarrow> None | Some decl \<Rightarrow>
      (case decode_struct (struct_field ''properties'' decl) of None \<Rightarrow> None | Some props \<Rightarrow>
       (case (decode_struct (struct_field ''files'' props), decode_struct (struct_field ''max_tokens'' props)) of
          (Some files, Some toks) \<Rightarrow>
            (case (decode_strings (struct_field ''default'' files), decode_int (struct_field ''default'' toks)) of
               (Some fs, Some n) \<Rightarrow> Some (fs, n)
             | _ \<Rightarrow> None)
        | _ \<Rightarrow> None)))"

definition declaredSlice :: "string \<Rightarrow> broker_error + ContextSlice option" where
  "declaredSlice inputSchema =
     (if inputSchema = '''' then Inr None
      else case Option.bind (Option.bind (json_Unmarshal inputSchema) decode_struct)
                  (\<lambda>schema. decode_struct (struct_field ''properties'' schema)) of
          None \<Rightarrow> Inl (Errorf ''parse input_schema: %w'' [])
        | Some properties \<Rightarrow>
            (case map_of properties ''context_slice'' of
               None \<Rightarrow> Inr None
             | Some raw \<Rightarrow>
                 (case decode_decl raw of
                    None \<Rightarrow> Inl (Errorf ''parse context_slice declaration: %w'' [])
                  | Some (None, n) \<Rightarrow> Inr None
                  | Some (Some fs, n) \<Rightarrow> Inr (Some \<lparr>cs_Files = fs, cs_MaxTokens = n\<rparr>))))"

definition marshal_slice :: "ContextSlice \<Rightarrow> string" where
  "marshal_slice sl =
     ''{'' @ quote ''files'' @ '':'' @ json_print (JArr (map JStr (cs_Files sl))) @ '','' @
     quote ''max_tokens'' @ '':'' @ Itoa (cs_MaxTokens sl) @ ''}''"

text \<open>The payload of an expert dispatch is an object, so its map is never nil.\<close>

definition bindContextSlice :: "string \<Rightarrow> ContextSlice option \<Rightarrow> broker_error + string" where
  "bindContextSlice payload sl =
     (case Unmarshal_raw_map payload of
        None \<Rightarrow> Inl (Errorf ''parse input_payload: %w'' [])
      | Some flds \<Rightarrow>
          let flds1 = gm_del ''context_slice'' flds;
              flds2 = (case sl of None \<Rightarrow> flds1
                         | Some s \<Rightarrow> gm_put ''context_slice'' (marshal_slice s) flds1)
          in Inr (json_Marshal_raw flds2))"

definition prepareExpertDispatch ::
  "string \<Rightarrow> AgentInfo list \<Rightarrow> broker_error + (AgentInfo list \<times> string)" where
  "prepareExpertDispatch payload agents =
     (case expertTarget payload of
        None \<Rightarrow> Inr (agents, payload)
      | Some expert \<Rightarrow>
          (case selectExpert agents expert of
             None \<Rightarrow> Inl (Wrapf ''%w: no agent %q provides the requested capability'' [FS expert] (Typed ErrNoEligibleAgent))
           | Some agent \<Rightarrow>
               (case declaredSlice (ag_InputSchema agent) of
                  Inl err \<Rightarrow> Inl (Wrapf ''task-broker: expert %q: %w'' [FS expert] err)
                | Inr sl \<Rightarrow>
                    (case bindContextSlice payload sl of
                       Inl err \<Rightarrow> Inl (Wrapf ''task-broker: expert %q: %w'' [FS expert] err)
                     | Inr bound \<Rightarrow> Inr ([agent], bound)))))"

lemma selectExpert_Some:
  "selectExpert agents expert = Some a \<Longrightarrow> a \<in> set agents \<and> (ag_Name a = expert \<or> ag_AgentID a = expert)"
  by (induction agents) (auto split: if_splits)

lemma selectExpert_None:
  "selectExpert agents expert = None \<longleftrightarrow> (\<forall>a\<in>set agents. ag_Name a \<noteq> expert \<and> ag_AgentID a \<noteq> expert)"
  by (induction agents) auto

lemma expertTarget_fields: "expertTarget p = Some e \<Longrightarrow> \<exists>m. Unmarshal_raw_map p = Some m"
  by (auto simp: expertTarget_def split: option.splits)

text \<open>C28 Strict isolation of context slices.  Two payloads that name the same expert and agree
  on every field but \<^verbatim>\<open>context_slice\<close> are bound to the same payload: what a caller plants in that
  field never reaches the agent.  And a dispatch that names an expert goes to an agent of that
  name or identifier, or fails.\<close>

theorem expert_slice_isolated:
  assumes "Unmarshal_raw_map p = Some m" "Unmarshal_raw_map q = Some n"
    and "gm_del ''context_slice'' m = gm_del ''context_slice'' n" "expertTarget p = Some e"
  shows "prepareExpertDispatch p agents = prepareExpertDispatch q agents \<and>
    (\<forall>as bound. prepareExpertDispatch p agents = Inr (as, bound) \<longrightarrow>
       (\<exists>a sl. as = [a] \<and> a \<in> set agents \<and> (ag_Name a = e \<or> ag_AgentID a = e) \<and>
          declaredSlice (ag_InputSchema a) = Inr sl \<and>
          bound = json_Marshal_raw (case sl of None \<Rightarrow> gm_del ''context_slice'' m
            | Some s \<Rightarrow> gm_put ''context_slice'' (marshal_slice s) (gm_del ''context_slice'' m))))"
proof -
  have "map_of (gm_del ''context_slice'' m) ''expert'' = map_of (gm_del ''context_slice'' n) ''expert''"
    by (simp only: assms(3))
  then have "map_of m ''expert'' = map_of n ''expert''" by simp
  then have "expertTarget q = Some e" using assms by (simp add: expertTarget_def)
  with assms show ?thesis
    by (auto simp: prepareExpertDispatch_def bindContextSlice_def Let_def dest!: selectExpert_Some
        split: option.splits sum.splits)
qed

end
