(* ===== verification/Broker_Service.thy ===== *)
theory Broker_Service
  imports Broker_Slice
begin

text \<open>
  The task service of the broker (\<^verbatim>\<open>services/task-broker/internal/domain/service.go\<close>), over
  any repository.

  The state of the service is the repository's, with what the service has done to its
  environment: the task events handed to the publisher, the goroutines it has launched and
  the calls it has made to the agent selector, whose answer may depend on the calls before.
  The clock and the random source are arguments.
\<close>

section \<open>State and environment\<close>

record 's broker =
  b_repo :: 's
  b_events :: "Task list"
  b_launched :: "(string \<times> AgentInfo) list"
  b_selects :: "(string \<times> string) list"

record 's broker_env =
  be_repo :: "'s TaskRepository"
  be_select :: "(string \<times> string) list \<Rightarrow> string \<Rightarrow> string \<Rightarrow> broker_error + AgentInfo"
  be_publisher :: bool

definition select_agent ::
  "'s broker_env \<Rightarrow> 's broker \<Rightarrow> string \<Rightarrow> string \<Rightarrow> (broker_error + AgentInfo) \<times> 's broker" where
  "select_agent env st capability expert =
     (be_select env (b_selects st) capability expert, st\<lparr>b_selects := b_selects st @ [(capability, expert)]\<rparr>)"

definition publishEvent :: "'s broker_env \<Rightarrow> 's broker \<Rightarrow> Task \<Rightarrow> 's broker" where
  "publishEvent env st task = (if be_publisher env then st\<lparr>b_events := b_events st @ [task]\<rparr> else st)"

definition launch :: "'s broker \<Rightarrow> string \<Rightarrow> AgentInfo \<Rightarrow> 's broker" where
  "launch st taskID agent = st\<lparr>b_launched := b_launched st @ [(taskID, agent)]\<rparr>"

abbreviation invalid_argument :: "string \<Rightarrow> broker_error" where
  "invalid_argument msg \<equiv> Wrapf msg [] (Typed ErrInvalidArgument)"

section \<open>Operations\<close>

definition newTaskID :: "string \<Rightarrow> string" where
  "newTaskID rnd = ''task-'' @ hex_EncodeToString rnd"

text \<open>The outcome of an execution applied to a task.  A count one above the largest 32-bit
  integer wraps around.\<close>

definition applyAcknowledgement ::
  "Task \<Rightarrow> TaskStatus \<Rightarrow> string \<Rightarrow> TaskError option \<Rightarrow> time \<Rightarrow> Task \<times> TaskStatus" where
  "applyAcknowledgement task newStatus resultPayload taskErr now =
     (if newStatus = TaskStatusCompleted then
        (task\<lparr>t_Status := TaskStatusCompleted, t_ResultPayload := resultPayload, t_CompletedAt := now\<rparr>, TaskStatusCompleted)
      else if newStatus = TaskStatusFailed then
        (let newCount = t_RetryCount task + 1 in
         if newCount \<le>s t_MaxRetries task then
           (task\<lparr>t_Status := TaskStatusRetrying, t_RetryCount := newCount\<rparr>, TaskStatusRetrying)
         else
           (task\<lparr>t_Status := TaskStatusFailed, t_Error := taskErr, t_CompletedAt := now\<rparr>, TaskStatusFailed))
      else (task\<lparr>t_Status := TaskStatusCancelled, t_CompletedAt := now\<rparr>, TaskStatusCancelled))"

definition DispatchTask ::
  "'s broker_env \<Rightarrow> 's broker \<Rightarrow> Task \<Rightarrow> string \<Rightarrow> time \<Rightarrow> (broker_error + string \<times> time) \<times> 's broker" where
  "DispatchTask env st task rnd now =
     (if t_WorkflowID task = '''' then (Inl (invalid_argument ''%w: workflow_id is required''), st)
      else if t_CapabilityName task = '''' then (Inl (invalid_argument ''%w: capability_name is required''), st)
      else if \<not> json_Valid (t_InputPayload task) then (Inl (invalid_argument ''%w: input_payload must be valid JSON''), st)
      else let expert = (case expertTarget (t_InputPayload task) of None \<Rightarrow> '''' | Some e \<Rightarrow> e) in
      case select_agent env st (t_CapabilityName task) expert of
        (Inl err, st1) \<Rightarrow> (Inl (Wrapf ''task-broker: select agent: %w'' [] err), st1)
      | (Inr agent, st1) \<Rightarrow>
      case prepareExpertDispatch (t_InputPayload task) [agent] of
        Inl err \<Rightarrow> (Inl err, st1)
      | Inr (_, boundPayload) \<Rightarrow>
      let task1 = task\<lparr>t_InputPayload := boundPayload, t_TaskID := newTaskID rnd,
                       t_Status := TaskStatusPending, t_CreatedAt := now\<rparr> in
      case r_Save (be_repo env) (b_repo st1) task1 of
        (Some err, s2) \<Rightarrow> (Inl (Wrapf ''task-broker: save: %w'' [] err), st1\<lparr>b_repo := s2\<rparr>)
      | (None, s2) \<Rightarrow> (Inr (t_TaskID task1, now), launch (st1\<lparr>b_repo := s2\<rparr>) (t_TaskID task1) agent))"

text \<open>An operation on a stored task reads it, computes its new value, and writes it back.  The
  first part is a function of its own, since other operations may run before the second.\<close>

definition AcknowledgeTask_read ::
  "'s broker_env \<Rightarrow> 's broker \<Rightarrow> string \<Rightarrow> TaskStatus \<Rightarrow> string \<Rightarrow> TaskError option \<Rightarrow> time \<Rightarrow>
   broker_error + Task \<times> TaskStatus" where
  "AcknowledgeTask_read env st taskID newStatus resultPayload taskErr now =
     (if taskID = '''' then Inl (invalid_argument ''%w: task_id is required'')
      else if newStatus \<in> {TaskStatusUnspecified, TaskStatusPending, TaskStatusDispatched, TaskStatusRetrying}
        then Inl (invalid_argument ''%w: status must be COMPLETED, FAILED, or CANCELLED'')
      else if newStatus = TaskStatusCompleted \<and> resultPayload = ''''
        then Inl (invalid_argument ''%w: result_payload is required for COMPLETED status'')
      else case r_GetByID (be_repo env) (b_repo st) taskID of
          Inl err \<Rightarrow> Inl (Wrapf ''task-broker: get task: %w'' [] err)
        | Inr task \<Rightarrow>
            if IsTerminal (t_Status task)
            then Inl (Wrapf ''%w: %s'' [FS (TaskStatus_String (t_Status task))] (Typed ErrTaskTerminal))
            else Inr (applyAcknowledgement task newStatus resultPayload taskErr now))"

definition update_task :: "'s broker_env \<Rightarrow> 's broker \<Rightarrow> Task \<Rightarrow> broker_error option \<times> 's broker" where
  "update_task env st task =
     (case r_Update (be_repo env) (b_repo st) task of
        (Some err, s) \<Rightarrow> (Some (Wrapf ''task-broker: update: %w'' [] err), st\<lparr>b_repo := s\<rparr>)
      | (None, s) \<Rightarrow> (None, publishEvent env (st\<lparr>b_repo := s\<rparr>) task))"

definition AcknowledgeTask ::
  "'s broker_env \<Rightarrow> 's broker \<Rightarrow> string \<Rightarrow> TaskStatus \<Rightarrow> string \<Rightarrow> TaskError option \<Rightarrow> time \<Rightarrow>
   (broker_error + TaskStatus) \<times> 's broker" where
  "AcknowledgeTask env st taskID newStatus resultPayload taskErr now =
     (case AcknowledgeTask_read env st taskID newStatus resultPayload taskErr now of
        Inl err \<Rightarrow> (Inl err, st)
      | Inr (task, resulting) \<Rightarrow>
          (case update_task env st task of
             (Some err, st1) \<Rightarrow> (Inl err, st1)
           | (None, st1) \<Rightarrow> (Inr resulting, st1)))"

definition GetTask :: "'s broker_env \<Rightarrow> 's broker \<Rightarrow> string \<Rightarrow> broker_error + Task" where
  "GetTask env st taskID =
     (if taskID = '''' then Inl (invalid_argument ''%w: task_id is required'')
      else case r_GetByID (be_repo env) (b_repo st) taskID of
          Inl err \<Rightarrow> Inl (Wrapf ''task-broker: get task: %w'' [] err)
        | Inr t \<Rightarrow> Inr t)"

definition ListTasks :: "'s broker_env \<Rightarrow> 's broker \<Rightarrow> ListFilter \<Rightarrow> (broker_error + ListResult) option" where
  "ListTasks env st f =
     (case r_List (be_repo env) (b_repo st) f of
        None \<Rightarrow> None
      | Some (Inl err) \<Rightarrow> Some (Inl (Wrapf ''task-broker: list tasks: %w'' [] err))
      | Some (Inr result) \<Rightarrow> Some (Inr result))"

definition CancelTask_read :: "'s broker_env \<Rightarrow> 's broker \<Rightarrow> string \<Rightarrow> time \<Rightarrow> broker_error + Task" where
  "CancelTask_read env st taskID now =
     (if taskID = '''' then Inl (invalid_argument ''%w: task_id is required'')
      else case r_GetByID (be_repo env) (b_repo st) taskID of
          Inl err \<Rightarrow> Inl (Wrapf ''task-broker: get task: %w'' [] err)
        | Inr task \<Rightarrow>
            if IsTerminal (t_Status task)
            then Inl (Wrapf ''%w: %s'' [FS (TaskStatus_String (t_Status task))] (Typed ErrTaskTerminal))
            else Inr (task\<lparr>t_Status := TaskStatusCancelled, t_CompletedAt := now\<rparr>))"

definition CancelTask :: "'s broker_env \<Rightarrow> 's broker \<Rightarrow> string \<Rightarrow> time \<Rightarrow> (broker_error + time) \<times> 's broker" where
  "CancelTask env st taskID now =
     (case CancelTask_read env st taskID now of
        Inl err \<Rightarrow> (Inl err, st)
      | Inr task \<Rightarrow>
          (case update_task env st task of
             (Some err, st1) \<Rightarrow> (Inl err, st1)
           | (None, st1) \<Rightarrow> (Inr (t_CompletedAt task), st1)))"

text \<open>The goroutine of a dispatched task.  The executor answers with a payload, a task error or
  an error of its own; other operations may change the state while it runs.\<close>

definition exec_read :: "'s broker_env \<Rightarrow> 's broker \<Rightarrow> string \<Rightarrow> Task option" where
  "exec_read env st taskID =
     (case r_GetByID (be_repo env) (b_repo st) taskID of
        Inl err \<Rightarrow> None
      | Inr task \<Rightarrow> if IsTerminal (t_Status task) then None else Some task)"

definition exec_mark :: "Task \<Rightarrow> AgentInfo \<Rightarrow> time \<Rightarrow> Task" where
  "exec_mark task agent now =
     task\<lparr>t_Status := TaskStatusDispatched, t_DispatchedTo := ag_AgentID agent, t_DispatchedAt := now\<rparr>"

type_synonym exec_result = "string \<times> TaskError option \<times> string option"

definition exec_outcome :: "Task \<Rightarrow> exec_result \<Rightarrow> time \<Rightarrow> Task" where
  "exec_outcome task res now =
     (case res of (resultPayload, taskErr, execErr) \<Rightarrow>
        let err = (case execErr of
              Some e \<Rightarrow> Some \<lparr>te_Code = ''INTERNAL'', te_Message = e, te_Details = []\<rparr>
            | None \<Rightarrow> taskErr)
        in case err of
            Some e \<Rightarrow> fst (applyAcknowledgement task TaskStatusFailed '''' (Some e) now)
          | None \<Rightarrow> fst (applyAcknowledgement task TaskStatusCompleted resultPayload None now))"

definition executeAsync ::
  "'s broker_env \<Rightarrow> ('s broker \<Rightarrow> AgentInfo \<Rightarrow> Task \<Rightarrow> exec_result \<times> 's broker) \<Rightarrow> 's broker \<Rightarrow>
   string \<Rightarrow> AgentInfo \<Rightarrow> time \<Rightarrow> time \<Rightarrow> 's broker" where
  "executeAsync env exec st taskID agent now now' =
     (case exec_read env st taskID of
        None \<Rightarrow> st
      | Some task \<Rightarrow>
      let task1 = exec_mark task agent now in
      case update_task env st task1 of
        (Some err, st1) \<Rightarrow> st1
      | (None, st1) \<Rightarrow>
      case exec st1 agent task1 of
        (res, st2) \<Rightarrow>
      (case exec_read env st2 taskID of
         None \<Rightarrow> st2
       | Some task2 \<Rightarrow> snd (update_task env st2 (exec_outcome task2 res now'))))"

section \<open>Recovery\<close>

definition recoveryPageSize :: int32 where "recoveryPageSize = 100"

definition relaunch :: "'s broker_env \<Rightarrow> 's broker \<Rightarrow> Task \<Rightarrow> bool \<times> 's broker" where
  "relaunch env st task =
     (let expert = (case expertTarget (t_InputPayload task) of None \<Rightarrow> '''' | Some e \<Rightarrow> e) in
      case select_agent env st (t_CapabilityName task) expert of
        (Inl err, st1) \<Rightarrow> (False, st1)
      | (Inr agent, st1) \<Rightarrow> (True, launch st1 (t_TaskID task) agent))"

fun relaunch_all :: "'s broker_env \<Rightarrow> 's broker \<Rightarrow> Task list \<Rightarrow> nat \<Rightarrow> nat \<times> 's broker" where
  "relaunch_all env st [] recovered = (recovered, st)"
| "relaunch_all env st (task # tasks) recovered =
     (case relaunch env st task of (done, st1) \<Rightarrow>
        relaunch_all env st1 tasks (if done then recovered + 1 else recovered))"

text \<open>The loop over the pages; \<open>None\<close> when it does not return.\<close>

partial_function (option) recover_pages ::
  "'s broker_env \<Rightarrow> 's broker \<Rightarrow> TaskStatus \<Rightarrow> string \<Rightarrow> nat \<Rightarrow> ((nat \<times> broker_error option) \<times> 's broker) option" where
  "recover_pages env st status token recovered =
     (case r_List (be_repo env) (b_repo st) \<lparr>lf_WorkflowID = '''', lf_Status = status, lf_AgentID = '''',
             lf_PageToken = token, lf_PageSize = recoveryPageSize\<rparr> of
        None \<Rightarrow> None
      | Some (Inl err) \<Rightarrow>
          Some ((recovered, Some (Wrapf ''task-broker: recover list %s tasks: %w'' [FS (TaskStatus_String status)] err)), st)
      | Some (Inr page) \<Rightarrow>
          (case relaunch_all env st (lr_Tasks page) recovered of (n, st1) \<Rightarrow>
             if lr_NextPageToken page = '''' then Some ((n, None), st1)
             else recover_pages env st1 status (lr_NextPageToken page) n))"

definition recoverByStatus ::
  "'s broker_env \<Rightarrow> 's broker \<Rightarrow> TaskStatus \<Rightarrow> ((nat \<times> broker_error option) \<times> 's broker) option" where
  "recoverByStatus env st status = recover_pages env st status '''' 0"

fun recover_statuses ::
  "'s broker_env \<Rightarrow> 's broker \<Rightarrow> TaskStatus list \<Rightarrow> nat \<Rightarrow> ((nat \<times> broker_error option) \<times> 's broker) option" where
  "recover_statuses env st [] recovered = Some ((recovered, None), st)"
| "recover_statuses env st (status # statuses) recovered =
     (case recoverByStatus env st status of
        None \<Rightarrow> None
      | Some ((n, Some err), st1) \<Rightarrow> Some ((recovered + n, Some err), st1)
      | Some ((n, None), st1) \<Rightarrow> recover_statuses env st1 statuses (recovered + n))"

definition RecoverInFlight :: "'s broker_env \<Rightarrow> 's broker \<Rightarrow> ((nat \<times> broker_error option) \<times> 's broker) option" where
  "RecoverInFlight env st =
     recover_statuses env st [TaskStatusPending, TaskStatusDispatched, TaskStatusRetrying] 0"

section \<open>What the operations do to the tasks held\<close>

lemma publishEvent_simps [simp]:
  "b_repo (publishEvent env st t) = b_repo st" "b_launched (publishEvent env st t) = b_launched st"
  "b_selects (publishEvent env st t) = b_selects st"
  by (simp_all add: publishEvent_def)

lemma launch_simps [simp]:
  "b_repo (launch st i a) = b_repo st" "b_launched (launch st i a) = b_launched st @ [(i, a)]"
  by (simp_all add: launch_def)

lemma update_task_launched [simp]: "b_launched (snd (update_task env st t)) = b_launched st"
  by (simp add: update_task_def split: prod.split option.split)

text \<open>What no operation on a stored task changes.\<close>

definition task_core :: "Task \<Rightarrow> string \<times> string \<times> string \<times> string \<times> int32 \<times> int32 \<times> time" where
  "task_core t = (t_TaskID t, t_WorkflowID t, t_CapabilityName t, t_InputPayload t, t_TimeoutSeconds t,
     t_MaxRetries t, t_CreatedAt t)"

text \<open>The count of retries stays within the maximum, unless the maximum is the largest 32-bit
  integer, where the count wraps around.\<close>

definition retry_ok :: "Task \<Rightarrow> bool" where
  "retry_ok t \<longleftrightarrow> (sint (t_MaxRetries t) < 2147483647 \<longrightarrow>
     0 \<le> sint (t_RetryCount t) \<and> sint (t_RetryCount t) \<le> max 0 (sint (t_MaxRetries t)))"

text \<open>A task as an operation may leave it, given as it was.\<close>

definition task_step :: "Task \<Rightarrow> Task \<Rightarrow> bool" where
  "task_step t t' \<longleftrightarrow> task_core t' = task_core t \<and> t_Status t' \<noteq> TaskStatusPending \<and> (retry_ok t \<longrightarrow> retry_ok t')"

lemma sint_succ:
  fixes w :: int32
  assumes "0 \<le> sint w" "sint w < 2147483647"
  shows "sint (w + 1) = sint w + 1"
  using assms by (simp add: sint_word_ariths signed_take_bit_int_eq_self)

lemma retry_ok_retry:
  assumes "retry_ok t" "t_RetryCount t + 1 \<le>s t_MaxRetries t"
  shows "retry_ok (t\<lparr>t_Status := s, t_RetryCount := t_RetryCount t + 1\<rparr>)"
proof (cases "sint (t_MaxRetries t) < 2147483647")
  case True
  with assms(1) have "0 \<le> sint (t_RetryCount t)" "sint (t_RetryCount t) < 2147483647"
    by (auto simp: retry_ok_def)
  from sint_succ [OF this] assms(2) show ?thesis
    using \<open>0 \<le> sint (t_RetryCount t)\<close> by (simp add: retry_ok_def word_sle_eq)
qed (simp add: retry_ok_def)

lemma task_step_ack: "task_step t (fst (applyAcknowledgement t s p e now))"
proof -
  have "retry_ok t \<Longrightarrow> retry_ok (t\<lparr>t_Status := s', t_ResultPayload := p', t_CompletedAt := n\<rparr>)"
    "retry_ok t \<Longrightarrow> retry_ok (t\<lparr>t_Status := s', t_Error := e', t_CompletedAt := n\<rparr>)"
    "retry_ok t \<Longrightarrow> retry_ok (t\<lparr>t_Status := s', t_CompletedAt := n\<rparr>)" for s' p' e' n
    by (simp_all add: retry_ok_def)
  then show ?thesis
    by (auto simp: applyAcknowledgement_def task_step_def task_core_def status_defs Let_def retry_ok_retry)
qed

lemma task_step_cancel: "task_step t (t\<lparr>t_Status := TaskStatusCancelled, t_CompletedAt := now\<rparr>)"
  by (auto simp: task_step_def task_core_def retry_ok_def status_defs)

lemma task_step_mark: "task_step t (exec_mark t agent now)"
  by (auto simp: exec_mark_def task_step_def task_core_def retry_ok_def status_defs)

lemma task_step_outcome: "task_step t (exec_outcome t res now)"
  by (auto simp: exec_outcome_def task_step_ack Let_def split: prod.split option.split)

lemma task_step_id: "task_step t t' \<Longrightarrow> t_TaskID t' = t_TaskID t"
  by (simp add: task_step_def task_core_def)

section \<open>Interleavings\<close>

text \<open>Requests and goroutines run concurrently.  The repository serializes its calls, but an
  operation that reads a task and writes it back makes two: between them any other operation
  may run.  A configuration is the state of the service with the tasks that have been computed
  from a read and are still to be written.  A task identifier is drawn at random; a step that
  dispatches a task draws one that is not in use.\<close>

inductive race_step :: "'s broker_env \<Rightarrow> 's broker \<times> Task list \<Rightarrow> 's broker \<times> Task list \<Rightarrow> bool"
  for env :: "'s broker_env" where
  ack: "AcknowledgeTask_read env st i newStatus p e now = Inr (t, r) \<Longrightarrow> race_step env (st, ps) (st, t # ps)"
| cancel: "CancelTask_read env st i now = Inr t \<Longrightarrow> race_step env (st, ps) (st, t # ps)"
| mark: "exec_read env st i = Some t \<Longrightarrow> race_step env (st, ps) (st, exec_mark t agent now # ps)"
| outcome: "exec_read env st i = Some t \<Longrightarrow> race_step env (st, ps) (st, exec_outcome t res now # ps)"
| write_back: "t \<in> set ps \<Longrightarrow> race_step env (st, ps) (snd (update_task env st t), remove1 t ps)"
| dispatch: "r_GetByID (be_repo env) (b_repo st) (newTaskID rnd) = Inl e \<Longrightarrow> errors_Is e ErrTaskNotFound \<Longrightarrow>
    t_RetryCount task = 0 \<Longrightarrow> race_step env (st, ps) (snd (DispatchTask env st task rnd now), ps)"

text \<open>An operation whose two parts run without a break.\<close>

inductive broker_step :: "'s broker_env \<Rightarrow> 's broker \<Rightarrow> 's broker \<Rightarrow> bool" for env :: "'s broker_env" where
  ack: "broker_step env st (snd (AcknowledgeTask env st i newStatus p e now))"
| cancel: "broker_step env st (snd (CancelTask env st i now))"
| mark: "exec_read env st i = Some t \<Longrightarrow> broker_step env st (snd (update_task env st (exec_mark t agent now)))"
| outcome: "exec_read env st i = Some t \<Longrightarrow> broker_step env st (snd (update_task env st (exec_outcome t res now)))"
| dispatch: "r_GetByID (be_repo env) (b_repo st) (newTaskID rnd) = Inl e \<Longrightarrow> errors_Is e ErrTaskNotFound \<Longrightarrow>
    t_RetryCount task = 0 \<Longrightarrow> broker_step env st (snd (DispatchTask env st task rnd now))"

section \<open>The service over a repository\<close>

locale broker_service = task_repository R ok abs
  for R :: "'s TaskRepository" and ok :: "'s \<Rightarrow> bool" and abs :: "'s \<Rightarrow> string \<rightharpoonup> Task" +
  fixes env :: "'s broker_env"
  assumes env_repo [simp]: "be_repo env = R"
begin

lemma update_task_abs:
  assumes "ok (b_repo st)" "update_task env st t = (e, st')"
  shows "ok (b_repo st') \<and>
    abs (b_repo st') = (if e = None then (abs (b_repo st))(t_TaskID t \<mapsto> t) else abs (b_repo st)) \<and>
    (e = None \<longrightarrow> t_TaskID t \<in> dom (abs (b_repo st)))"
proof -
  obtain e0 s where u: "r_Update R (b_repo st) t = (e0, s)" by fastforce
  then show ?thesis
    using assms update_ok [OF assms(1), of t s] update_err [OF assms(1), of t _ s]
    by (cases e0) (auto simp: update_task_def)
qed

lemma update_task_step:
  assumes "ok (b_repo st)" "abs (b_repo st) (t_TaskID t) = Some t0"
  shows "ok (b_repo (snd (update_task env st t)))"
    "abs (b_repo (snd (update_task env st t))) = abs (b_repo st) \<or>
     abs (b_repo (snd (update_task env st t))) = (abs (b_repo st))(t_TaskID t \<mapsto> t)"
  using update_task_abs [OF assms(1), of t "fst (update_task env st t)" "snd (update_task env st t)"]
  by (auto split: if_splits)

lemma exec_read_Some:
  "ok (b_repo st) \<Longrightarrow> exec_read env st i = Some t \<Longrightarrow> abs (b_repo st) i = Some t \<and> t_TaskID t = i \<and> \<not> IsTerminal (t_Status t)"
  using get_ok [of "b_repo st" i t] abs_id [of "b_repo st" i t]
  by (auto simp: exec_read_def split: sum.splits if_splits)

lemma ack_read_Inr:
  assumes "ok (b_repo st)" "AcknowledgeTask_read env st i s p e now = Inr (t', r)"
  obtains t where "abs (b_repo st) i = Some t" "t_TaskID t = i" "\<not> IsTerminal (t_Status t)"
    "(t', r) = applyAcknowledgement t s p e now"
proof -
  from assms(2) obtain t where t: "r_GetByID R (b_repo st) i = Inr t"
    by (cases "r_GetByID R (b_repo st) i") (simp_all add: AcknowledgeTask_read_def split: if_splits)
  note held = get_ok [OF assms(1) t]
  show thesis
    using assms(2) held abs_id [OF assms(1) held]
    by (intro that [of t]) (simp_all add: AcknowledgeTask_read_def t split: if_splits)
qed

lemma cancel_read_Inr:
  assumes "ok (b_repo st)" "CancelTask_read env st i now = Inr t'"
  obtains t where "abs (b_repo st) i = Some t" "t_TaskID t = i" "\<not> IsTerminal (t_Status t)"
    "t' = t\<lparr>t_Status := TaskStatusCancelled, t_CompletedAt := now\<rparr>"
proof -
  from assms(2) obtain t where t: "r_GetByID R (b_repo st) i = Inr t"
    by (cases "r_GetByID R (b_repo st) i") (simp_all add: CancelTask_read_def split: if_splits)
  note held = get_ok [OF assms(1) t]
  show thesis
    using assms(2) held abs_id [OF assms(1) held]
    by (intro that [of t]) (simp_all add: CancelTask_read_def t split: if_splits)
qed

end

end
