(* ===== verification/Broker_Interleaving.thy ===== *)
theory Broker_Interleaving
  imports Broker_Service
begin

text \<open>
  What the task service guarantees when its operations interleave, what only holds of
  operations that do not, and what the operations do over the in-memory repository: the
  refinement of a table of tasks, the life of a dispatched task, and recovery.
\<close>

text \<open>What a history keeps of the tasks it started from: every task is still there, with the
  same request, and one that was changed is not pending any more.\<close>

definition tasks_kept :: "(string \<rightharpoonup> Task) \<Rightarrow> (string \<rightharpoonup> Task) \<Rightarrow> bool" where
  "tasks_kept a0 a \<longleftrightarrow> (\<forall>i t. a0 i = Some t \<longrightarrow>
     (\<exists>t'. a i = Some t' \<and> task_core t' = task_core t \<and> (t' = t \<or> t_Status t' \<noteq> TaskStatusPending)))"

definition retries_ok :: "(string \<rightharpoonup> Task) \<Rightarrow> bool" where
  "retries_ok a \<longleftrightarrow> (\<forall>i t. a i = Some t \<longrightarrow> retry_ok t)"

text \<open>A task that waits to be written has the request of the stored one.\<close>

definition pending_ok :: "(string \<rightharpoonup> Task) \<Rightarrow> Task \<Rightarrow> bool" where
  "pending_ok a p \<longleftrightarrow> (\<exists>t. a (t_TaskID p) = Some t \<and> task_core p = task_core t) \<and>
     t_Status p \<noteq> TaskStatusPending \<and> retry_ok p"

lemma pending_ok_step: "a i = Some t \<Longrightarrow> t_TaskID t = i \<Longrightarrow> retries_ok a \<Longrightarrow> task_step t p \<Longrightarrow> pending_ok a p"
  by (auto simp: pending_ok_def task_step_def task_core_def retries_ok_def)

lemma tasks_kept_refl: "tasks_kept a a"
  by (simp add: tasks_kept_def)

lemma write_kept:
  assumes "pending_ok a p" "tasks_kept a0 a" "retries_ok a"
  shows "tasks_kept a0 (a(t_TaskID p \<mapsto> p))" "retries_ok (a(t_TaskID p \<mapsto> p))"
    "pending_ok a q \<Longrightarrow> pending_ok (a(t_TaskID p \<mapsto> p)) q"
  using assms by (fastforce simp: pending_ok_def tasks_kept_def retries_ok_def)+

lemma new_kept:
  assumes "a (t_TaskID p) = None" "retry_ok p" "tasks_kept a0 a" "retries_ok a"
  shows "tasks_kept a0 (a(t_TaskID p \<mapsto> p))" "retries_ok (a(t_TaskID p \<mapsto> p))"
    "pending_ok a q \<Longrightarrow> pending_ok (a(t_TaskID p \<mapsto> p)) q"
  using assms by (fastforce simp: pending_ok_def tasks_kept_def retries_ok_def)+

context broker_service
begin

lemma dispatch_abs:
  assumes "ok (b_repo st)"
  shows "ok (b_repo (snd (DispatchTask env st task rnd now))) \<and>
    (abs (b_repo (snd (DispatchTask env st task rnd now))) = abs (b_repo st) \<or>
     (\<exists>t. t_TaskID t = newTaskID rnd \<and> t_RetryCount t = t_RetryCount task \<and>
        abs (b_repo (snd (DispatchTask env st task rnd now))) = (abs (b_repo st))(newTaskID rnd \<mapsto> t)))"
proof -
  define task1 where "task1 p = task\<lparr>t_InputPayload := p, t_TaskID := newTaskID rnd,
      t_Status := TaskStatusPending, t_CreatedAt := now\<rparr>" for p
  define good where "good s \<longleftrightarrow> ok s \<and> (abs s = abs (b_repo st) \<or> (\<exists>t. t_TaskID t = newTaskID rnd \<and>
      t_RetryCount t = t_RetryCount task \<and> abs s = (abs (b_repo st))(newTaskID rnd \<mapsto> t)))" for s
  have save: "good s" if "r_Save R (b_repo st) (task1 p) = (e, s)" for p e s
  proof (cases e)
    case None
    have "t_TaskID (task1 p) = newTaskID rnd" "t_RetryCount (task1 p) = t_RetryCount task"
      by (simp_all add: task1_def)
    with None that save_ok [OF assms, of "task1 p" s] show ?thesis
      unfolding good_def by (intro conjI disjI2 exI [of _ "task1 p"]) simp_all
  next
    case (Some e')
    with that save_err [OF assms, of "task1 p" e' s] show ?thesis by (simp add: good_def)
  qed
  have "good (b_repo (snd (DispatchTask env st task rnd now)))"
    using assms good_def [of "b_repo st"]
    by (auto simp: DispatchTask_def select_agent_def Let_def task1_def [symmetric] dest!: save
        split: option.split sum.split prod.split)
  then show ?thesis by (simp add: good_def)
qed

lemma race_step_inv:
  assumes "race_step env (st, ps) (st', ps')" "ok (b_repo st)" "tasks_kept a0 (abs (b_repo st))"
    "retries_ok (abs (b_repo st))" "\<forall>p\<in>set ps. pending_ok (abs (b_repo st)) p"
  shows "ok (b_repo st') \<and> tasks_kept a0 (abs (b_repo st')) \<and> retries_ok (abs (b_repo st')) \<and>
    (\<forall>p\<in>set ps'. pending_ok (abs (b_repo st')) p)"
  using assms(1)
proof cases
  case (ack i s p e now t r)
  from ack_read_Inr [OF assms(2) ack(3)] obtain t0 where "abs (b_repo st) i = Some t0" "t_TaskID t0 = i"
    "(t, r) = applyAcknowledgement t0 s p e now" by blast
  moreover from this(3) have "task_step t0 t" using task_step_ack by (metis fst_conv)
  ultimately show ?thesis using assms ack pending_ok_step by auto
next
  case (cancel i now t)
  from cancel_read_Inr [OF assms(2) cancel(3)] obtain t0 where "abs (b_repo st) i = Some t0" "t_TaskID t0 = i"
    "t = t0\<lparr>t_Status := TaskStatusCancelled, t_CompletedAt := now\<rparr>" by blast
  then show ?thesis using assms cancel pending_ok_step task_step_cancel by auto
next
  case (mark i t agent now)
  then show ?thesis using assms exec_read_Some [OF assms(2) mark(3)] pending_ok_step task_step_mark by auto
next
  case (outcome i t res now)
  then show ?thesis using assms exec_read_Some [OF assms(2) outcome(3)] pending_ok_step task_step_outcome [of t res now] by auto
next
  case (write_back t)
  then have p: "pending_ok (abs (b_repo st)) t" using assms(5) by blast
  then obtain t0 where t0: "abs (b_repo st) (t_TaskID t) = Some t0" by (auto simp: pending_ok_def)
  have sub: "set ps' \<subseteq> set ps" using write_back by (simp add: set_remove1_subset)
  show ?thesis
    using update_task_step [OF assms(2) t0] write_kept [OF p assms(3,4)] assms(3-5) sub write_back(1)
    by (elim disjE) auto
next
  case (dispatch rnd e task now)
  have none: "abs (b_repo st) (newTaskID rnd) = None"
    using get_unknown [OF assms(2)] dispatch by simp
  have fresh: "retry_ok t" if "t_RetryCount t = t_RetryCount task" for t :: Task
    using that dispatch by (simp add: retry_ok_def)
  from dispatch_abs [OF assms(2), of task rnd now] show ?thesis
    using dispatch(1,2) assms none fresh new_kept [OF _ _ assms(3,4)] by (elim conjE disjE exE) (auto, metis+)
qed

end


context broker_service
begin

lemma race_steps_inv:
  assumes "(race_step env)\<^sup>*\<^sup>* (st0, []) (st, ps)" "ok (b_repo st0)" "retries_ok (abs (b_repo st0))"
  shows "ok (b_repo st) \<and> tasks_kept (abs (b_repo st0)) (abs (b_repo st)) \<and> retries_ok (abs (b_repo st)) \<and>
    (\<forall>p\<in>set ps. pending_ok (abs (b_repo st)) p)"
  using assms(1)
proof (induction "(st, ps)" arbitrary: st ps rule: rtranclp_induct)
  case base
  then show ?case using assms tasks_kept_refl by simp
next
  case (step c)
  obtain st1 ps1 where c: "c = (st1, ps1)" by fastforce
  from step.hyps(3) [OF c] step.hyps(2) show ?case unfolding c by (intro race_step_inv) auto
qed

lemma update_task_terminal:
  assumes "ok (b_repo st)" "abs (b_repo st) (t_TaskID t) = Some t0" "\<not> IsTerminal (t_Status t0)"
    and "abs (b_repo st) i = Some t1" "IsTerminal (t_Status t1)"
  shows "ok (b_repo (snd (update_task env st t))) \<and> abs (b_repo (snd (update_task env st t))) i = Some t1"
  using update_task_step [OF assms(1,2)] assms(2-5) by auto

lemma broker_step_terminal:
  assumes "broker_step env st st'" "ok (b_repo st)" "abs (b_repo st) i = Some t" "IsTerminal (t_Status t)"
  shows "ok (b_repo st') \<and> abs (b_repo st') i = Some t"
  using assms(1)
proof cases
  case (ack j s p e now)
  show ?thesis
  proof (cases "AcknowledgeTask_read env st j s p e now")
    case (Inr tr)
    obtain t' r where tr: "tr = (t', r)" by fastforce
    from ack_read_Inr [OF assms(2) Inr [unfolded tr]] obtain t0 where t0: "abs (b_repo st) j = Some t0" "t_TaskID t0 = j"
      "\<not> IsTerminal (t_Status t0)" "(t', r) = applyAcknowledgement t0 s p e now" by blast
    then have "t_TaskID t' = j" using task_step_id [OF task_step_ack] by (metis fst_conv)
    with update_task_terminal [OF assms(2), of t' t0 i t] t0 assms(3,4) show ?thesis
      by (auto simp: ack AcknowledgeTask_def Inr tr split: prod.split option.split)
  qed (use assms in \<open>simp add: ack AcknowledgeTask_def\<close>)
next
  case (cancel j now)
  show ?thesis
  proof (cases "CancelTask_read env st j now")
    case (Inr t')
    from cancel_read_Inr [OF assms(2) Inr] obtain t0 where t0: "abs (b_repo st) j = Some t0" "t_TaskID t0 = j"
      "\<not> IsTerminal (t_Status t0)" "t' = t0\<lparr>t_Status := TaskStatusCancelled, t_CompletedAt := now\<rparr>" by blast
    then show ?thesis using update_task_terminal [OF assms(2), of t' t0 i t] assms(3,4)
      by (auto simp: cancel CancelTask_def Inr split: prod.split option.split)
  qed (use assms in \<open>simp add: cancel CancelTask_def\<close>)
next
  case (mark j t0 agent now)
  then show ?thesis
    using exec_read_Some [OF assms(2) mark(2)] update_task_terminal [OF assms(2), of "exec_mark t0 agent now" t0 i t]
      assms(3,4) task_step_id [OF task_step_mark, of t0 agent now] by simp
next
  case (outcome j t0 res now)
  then show ?thesis
    using exec_read_Some [OF assms(2) outcome(2)] update_task_terminal [OF assms(2), of "exec_outcome t0 res now" t0 i t]
      assms(3,4) task_step_id [OF task_step_outcome, of t0 res now] by simp
next
  case (dispatch rnd e task now)
  then have "abs (b_repo st) (newTaskID rnd) = None" using get_unknown [OF assms(2)] by simp
  with dispatch_abs [OF assms(2), of task rnd now] assms(3) show ?thesis unfolding dispatch(1)
    by (elim conjE disjE exE) auto
qed

lemma broker_steps_terminal:
  assumes "(broker_step env)\<^sup>*\<^sup>* st st'" "ok (b_repo st)" "abs (b_repo st) i = Some t" "IsTerminal (t_Status t)"
  shows "ok (b_repo st') \<and> abs (b_repo st') i = Some t"
  using assms(1) by (induction rule: rtranclp_induct) (use assms(2-4) broker_step_terminal in blast)+

end

section \<open>Over the in-memory repository\<close>

definition memory_env ::
  "((string \<times> string) list \<Rightarrow> string \<Rightarrow> string \<Rightarrow> broker_error + AgentInfo) \<Rightarrow> bool \<Rightarrow> memoryRepo broker_env" where
  "memory_env sel pub = \<lparr>be_repo = memory_repo, be_select = sel, be_publisher = pub\<rparr>"

interpretation svc: broker_service memory_repo mr_ok mr_abs "memory_env sel pub" for sel pub
  by unfold_locales (simp add: memory_env_def)

text \<open>C20 However requests and goroutines interleave, a stored task is never lost, its request
  (identifier, workflow, capability, payload, timeout, retry maximum, creation time) never
  changes, a task that has left the pending state does not come back to it, and the retry
  count stays between zero and the maximum as long as the maximum is below the largest 32-bit
  integer.\<close>

theorem interleavings_keep_tasks:
  assumes "(race_step (memory_env sel pub))\<^sup>*\<^sup>* (st0, []) (st, ps)"
    and "mr_ok (b_repo st0)" "retries_ok (mr_abs (b_repo st0))"
  shows "mr_ok (b_repo st) \<and> tasks_kept (mr_abs (b_repo st0)) (mr_abs (b_repo st)) \<and> retries_ok (mr_abs (b_repo st))"
  using svc.race_steps_inv [OF assms] by blast

text \<open>C21 When the operations do not interleave (each acknowledgement, cancellation and goroutine
  update reads and writes its task in one step), a task that has reached a terminal state is
  never changed again.\<close>

theorem terminal_tasks_final:
  assumes "(broker_step (memory_env sel pub))\<^sup>*\<^sup>* st st'" "mr_ok (b_repo st)"
    and "mr_abs (b_repo st) i = Some t" "IsTerminal (t_Status t)"
  shows "mr_abs (b_repo st') i = Some t"
  using svc.broker_steps_terminal [OF assms] by blast

lemma memory_update [simp]:
  "t_TaskID t \<in> dom (mr_abs (b_repo st)) \<Longrightarrow>
   update_task (memory_env sel pub) st t =
     (None, publishEvent (memory_env sel pub)
        (st\<lparr>b_repo := (b_repo st)\<lparr>mr_tasks := gm_put (t_TaskID t) t (mr_tasks (b_repo st))\<rparr>\<rparr>) t)"
  by (auto simp: update_task_def memory_env_def memory_repo_def mr_Update_def gm_has_def mr_abs_def)

lemma mr_abs_put [simp]: "mr_abs (r\<lparr>mr_tasks := gm_put i t (mr_tasks r)\<rparr>) = (mr_abs r)(i \<mapsto> t)"
  by (simp add: mr_abs_def)

lemma memory_get: "r_GetByID memory_repo r i =
    (case mr_abs r i of None \<Rightarrow> Inl (Wrapf ''%w: %q'' [FS i] (Typed ErrTaskNotFound)) | Some t \<Rightarrow> Inr t)"
  by (simp add: memory_repo_def mr_GetByID_def mr_abs_def)

text \<open>A cancellation can be lost.  The service reads a task and writes it back without holding
  a lock: from every state with a task in progress there is an interleaving in which the task
  is cancelled, and the goroutine that had read it before then overwrites it as completed.\<close>

theorem cancel_can_be_lost:
  assumes "mr_ok (b_repo st)" "mr_abs (b_repo st) i = Some t" "\<not> IsTerminal (t_Status t)" "i \<noteq> ''''"
  shows "\<exists>st1 ps st2. (race_step (memory_env sel pub))\<^sup>*\<^sup>* (st, []) (st1, ps) \<and>
    map_option t_Status (mr_abs (b_repo st1) i) = Some TaskStatusCancelled \<and>
    race_step (memory_env sel pub) (st1, ps) (st2, []) \<and>
    map_option t_Status (mr_abs (b_repo st2) i) = Some TaskStatusCompleted"
proof -
  let ?env = "memory_env sel pub" and ?c = "t\<lparr>t_Status := TaskStatusCancelled, t_CompletedAt := 0\<rparr>"
  let ?d = "exec_outcome t (''{}'', None, None) 0"
  define st1 where "st1 = snd (update_task ?env st ?c)"
  have tid: "t_TaskID t = i" using mem.abs_id [OF assms(1,2)] .
  have d: "t_TaskID ?d = i" "t_Status ?d = TaskStatusCompleted"
    using tid by (simp_all add: exec_outcome_def applyAcknowledgement_def)
  have read: "exec_read ?env st i = Some t" using assms by (simp add: exec_read_def memory_get)
  have s1: "race_step ?env (st, []) (st, [?d])" by (rule race_step.outcome [OF read])
  have s2: "race_step ?env (st, [?d]) (st, [?c, ?d])"
    by (rule race_step.cancel [of _ _ i 0]) (use assms in \<open>simp add: CancelTask_read_def memory_get\<close>)
  have s3: "race_step ?env (st, [?c, ?d]) (st1, [?d])"
    using race_step.write_back [of ?c "[?c, ?d]" ?env st] by (simp add: st1_def)
  have "(race_step ?env)\<^sup>*\<^sup>* (st, []) (st1, [?d])"
    using converse_rtranclp_into_rtranclp [of "race_step ?env", OF s1 converse_rtranclp_into_rtranclp
        [of "race_step ?env", OF s2 r_into_rtranclp [of "race_step ?env", OF s3]]] .
  moreover have "race_step ?env (st1, [?d]) (snd (update_task ?env st1 ?d), [])"
    using race_step.write_back [of ?d "[?d]" ?env st1] by simp
  moreover have c: "mr_abs (b_repo st1) i = Some ?c" using assms tid by (simp add: st1_def domI)
  moreover have "mr_abs (b_repo (snd (update_task ?env st1 ?d))) i = Some ?d"
    using c d(1) by (simp add: domI)
  ultimately show ?thesis using d(2) 
    by (intro exI [of _ st1] exI [of _ "[?d]"] exI [of _ "snd (update_task ?env st1 ?d)"]) simp
qed

text \<open>The broker as a table of tasks: the operations on the table and the class of the error they
  give.\<close>

definition spec_lookup :: "(string \<rightharpoonup> Task) \<Rightarrow> string \<Rightarrow> broker_err + Task" where
  "spec_lookup a i = (if i = '''' then Inl ErrInvalidArgument
     else case a i of None \<Rightarrow> Inl ErrTaskNotFound | Some t \<Rightarrow> Inr t)"

definition spec_change ::
  "(string \<rightharpoonup> Task) \<Rightarrow> string \<Rightarrow> (Task \<Rightarrow> Task \<times> 'r) \<Rightarrow> (broker_err + 'r) \<times> (string \<rightharpoonup> Task)" where
  "spec_change a i f =
     (case spec_lookup a i of
        Inl e \<Rightarrow> (Inl e, a)
      | Inr t \<Rightarrow> if IsTerminal (t_Status t) then (Inl ErrTaskTerminal, a) else (Inr (snd (f t)), a(i \<mapsto> fst (f t))))"

definition spec_ack ::
  "(string \<rightharpoonup> Task) \<Rightarrow> string \<Rightarrow> TaskStatus \<Rightarrow> string \<Rightarrow> TaskError option \<Rightarrow> time \<Rightarrow>
   (broker_err + TaskStatus) \<times> (string \<rightharpoonup> Task)" where
  "spec_ack a i s p e now =
     (if s \<in> {TaskStatusUnspecified, TaskStatusPending, TaskStatusDispatched, TaskStatusRetrying} \<or>
         s = TaskStatusCompleted \<and> p = '''' then (Inl ErrInvalidArgument, a)
      else spec_change a i (\<lambda>t. applyAcknowledgement t s p e now))"

definition spec_cancel ::
  "(string \<rightharpoonup> Task) \<Rightarrow> string \<Rightarrow> time \<Rightarrow> (broker_err + time) \<times> (string \<rightharpoonup> Task)" where
  "spec_cancel a i now = spec_change a i (\<lambda>t. (t\<lparr>t_Status := TaskStatusCancelled, t_CompletedAt := now\<rparr>, now))"

definition broker_view :: "(broker_error + 'r) \<times> memoryRepo broker \<Rightarrow> (broker_err option + 'r) \<times> (string \<rightharpoonup> Task)" where
  "broker_view x = (map_sum errors_cause (\<lambda>r. r) (fst x), mr_abs (b_repo (snd x)))"

definition spec_view :: "(broker_err + 'r) \<times> (string \<rightharpoonup> Task) \<Rightarrow> (broker_err option + 'r) \<times> (string \<rightharpoonup> Task)" where
  "spec_view x = (map_sum Some (\<lambda>r. r) (fst x), snd x)"

text \<open>C19 Refinement: acknowledging, cancelling and reading over the in-memory repository are the
  operations on the table of tasks: same result, same class of error (invalid argument,
  unknown task, terminal task), same table afterwards, which an error leaves alone.\<close>

theorem service_refines_table:
  assumes "mr_ok (b_repo st)"
  shows "broker_view (AcknowledgeTask (memory_env sel pub) st i s p e now) = spec_view (spec_ack (mr_abs (b_repo st)) i s p e now) \<and>
    broker_view (CancelTask (memory_env sel pub) st i now) = spec_view (spec_cancel (mr_abs (b_repo st)) i now) \<and>
    map_sum errors_cause (\<lambda>t. t) (GetTask (memory_env sel pub) st i) = map_sum Some (\<lambda>t. t) (spec_lookup (mr_abs (b_repo st)) i)"
proof -
  note defs = broker_view_def spec_view_def spec_ack_def spec_cancel_def spec_change_def spec_lookup_def memory_get
    AcknowledgeTask_def AcknowledgeTask_read_def CancelTask_def CancelTask_read_def GetTask_def
  show ?thesis
  proof (cases "mr_abs (b_repo st) i")
    case None
    then show ?thesis by (simp add: defs)
  next
    case (Some t)
    have tid: "t_TaskID t = i" by (rule mem.abs_id [OF assms Some])
    obtain t' r where ack: "applyAcknowledgement t s p e now = (t', r)" by fastforce
    have tid': "t_TaskID t' = i" using tid task_step_id [OF task_step_ack, of t s p e now] ack by simp
    show ?thesis
    proof (cases "IsTerminal (t_Status t)")
      case True
      then show ?thesis using Some by (simp add: defs)
    next
      case False
      then show ?thesis using Some ack tid tid' by (simp add: defs domI) blast
    qed
  qed
qed

section \<open>The life of a dispatched task\<close>

lemma execute_once:
  assumes "mr_ok (b_repo st)" "mr_abs (b_repo st) i = Some t" "\<not> IsTerminal (t_Status t)"
    and exec: "\<And>s a u. exec s a u = (res, s)"
    and st'_def: "st' = executeAsync (memory_env sel pub) exec st i agent now now'"
  shows "b_launched st' = b_launched st" "mr_ok (b_repo st')"
    "mr_abs (b_repo st') i = Some (exec_outcome (exec_mark t agent now) res now')"
proof -
  let ?env = "memory_env sel pub" and ?m = "exec_mark t agent now"
  let ?o = "exec_outcome ?m res now'"
  define st1 where "st1 = snd (update_task ?env st ?m)"
  have tid: "t_TaskID t = i" by (rule mem.abs_id [OF assms(1,2)])
  have m: "t_TaskID ?m = i" "\<not> IsTerminal (t_Status ?m)"
    using tid by (simp_all add: exec_mark_def IsTerminal_def status_defs)
  have o: "t_TaskID ?o = i" using task_step_id [OF task_step_outcome] m(1) by simp
  have read: "exec_read ?env st i = Some t" using assms(2,3) by (simp add: exec_read_def memory_get)
  have u1: "update_task ?env st ?m = (None, st1)" "mr_abs (b_repo st1) i = Some ?m"
    using assms(2) m(1) by (simp_all add: st1_def domI)
  then have read2: "exec_read ?env st1 i = Some ?m" using m(2) by (simp add: exec_read_def memory_get)
  have st': "st' = snd (update_task ?env st1 ?o)"
    by (simp add: st'_def executeAsync_def read u1 exec read2)
  show "mr_abs (b_repo st') i = Some ?o" using st' u1(2) o by (simp add: domI)
  show "b_launched st' = b_launched st" by (simp add: st' st1_def)
  have "mr_ok (b_repo st1)" unfolding st1_def using svc.update_task_step(1) [OF assms(1), of ?m t] assms(2) m(1) by simp
  then show "mr_ok (b_repo st')" unfolding st' using svc.update_task_step(1) [of st1 ?o ?m] u1(2) o by simp
qed


section \<open>Recovery\<close>

lemma relaunch_repo [simp]: "b_repo (snd (relaunch env st t)) = b_repo st"
  by (simp add: relaunch_def select_agent_def Let_def split: sum.split)

lemma relaunch_all_repo [simp]: "b_repo (snd (relaunch_all env st ts n)) = b_repo st"
  by (induction ts arbitrary: st n) (simp_all split: prod.split, metis relaunch_repo snd_conv)

lemma relaunch_all_append:
  "relaunch_all env st (xs @ ys) n = (case relaunch_all env st xs n of (m, st1) \<Rightarrow> relaunch_all env st1 ys m)"
  by (induction xs arbitrary: st n) (simp_all split: prod.split)

abbreviation status_filter :: "TaskStatus \<Rightarrow> ListFilter" where
  "status_filter s \<equiv> \<lparr>lf_WorkflowID = '''', lf_Status = s, lf_AgentID = '''', lf_PageToken = '''', lf_PageSize = recoveryPageSize\<rparr>"

abbreviation with_status :: "memoryRepo \<Rightarrow> TaskStatus \<Rightarrow> Task list" where
  "with_status r s \<equiv> matched_tasks r (status_filter s)"

lemma memory_list: "r_List memory_repo = mr_List"
  by (simp add: memory_repo_def)

lemma recover_pages_from:
  fixes st st0 :: "memoryRepo broker"
  assumes L: "L = with_status (b_repo st0) s" and "int (length L) \<le> MaxInt64"
  shows "b_repo st = b_repo st0 \<Longrightarrow> k < length L \<Longrightarrow>
    recover_pages (memory_env sel pub) st s (page_token k) n =
      (case relaunch_all (memory_env sel pub) st (drop k L) n of (m, st') \<Rightarrow> Some ((m, None), st'))"
proof (induction "length L - k" arbitrary: k st n rule: less_induct)
  case less
  let ?env = "memory_env sel pub" and ?p = "nat (page_size recoveryPageSize)"
  have p: "0 < ?p" using page_size_pos(1) by simp
  have page: "mr_List (b_repo st0) \<lparr>lf_WorkflowID = '''', lf_Status = s, lf_AgentID = '''', lf_PageToken = page_token k,
      lf_PageSize = recoveryPageSize\<rparr> = Some (Inr \<lparr>lr_Tasks = take ?p (drop k L),
        lr_NextPageToken = (if k + ?p < length L then page_token (k + ?p) else '''')\<rparr>)"
    using mr_List_page [of k "b_repo st0" "status_filter s", folded L] less.prems(2) assms(2) by simp
  obtain m st1 where r: "relaunch_all ?env st (take ?p (drop k L)) n = (m, st1)" by fastforce
  then have same: "b_repo st1 = b_repo st0" using relaunch_all_repo less.prems(1) by (metis snd_conv)
  show ?case
  proof (cases "k + ?p < length L")
    case True
    have "take ?p (drop k L) @ drop (k + ?p) L = drop k L"
      by (metis add.commute append_take_drop_id drop_drop)
    then have "relaunch_all ?env st (drop k L) n = relaunch_all ?env st1 (drop (k + ?p) L) m"
      using relaunch_all_append [of ?env st "take ?p (drop k L)" "drop (k + ?p) L" n] r by simp
    moreover have "page_token (k + ?p) \<noteq> ''''" using p by (simp add: page_token_def)
    ultimately show ?thesis
      using less.hyps [of "k + ?p" st1 m] True p same r page less.prems(1)
      by (subst recover_pages.simps) (simp add: memory_list)
  next
    case False
    then show ?thesis using page r less.prems(1)
      by (subst recover_pages.simps) (simp add: memory_list)
  qed
qed

lemma recoverByStatus_memory:
  assumes "int (length (with_status (b_repo st) s)) \<le> MaxInt64"
  shows "recoverByStatus (memory_env sel pub) st s =
    (case relaunch_all (memory_env sel pub) st (with_status (b_repo st) s) 0 of (m, st') \<Rightarrow> Some ((m, None), st'))"
proof (cases "with_status (b_repo st) s = []")
  case True
  then show ?thesis using mr_List_empty [OF True]
    by (simp add: recoverByStatus_def recover_pages.simps memory_list)
next
  case False
  then show ?thesis using recover_pages_from [OF refl assms refl, of 0]
    by (simp add: recoverByStatus_def page_token_def)
qed

lemma with_status_props:
  assumes "mr_ok r" "s \<noteq> TaskStatusUnspecified"
  shows "set (with_status r s) = {t. mr_abs r (t_TaskID t) = Some t \<and> t_Status t = s}"
    "distinct (map t_TaskID (with_status r s))"
  using set_matched_tasks [OF assms(1), of "status_filter s"] distinct_matched_tasks [OF assms(1)] assms(2)
  by (auto simp: filter_matches_def)

lemma image_disjointI: "(\<And>t u. t \<in> A \<Longrightarrow> u \<in> B \<Longrightarrow> f t = f u \<Longrightarrow> False) \<Longrightarrow> f ` A \<inter> f ` B = {}"
  by blast

lemma with_status_disjoint:
  assumes "mr_ok r" "s \<noteq> TaskStatusUnspecified" "s' \<noteq> TaskStatusUnspecified" "s \<noteq> s'"
  shows "t_TaskID ` set (with_status r s) \<inter> t_TaskID ` set (with_status r s') = {}"
proof (rule image_disjointI)
  fix t u assume tu: "t \<in> set (with_status r s)" "u \<in> set (with_status r s')" "t_TaskID t = t_TaskID u"
  have "mr_abs r (t_TaskID t) = Some t" "t_Status t = s"
    using tu(1) unfolding with_status_props(1) [OF assms(1,2)] by simp_all
  moreover have "mr_abs r (t_TaskID u) = Some u" "t_Status u = s'"
    using tu(2) unfolding with_status_props(1) [OF assms(1,3)] by simp_all
  ultimately show False using tu(3) assms(4) by (metis option.inject)
qed

lemma ids_with_status:
  assumes "mr_ok r" "s \<noteq> TaskStatusUnspecified"
  shows "t_TaskID ` set (with_status r s) = {i. \<exists>t. mr_abs r i = Some t \<and> t_Status t = s}"
  unfolding with_status_props(1) [OF assms]
proof (intro set_eqI iffI)
  fix i assume "i \<in> {i. \<exists>t. mr_abs r i = Some t \<and> t_Status t = s}"
  then obtain t where t: "mr_abs r i = Some t" "t_Status t = s" by blast
  moreover have "i = t_TaskID t" using mem.abs_id [OF assms(1) t(1)] by simp
  ultimately show "i \<in> t_TaskID ` {t. mr_abs r (t_TaskID t) = Some t \<and> t_Status t = s}"
    by (intro image_eqI [of _ _ t]) simp_all
qed auto

abbreviation in_flight :: "memoryRepo \<Rightarrow> Task list" where
  "in_flight r \<equiv> with_status r TaskStatusPending @ with_status r TaskStatusDispatched @ with_status r TaskStatusRetrying"

lemma in_flight_props:
  assumes "mr_ok r"
  shows "distinct (map t_TaskID (in_flight r))"
    "set (map t_TaskID (in_flight r)) = {i. \<exists>t. mr_abs r i = Some t \<and>
       t_Status t \<in> {TaskStatusPending, TaskStatusDispatched, TaskStatusRetrying}}"
proof -
  have ne: "TaskStatusPending \<noteq> TaskStatusUnspecified" "TaskStatusDispatched \<noteq> TaskStatusUnspecified"
    "TaskStatusRetrying \<noteq> TaskStatusUnspecified" "TaskStatusPending \<noteq> TaskStatusDispatched"
    "TaskStatusPending \<noteq> TaskStatusRetrying" "TaskStatusDispatched \<noteq> TaskStatusRetrying"
    by (simp_all add: status_defs)
  note props = with_status_props [OF assms ne(1)] with_status_props [OF assms ne(2)] with_status_props [OF assms ne(3)]
  show "distinct (map t_TaskID (in_flight r))"
    using props(2,4,6) with_status_disjoint [OF assms ne(1) ne(2) ne(4)] with_status_disjoint [OF assms ne(1) ne(3) ne(5)]
      with_status_disjoint [OF assms ne(2) ne(3) ne(6)] by (simp add: Int_Un_distrib)
  show "set (map t_TaskID (in_flight r)) = {i. \<exists>t. mr_abs r i = Some t \<and>
       t_Status t \<in> {TaskStatusPending, TaskStatusDispatched, TaskStatusRetrying}}"
    unfolding map_append set_append set_map ids_with_status [OF assms ne(1)] ids_with_status [OF assms ne(2)]
      ids_with_status [OF assms ne(3)] by blast
qed

lemma length_matched: "length (matched_tasks r f) \<le> length (mr_tasks r)"
  unfolding matched_tasks_def by (metis length_filter_le length_map length_sort)

lemma relaunch_all_count:
  "relaunch_all env st ts (k + n) = (case relaunch_all env st ts k of (m, st') \<Rightarrow> (m + n, st'))"
proof (induction ts arbitrary: st k)
  case (Cons t ts)
  obtain b st1 where r: "relaunch env st t = (b, st1)" by fastforce
  from Cons.IH [of st1 "if b then k + 1 else k"] show ?case by (cases b) (simp_all add: r)
qed simp

lemma recover_statuses_memory:
  assumes "int (length (mr_tasks (b_repo st))) \<le> MaxInt64"
  shows "recover_statuses (memory_env sel pub) st ss n =
    (case relaunch_all (memory_env sel pub) st (concat (map (with_status (b_repo st)) ss)) n of
       (m, st') \<Rightarrow> Some ((m, None), st'))"
  using assms
proof (induction ss arbitrary: st n)
  case (Cons s ss)
  let ?env = "memory_env sel pub"
  obtain m st1 where r: "relaunch_all ?env st (with_status (b_repo st) s) 0 = (m, st1)" by fastforce
  then have same: "b_repo st1 = b_repo st" using relaunch_all_repo by (metis snd_conv)
  have rn: "relaunch_all ?env st (with_status (b_repo st) s) n = (m + n, st1)"
    using relaunch_all_count [of ?env st "with_status (b_repo st) s" 0 n] by (simp add: r)
  have "int (length (with_status (b_repo st) s)) \<le> MaxInt64"
    using length_matched [of "b_repo st" "status_filter s"] Cons.prems by linarith
  from recoverByStatus_memory [OF this] have "recoverByStatus ?env st s = Some ((m, None), st1)"
    by (simp add: r)
  then show ?case using Cons.IH [of st1 "n + m"] Cons.prems same rn
    by (simp add: relaunch_all_append add.commute)
qed simp

lemma relaunch_all_total:
  assumes "\<And>h c e. \<exists>a. be_select env h c e = Inr a"
  shows "\<exists>new st'. relaunch_all env st ts n = (n + length new, st') \<and> map fst new = map t_TaskID ts \<and>
    b_launched st' = b_launched st @ new \<and> b_repo st' = b_repo st"
proof (induction ts arbitrary: st n)
  case (Cons t ts)
  define e where "e = (case expertTarget (t_InputPayload t) of None \<Rightarrow> '''' | Some e \<Rightarrow> e)"
  obtain a where a: "be_select env (b_selects st) (t_CapabilityName t) e = Inr a" using assms by blast
  then have r: "relaunch env st t = (True, launch (snd (select_agent env st (t_CapabilityName t) e)) (t_TaskID t) a)"
    by (simp add: relaunch_def select_agent_def e_def [symmetric])
  define st1 where "st1 = snd (relaunch env st t)"
  have st1: "b_launched st1 = b_launched st @ [(t_TaskID t, a)]" "b_repo st1 = b_repo st"
    by (simp_all add: st1_def r select_agent_def)
  obtain new st' where "relaunch_all env st1 ts (n + 1) = (n + 1 + length new, st')" "map fst new = map t_TaskID ts"
    "b_launched st' = b_launched st1 @ new" "b_repo st' = b_repo st1" using Cons.IH [of st1 "n + 1"] by blast
  with st1 r show ?case
    by (intro exI [of _ "(t_TaskID t, a) # new"] exI [of _ st']) (simp add: st1_def)
qed simp


end
