(* ===== verification/Broker_Example.thy ===== *)
theory Broker_Example
  imports Broker_Interleaving
begin

text \<open>
  The properties of the broker at work on a small state: one task in progress, one completed,
  a selector that always answers with the same agent.
\<close>

definition ex_task :: Task where
  "ex_task = \<lparr>t_TaskID = ''t1'', t_WorkflowID = ''wf'', t_CapabilityName = ''summarize'', t_InputPayload = ''{}'',
     t_TimeoutSeconds = 30, t_MaxRetries = 1, t_RetryCount = 0, t_Status = TaskStatusDispatched,
     t_DispatchedTo = '''', t_ResultPayload = '''', t_Error = None, t_CreatedAt = 5, t_DispatchedAt = 0, t_CompletedAt = 0\<rparr>"

definition ex_finished :: Task where
  "ex_finished = ex_task\<lparr>t_TaskID := ''t0'', t_Status := TaskStatusCompleted, t_CreatedAt := 4\<rparr>"

definition ex_agent :: AgentInfo where
  "ex_agent = \<lparr>ag_AgentID = ''a1'', ag_Name = ''writer'', ag_Endpoint = ''writer:50051'', ag_InputSchema = ''''\<rparr>"

definition ex_select :: "(string \<times> string) list \<Rightarrow> string \<Rightarrow> string \<Rightarrow> broker_error + AgentInfo" where
  "ex_select h c e = Inr ex_agent"

definition ex_repo :: memoryRepo where
  "ex_repo = \<lparr>mr_tasks = [(''t1'', ex_task), (''t0'', ex_finished)]\<rparr>"

definition ex_broker :: "memoryRepo broker" where
  "ex_broker = \<lparr>b_repo = ex_repo, b_events = [], b_launched = [], b_selects = []\<rparr>"

definition ex_filter :: ListFilter where
  "ex_filter = \<lparr>lf_WorkflowID = ''wf'', lf_Status = TaskStatusUnspecified, lf_AgentID = '''', lf_PageToken = '''', lf_PageSize = 1\<rparr>"

lemma ex_repo_facts:
  "b_repo ex_broker = ex_repo" "mr_ok ex_repo" "length (mr_tasks ex_repo) = 2"
  "mr_abs ex_repo ''t1'' = Some ex_task" "mr_abs ex_repo ''t0'' = Some ex_finished"
  "\<not> IsTerminal (t_Status ex_task)" "IsTerminal (t_Status ex_finished)"
  by (simp_all add: ex_broker_def ex_repo_def mr_ok_def gm_ok_def mr_abs_def ex_finished_def ex_task_def IsTerminal_def status_defs)

lemma ex_retries_ok: "retries_ok (mr_abs ex_repo)"
  by (auto simp: retries_ok_def retry_ok_def ex_repo_def mr_abs_def ex_finished_def ex_task_def split: if_splits)

theorem pages_cover_witness:
  "mr_ok ex_repo \<and> int (length (mr_tasks ex_repo)) \<le> MaxInt64 \<and>
   (\<exists>ts. collect_pages 3 ex_repo (ex_filter\<lparr>lf_PageToken := ''''\<rparr>) = Some ts \<and>
      set ts = {t. mr_abs ex_repo (t_TaskID t) = Some t \<and> filter_matches ex_filter t} \<and>
      distinct (map t_TaskID ts) \<and> sorted (map t_CreatedAt ts))"
  using pages_cover [of ex_repo ex_filter] ex_repo_facts by (simp add: numeral_3_eq_3)

theorem interleavings_keep_tasks_witness:
  "(race_step (memory_env ex_select True))\<^sup>*\<^sup>* (ex_broker, []) (ex_broker, [exec_mark ex_task ex_agent 7]) \<and>
   mr_ok (b_repo ex_broker) \<and> retries_ok (mr_abs (b_repo ex_broker)) \<and>
   tasks_kept (mr_abs (b_repo ex_broker)) (mr_abs (b_repo ex_broker))"
proof -
  have "exec_read (memory_env ex_select True) ex_broker ''t1'' = Some ex_task"
    by (simp add: exec_read_def memory_get ex_repo_facts)
  from r_into_rtranclp [of "race_step (memory_env ex_select True)", OF race_step.mark [OF this, of "[]" ex_agent 7]]
  have step: "(race_step (memory_env ex_select True))\<^sup>*\<^sup>* (ex_broker, []) (ex_broker, [exec_mark ex_task ex_agent 7])" .
  show ?thesis using interleavings_keep_tasks [OF step] step by (simp add: ex_repo_facts ex_retries_ok)
qed

theorem terminal_tasks_final_witness:
  "(broker_step (memory_env ex_select True))\<^sup>*\<^sup>* ex_broker (snd (CancelTask (memory_env ex_select True) ex_broker ''t1'' 9)) \<and>
   mr_abs (b_repo (snd (CancelTask (memory_env ex_select True) ex_broker ''t1'' 9))) ''t0'' = Some ex_finished"
proof -
  have step: "(broker_step (memory_env ex_select True))\<^sup>*\<^sup>* ex_broker (snd (CancelTask (memory_env ex_select True) ex_broker ''t1'' 9))"
    by (rule r_into_rtranclp [of "broker_step (memory_env ex_select True)", OF broker_step.cancel])
  with terminal_tasks_final [OF step, of "''t0''" ex_finished] show ?thesis by (simp add: ex_repo_facts)
qed

theorem cancel_can_be_lost_witness:
  "\<exists>st1 ps st2. (race_step (memory_env ex_select True))\<^sup>*\<^sup>* (ex_broker, []) (st1, ps) \<and>
    map_option t_Status (mr_abs (b_repo st1) ''t1'') = Some TaskStatusCancelled \<and>
    race_step (memory_env ex_select True) (st1, ps) (st2, []) \<and>
    map_option t_Status (mr_abs (b_repo st2) ''t1'') = Some TaskStatusCompleted"
  by (rule cancel_can_be_lost [where t = ex_task]) (simp_all add: ex_repo_facts)

theorem service_refines_table_witness:
  "mr_ok (b_repo ex_broker) \<and>
   broker_view (AcknowledgeTask (memory_env ex_select True) ex_broker ''t1'' TaskStatusFailed '''' None 8) =
     (Inr TaskStatusRetrying, (mr_abs ex_repo)(''t1'' \<mapsto> ex_task\<lparr>t_Status := TaskStatusRetrying, t_RetryCount := 1\<rparr>)) \<and>
   broker_view (CancelTask (memory_env ex_select True) ex_broker ''t1'' 9) =
     (Inr 9, (mr_abs ex_repo)(''t1'' \<mapsto> ex_task\<lparr>t_Status := TaskStatusCancelled, t_CompletedAt := 9\<rparr>))"
proof -
  have "applyAcknowledgement ex_task TaskStatusFailed '''' None 8 =
      (ex_task\<lparr>t_Status := TaskStatusRetrying, t_RetryCount := 1\<rparr>, TaskStatusRetrying)"
    by (simp add: applyAcknowledgement_def status_defs ex_task_def)
  then show ?thesis
    using service_refines_table [of ex_broker ex_select True "''t1''" TaskStatusFailed "''''" None 8]
      service_refines_table [of ex_broker ex_select True "''t1''" TaskStatusFailed "''''" None 9]
    by (simp add: ex_repo_facts spec_ack_def spec_cancel_def spec_change_def spec_lookup_def spec_view_def status_defs
        IsTerminal_def ex_task_def)
qed



text \<open>A payload in which the caller has planted a slice of its own.\<close>

definition ex_payload :: string where
  "ex_payload = ''{'' @ quote ''expert'' @ '':'' @ quote ''writer'' @ ''}''"

definition ex_planted :: string where
  "ex_planted = ''{'' @ quote ''expert'' @ '':'' @ quote ''writer'' @ '','' @ quote ''context_slice'' @ '':{}}''"

lemma ex_payload_maps:
  "Unmarshal_raw_map ex_payload = Some [(''expert'', quote ''writer'')]"
  "Unmarshal_raw_map ex_planted = Some [(''expert'', quote ''writer''), (''context_slice'', ''{}'')]"
  "expertTarget ex_payload = Some ''writer''"
  by code_simp+

theorem expert_slice_isolated_witness:
  "prepareExpertDispatch ex_planted [ex_agent] = Inr ([ex_agent], json_Marshal_raw [(''expert'', quote ''writer'')])"
proof -
  have "prepareExpertDispatch ex_payload [ex_agent] = Inr ([ex_agent], json_Marshal_raw [(''expert'', quote ''writer'')])"
    using ex_payload_maps
    by (simp add: prepareExpertDispatch_def bindContextSlice_def declaredSlice_def ex_agent_def gm_del_def)
  moreover have "gm_del ''context_slice'' [(''expert'', quote ''writer'')] =
      gm_del ''context_slice'' [(''expert'', quote ''writer''), (''context_slice'', ''{}'')]"
    by (simp add: gm_del_def)
  ultimately show ?thesis
    using expert_slice_isolated [OF ex_payload_maps(1,2) _ ex_payload_maps(3), of "[ex_agent]"] by simp
qed

end
