(* ===== verification/Events_Naming.thy ===== *)
theory Events_Naming
  imports Go_Encoding
begin

text \<open>
  The naming conventions of the events client (\<^verbatim>\<open>libs/zynaxevents/naming.go\<close> and the names of
  \<^verbatim>\<open>dlq.go\<close>): the stream, the subjects and the consumer derived from an event type, and the
  glob patterns of subscriptions.
\<close>

abbreviation segments :: "string \<Rightarrow> string list" where
  "segments \<equiv> Split (CHR ''.'')"

section \<open>Streams\<close>

definition streamSubjectDepth :: nat where "streamSubjectDepth = 4"

definition streamPrefix :: "string \<Rightarrow> string" where
  "streamPrefix eventType =
     (let parts = segments eventType in
      if length parts > streamSubjectDepth then Join (CHR ''.'') (take streamSubjectDepth parts) else eventType)"

definition StreamName :: "string \<Rightarrow> string" where
  "StreamName eventType =
     ToUpper (ReplaceChar (CHR ''-'') (CHR ''_'') (ReplaceChar (CHR ''.'') (CHR ''_'') (streamPrefix eventType)))"

definition SubjectFilter :: "string \<Rightarrow> string" where
  "SubjectFilter eventType =
     (let prefix = streamPrefix eventType in if prefix \<noteq> eventType then prefix @ ''.>'' else eventType)"

definition streamSubjects :: "string \<Rightarrow> string list" where
  "streamSubjects eventType =
     (let prefix = streamPrefix eventType in
      if prefix \<noteq> eventType then [prefix, prefix @ ''.>''] else [eventType])"

text \<open>The consumer name: one character per rune of the subscriber's identifier, cut at 200 bytes.\<close>

definition consumer_char :: "char \<Rightarrow> bool" where
  "consumer_char c \<longleftrightarrow> is_lower c \<or> is_upper c \<or> is_digit c \<or> c = CHR ''-''"

function consumer_chars :: "string \<Rightarrow> string" where
  "consumer_chars [] = []"
| "consumer_chars (c # cs) =
     (if byte c < 128 then (if consumer_char c then c else CHR ''_'') # consumer_chars cs
      else CHR ''_'' # consumer_chars (drop (utf8_seq (c # cs) - 1) cs))"
  by pat_completeness auto
termination consumer_chars
  by (relation "measure length") auto

definition DurableConsumerName :: "string \<Rightarrow> string" where
  "DurableConsumerName subscriberID =
     (let name = consumer_chars subscriberID in if length name > 200 then take 200 name else name)"

primrec matchGlobSegments :: "string list \<Rightarrow> string list \<Rightarrow> bool" where
  "matchGlobSegments [] seg \<longleftrightarrow> seg = []"
| "matchGlobSegments (p # pat) seg \<longleftrightarrow>
     (if p = ''**'' then
        (if pat = [] then True else list_ex (\<lambda>j. matchGlobSegments pat (drop j seg)) [0..<Suc (length seg)])
      else case seg of
          [] \<Rightarrow> False
        | s # ss \<Rightarrow> if p \<noteq> ''*'' \<and> p \<noteq> s then False else matchGlobSegments pat ss)"

definition MatchesGlob :: "string \<Rightarrow> string \<Rightarrow> bool" where
  "MatchesGlob pattern eventType = matchGlobSegments (segments pattern) (segments eventType)"

fun concrete_segments :: "string list \<Rightarrow> string list" where
  "concrete_segments [] = []"
| "concrete_segments (p # parts) = (if p = ''*'' \<or> p = ''**'' then [''x''] else p # concrete_segments parts)"

definition StreamSubjectFromPattern :: "string \<Rightarrow> string" where
  "StreamSubjectFromPattern pattern = Join (CHR ''.'') (concrete_segments (segments pattern))"

section \<open>Dead-letter names\<close>

definition dlqStreamPrefix :: string where "dlqStreamPrefix = ''DLQ_''"

definition reservedDLQPrefix :: string where "reservedDLQPrefix = ''zynax.dlq.''"

definition dlqStreamName :: "string \<Rightarrow> string" where
  "dlqStreamName sourceStreamName = dlqStreamPrefix @ sourceStreamName"

definition dlqDeliverSubject :: "string \<Rightarrow> string" where
  "dlqDeliverSubject eventType = ''zynax.dlq.'' @ streamPrefix eventType @ ''.dead''"

definition dlqMessageID :: "string \<Rightarrow> nat \<Rightarrow> string" where
  "dlqMessageID streamName seq = dlqStreamName streamName @ '':'' @ show_nat seq"

section \<open>Globs\<close>

text \<open>What a pattern matches: a segment matches itself, one star matches one segment, two stars
  match any number of segments.\<close>

inductive glob :: "string list \<Rightarrow> string list \<Rightarrow> bool" where
  empty: "glob [] []"
| segment: "p \<noteq> ''**'' \<Longrightarrow> p = ''*'' \<or> p = s \<Longrightarrow> glob pat seg \<Longrightarrow> glob (p # pat) (s # seg)"
| stars: "glob pat seg \<Longrightarrow> glob (''**'' # pat) (skipped @ seg)"

inductive_simps glob_Nil [simp]: "glob [] seg"
inductive_cases glob_ConsE: "glob (p # pat) seg"

lemma glob_star_all: "glob [''**''] seg"
  using glob.stars [OF glob.empty, of seg] by simp

lemma matchGlobSegments_glob: "matchGlobSegments pat seg \<longleftrightarrow> glob pat seg"
proof (induction pat arbitrary: seg)
  case Nil
  then show ?case by simp
next
  case (Cons p pat)
  show ?case
  proof (cases "p = ''**''")
    case True
    have "(\<exists>j \<le> length seg. glob pat (drop j seg)) \<longleftrightarrow> glob (''**'' # pat) seg"
    proof
      assume "\<exists>j \<le> length seg. glob pat (drop j seg)"
      then obtain j where "glob pat (drop j seg)" by blast
      then show "glob (''**'' # pat) seg" using glob.stars [of pat "drop j seg" "take j seg"] by simp
    next
      assume "glob (''**'' # pat) seg"
      then obtain skipped rest where "seg = skipped @ rest" "glob pat rest" by (auto elim: glob_ConsE)
      then show "\<exists>j \<le> length seg. glob pat (drop j seg)" by (intro exI [of _ "length skipped"]) simp
    qed
    with True Cons.IH glob_star_all show ?thesis
      by (auto simp: list_ex_iff less_Suc_eq_le simp del: upt_Suc)
  next
    case False
    with Cons.IH show ?thesis
      by (cases seg) (auto elim: glob_ConsE intro: glob.segment)
  qed
qed

text \<open>C38 The glob matcher of subscriptions decides the intended relation between patterns and
  event types: the backtracking over the suffixes is complete.\<close>

theorem MatchesGlob_correct: "MatchesGlob pattern eventType \<longleftrightarrow> glob (segments pattern) (segments eventType)"
  by (simp add: MatchesGlob_def matchGlobSegments_glob)

section \<open>Subjects and streams\<close>

text \<open>Subjects of NATS.  A filter without wildcards selects itself; a filter that ends in \<open>.>\<close> selects
  what continues it by at least one token.\<close>

definition literal_subject :: "string \<Rightarrow> bool" where
  "literal_subject s \<longleftrightarrow> (\<forall>w \<in> set (segments s). w \<noteq> [] \<and> w \<noteq> ''*'' \<and> w \<noteq> ''>'')"

definition nats_subjects :: "(string \<Rightarrow> string \<Rightarrow> bool) \<Rightarrow> bool" where
  "nats_subjects selects \<longleftrightarrow>
     (\<forall>f s. literal_subject f \<longrightarrow> (selects f s \<longleftrightarrow> s = f)) \<and>
     (\<forall>p s. literal_subject p \<longrightarrow> (selects (p @ ''.>'') s \<longleftrightarrow> (\<exists>r. r \<noteq> [] \<and> s = p @ ''.'' @ r)))"

definition captured :: "(string \<Rightarrow> string \<Rightarrow> bool) \<Rightarrow> string \<Rightarrow> string \<Rightarrow> bool" where
  "captured selects eventType s \<longleftrightarrow> (\<exists>f \<in> set (streamSubjects eventType). selects f s)"

lemma segments_prefix:
  assumes "length (segments e) > 4"
  shows "segments (streamPrefix e) = take 4 (segments e)"
    "e = streamPrefix e @ ''.'' @ Join (CHR ''.'') (drop 4 (segments e))" "streamPrefix e \<noteq> e"
proof -
  let ?s = "segments e" and ?d = "CHR ''.''"
  have pre: "streamPrefix e = Join ?d (take 4 ?s)"
    using assms by (simp add: streamPrefix_def streamSubjectDepth_def Let_def)
  have ne: "take 4 ?s \<noteq> []" "drop 4 ?s \<noteq> []" using assms by auto
  show seg: "segments (streamPrefix e) = take 4 ?s"
    unfolding pre using ne(1) by (intro Split_Join) (auto dest!: in_set_takeD Split_no_sep)
  show "e = streamPrefix e @ ''.'' @ Join ?d (drop 4 ?s)"
    using Join_append [OF ne, of ?d] by (simp add: pre)
  have "length (take 4 ?s) \<noteq> length ?s" using assms by simp
  then show "streamPrefix e \<noteq> e" using seg by metis
qed

lemma streamPrefix_short: "length (segments e) \<le> 4 \<Longrightarrow> streamPrefix e = e"
  by (simp add: streamPrefix_def streamSubjectDepth_def)

lemma Join_not_Nil: "ws \<noteq> [] \<Longrightarrow> hd ws \<noteq> [] \<Longrightarrow> Join c ws \<noteq> []"
  by (induction c ws rule: Join.induct) auto

lemma literal_prefix: "literal_subject e \<Longrightarrow> literal_subject (streamPrefix e)"
  by (cases "length (segments e) > 4") (auto simp: segments_prefix literal_subject_def streamPrefix_short dest: in_set_takeD)

lemma literal_rest: "literal_subject e \<Longrightarrow> length (segments e) > 4 \<Longrightarrow> Join (CHR ''.'') (drop 4 (segments e)) \<noteq> []"
  by (rule Join_not_Nil) (auto simp: literal_subject_def hd_drop_conv_nth)

lemma captured_deep:
  assumes "nats_subjects m" "literal_subject e" "length (segments e) > 4"
  shows "captured m e s \<longleftrightarrow> s = streamPrefix e \<or> (\<exists>r. r \<noteq> [] \<and> s = streamPrefix e @ ''.'' @ r)"
  using assms literal_prefix [OF assms(2)] segments_prefix(3) [OF assms(3)]
  by (auto simp: captured_def streamSubjects_def nats_subjects_def Let_def)

lemma captured_short:
  assumes "nats_subjects m" "literal_subject e" "length (segments e) \<le> 4"
  shows "captured m e s \<longleftrightarrow> s = e"
  using assms by (auto simp: captured_def streamSubjects_def nats_subjects_def streamPrefix_short)

lemma captured_segments:
  assumes "nats_subjects m" "literal_subject e" "length (segments e) > 4" "captured m e s"
  shows "length (segments s) \<ge> 4 \<and> take 4 (segments s) = segments (streamPrefix e)"
proof -
  have "segments (streamPrefix e) = take 4 (segments e)" "length (take 4 (segments e)) = 4"
    using segments_prefix(1) assms(3) by auto
  then have len: "length (segments (streamPrefix e)) = 4" by simp
  from assms(4) captured_deep [OF assms(1-3)] consider "s = streamPrefix e" | r where "s = streamPrefix e @ CHR ''.'' # r"
    by auto
  then show ?thesis
  proof cases
    case 1
    then show ?thesis using len by simp
  next
    case 2
    then have "segments s = segments (streamPrefix e) @ segments r" by (simp only: Split_append)
    then show ?thesis using len by simp
  qed
qed

text \<open>The stream a publisher provisions for an event type captures the event, and the subject
  sets of two event types are equal or disjoint, so that the streams never overlap: except
  when one of the types has exactly the four segments of an entity prefix, whose set is then
  a proper part of the set of the types below it, under the same stream name.\<close>

theorem stream_subjects_disjoint:
  assumes m: "nats_subjects m" and e: "literal_subject e1" "literal_subject e2"
  shows "captured m e1 e1 \<and>
    (length (segments e1) \<noteq> 4 \<and> length (segments e2) \<noteq> 4 \<longrightarrow>
       streamSubjects e1 = streamSubjects e2 \<or> (\<nexists>s. captured m e1 s \<and> captured m e2 s)) \<and>
    (length (segments e1) = 4 \<and> streamPrefix e2 = e1 \<and> e2 \<noteq> e1 \<longrightarrow>
       StreamName e1 = StreamName e2 \<and> captured m e2 e1 \<and> \<not> captured m e1 e2)"
proof (intro conjI impI)
  show "captured m e1 e1"
  proof (cases "length (segments e1) > 4")
    case True
    then show ?thesis using captured_deep [OF m e(1)] segments_prefix(2) literal_rest [OF e(1)] by blast
  qed (use captured_short [OF m e(1)] in simp)
next
  assume ne4: "length (segments e1) \<noteq> 4 \<and> length (segments e2) \<noteq> 4"
  have deep_short: False if "captured m a s" "captured m b s" "length (segments a) > 4" "length (segments b) < 4"
      "literal_subject a" "literal_subject b" for a b s
    using captured_segments [OF m that(5,3,1)] captured_short [OF m that(6)] that(2,4) by auto
  show "streamSubjects e1 = streamSubjects e2 \<or> (\<nexists>s. captured m e1 s \<and> captured m e2 s)"
  proof (rule disjCI)
    assume "\<not> (\<nexists>s. captured m e1 s \<and> captured m e2 s)"
    then obtain s where s: "captured m e1 s" "captured m e2 s" by blast
    consider "length (segments e1) > 4" "length (segments e2) > 4" | "length (segments e1) < 4" "length (segments e2) < 4"
      using ne4 deep_short s e by (meson linorder_neqE_nat)
    then show "streamSubjects e1 = streamSubjects e2"
    proof cases
      case 1
      then have "segments (streamPrefix e1) = segments (streamPrefix e2)"
        using captured_segments [OF m e(1) _ s(1)] captured_segments [OF m e(2) _ s(2)] by simp
      then have "streamPrefix e1 = streamPrefix e2" by (rule Split_inj)
      then show ?thesis using segments_prefix(3) [OF 1(1)] segments_prefix(3) [OF 1(2)] by (simp add: streamSubjects_def Let_def)
    next
      case 2
      then show ?thesis using captured_short [OF m e(1)] captured_short [OF m e(2)] s by simp
    qed
  qed
next
  assume a: "length (segments e1) = 4 \<and> streamPrefix e2 = e1 \<and> e2 \<noteq> e1"
  then have deep: "length (segments e2) > 4" using streamPrefix_short [of e2] by (metis not_le)
  show "StreamName e1 = StreamName e2" using a by (simp add: StreamName_def streamPrefix_short)
  show "captured m e2 e1" using captured_deep [OF m e(2) deep] a by simp
  show "\<not> captured m e1 e2" using captured_short [OF m e(1)] a by simp
qed

lemma glob_take:
  "glob ps ss \<Longrightarrow> \<forall>p \<in> set (take n ps). p \<noteq> ''*'' \<and> p \<noteq> ''**'' \<Longrightarrow> n \<le> length ps \<Longrightarrow> take n ss = take n ps"
proof (induction n arbitrary: ps ss)
  case (Suc n)
  then obtain p pat where ps: "ps = p # pat" by (cases ps) auto
  with Suc.prems obtain s seg where "ss = s # seg" "p = s" "glob pat seg" by (auto elim: glob_ConsE)
  with Suc ps show ?case by simp
qed simp

lemma concrete_take:
  "\<forall>p \<in> set (take n ps). p \<noteq> ''*'' \<and> p \<noteq> ''**'' \<Longrightarrow> n < length ps \<Longrightarrow>
   take n (concrete_segments ps) = take n ps \<and> n < length (concrete_segments ps)"
proof (induction n arbitrary: ps)
  case 0
  then show ?case by (cases ps) auto
next
  case (Suc n)
  then show ?case by (cases ps) auto
qed

lemma concrete_no_sep: "w \<in> set (concrete_segments (segments s)) \<Longrightarrow> CHR ''.'' \<notin> set w"
proof -
  have "w \<in> set (concrete_segments ps) \<Longrightarrow> w \<in> set ps \<or> w = ''x''" for ps
    by (induction ps) (auto split: if_splits)
  then show "w \<in> set (concrete_segments (segments s)) \<Longrightarrow> CHR ''.'' \<notin> set w" using Split_no_sep by fastforce
qed

text \<open>C39 A subscription whose pattern names the four segments of an entity and at least one more
  reads from a stream, with a filter, that carries every event type of five or more segments
  its pattern matches.\<close>

theorem subscription_covers:
  assumes m: "nats_subjects m" and "literal_subject e" "length (segments e) > 4" "MatchesGlob pattern e"
    and pat: "length (segments pattern) > 4" "\<forall>p \<in> set (take 4 (segments pattern)). p \<noteq> ''*'' \<and> p \<noteq> ''**''"
  shows "m (SubjectFilter (StreamSubjectFromPattern pattern)) e \<and>
    StreamName (StreamSubjectFromPattern pattern) = StreamName e"
proof -
  let ?d = "CHR ''.''" and ?ps = "segments pattern"
  define c where "c = StreamSubjectFromPattern pattern"
  have ct: "take 4 (concrete_segments ?ps) = take 4 ?ps" "4 < length (concrete_segments ?ps)"
    using concrete_take [OF pat(2,1)] by auto
  then have "concrete_segments ?ps \<noteq> []" by auto
  from Split_Join [OF this, of ?d] have segs: "segments c = concrete_segments ?ps"
    using concrete_no_sep by (simp add: c_def StreamSubjectFromPattern_def)
  have "take 4 (segments e) = take 4 ?ps"
    using assms(4) pat by (intro glob_take) (simp_all add: MatchesGlob_def matchGlobSegments_glob)
  with segs ct segments_prefix(1) [of c] segments_prefix(1) [OF assms(3)] have "segments (streamPrefix c) = segments (streamPrefix e)"
    by simp
  then have pre: "streamPrefix c = streamPrefix e" by (rule Split_inj)
  have "SubjectFilter c = streamPrefix e @ ''.>''"
    using segments_prefix(3) [of c] segs ct(2) pre by (simp add: SubjectFilter_def Let_def)
  moreover have "m (streamPrefix e @ ''.>'') e"
    using m literal_prefix [OF assms(2)] segments_prefix(2) [OF assms(3)] literal_rest [OF assms(2,3)]
    unfolding nats_subjects_def by blast
  ultimately show ?thesis using pre by (simp add: c_def [symmetric] StreamName_def)
qed

end
