(* ===== verification/Events_Client.thy ===== *)
theory Events_Client
  imports Events_Naming "HOL-Library.Word"
begin

text \<open>
  The JetStream events client (\<^verbatim>\<open>libs/zynaxevents\<close>): publishing (\<^verbatim>\<open>publish.go\<close>), subscriptions
  (\<^verbatim>\<open>subscribe.go\<close>), event types (\<^verbatim>\<open>events.go\<close>), and the forwarding of undeliverable messages to
  dead-letter streams (\<^verbatim>\<open>dlq.go\<close>, \<^verbatim>\<open>dlq_forward.go\<close>).

  JetStream is a parameter: a record of the calls the client makes, over a state of its own.
\<close>

section \<open>Events and JetStream\<close>

record CloudEvent =
  ce_ID :: string
  ce_Source :: string
  ce_SpecVersion :: string
  ce_Type :: string
  ce_DataContentType :: string
  ce_Time :: int
  ce_Data :: string
  ce_WorkflowID :: string
  ce_RunID :: string
  ce_Namespace :: string
  ce_CapabilityName :: string

record SubscribeRequest =
  sr_SubscriberID :: string
  sr_TypePattern :: string
  sr_WorkflowID :: string

definition terminalWorkflowVerbs :: "string list" where
  "terminalWorkflowVerbs =
     [''workflow.completed'', ''workflow.failed'', ''workflow.terminated'', ''workflow.canceled'', ''workflow.timed_out'']"

definition IsTerminalEventType :: "string \<Rightarrow> bool" where
  "IsTerminalEventType eventType =
     list_ex (\<lambda>verb. eventType = verb \<or> HasSuffix eventType (CHR ''.'' # verb)) terminalWorkflowVerbs"

datatype js_error =
    ErrStreamNameAlreadyInUse | ErrMsgNotFound | ErrConsumerNotFound | ErrConnectionClosed
  | ErrBadSubscription | JsOther string

datatype events_err = ErrReservedPrefix | ErrSubscriberNotFound | CtxErr ctx_error | JsErr js_error

type_synonym events_error = "events_err go_error"

type_synonym nats_header = "(string, string list) gomap"

record nats_msg =
  m_Subject :: string
  m_Data :: string
  m_Header :: nats_header

record PubAck =
  pa_Stream :: string
  pa_Sequence :: nat
  pa_Duplicate :: bool

datatype Retention = LimitsPolicy | WorkQueuePolicy

record StreamConfig =
  cfg_Name :: string
  cfg_Subjects :: "string list"
  cfg_Retention :: Retention
  cfg_MaxConsumers :: "int option"
  cfg_Duplicates :: "int option"

record ConsumerConfig =
  cc_Subject :: string
  cc_Durable :: string
  cc_Bind :: "(string \<times> string) option"
  cc_MaxDeliver :: nat
  cc_BackOff :: "int list"
  cc_DeliverSubject :: "string option"

record 'j jetstream =
  js_AddStream :: "'j \<Rightarrow> StreamConfig \<Rightarrow> js_error option \<times> 'j"
  js_PublishMsg :: "'j \<Rightarrow> nats_msg \<Rightarrow> string option \<Rightarrow> (js_error + PubAck) \<times> 'j"
  js_GetMsg :: "'j \<Rightarrow> string \<Rightarrow> nat \<Rightarrow> js_error + nats_msg"
  js_SubscribeSync :: "'j \<Rightarrow> ConsumerConfig \<Rightarrow> js_error option \<times> 'j"
  js_DeleteConsumer :: "'j \<Rightarrow> string \<Rightarrow> string \<Rightarrow> js_error option \<times> 'j"
  js_StreamNames :: "'j \<Rightarrow> string list"

definition header_Set :: "string \<Rightarrow> string \<Rightarrow> nats_header \<Rightarrow> nats_header" where
  "header_Set k v h = gm_put k [v] h"

section \<open>Publishing\<close>

definition envelope_members :: "CloudEvent \<Rightarrow> (string \<times> string) list" where
  "envelope_members e =
     [(''specversion'', ce_SpecVersion e), (''id'', ce_ID e), (''source'', ce_Source e), (''type'', ce_Type e)] @
     filter (\<lambda>(k, v). v \<noteq> '''')
       [(''datacontenttype'', ce_DataContentType e), (''workflowid'', ce_WorkflowID e), (''runid'', ce_RunID e),
        (''namespace'', ce_Namespace e), (''capabilityname'', ce_CapabilityName e), (''data'', b64_EncodeToString (ce_Data e))]"

definition marshal_envelope :: "CloudEvent \<Rightarrow> string" where
  "marshal_envelope e = print_members (envelope_members e)"

definition ensureStream :: "'j jetstream \<Rightarrow> 'j \<Rightarrow> string \<Rightarrow> events_error option \<times> 'j" where
  "ensureStream js s eventType =
     (let name = StreamName eventType;
          cfg = \<lparr>cfg_Name = name, cfg_Subjects = streamSubjects eventType, cfg_Retention = LimitsPolicy,
                 cfg_MaxConsumers = None, cfg_Duplicates = None\<rparr>
      in case js_AddStream js s cfg of
          (None, s1) \<Rightarrow> (None, s1)
        | (Some err, s1) \<Rightarrow>
            if err = ErrStreamNameAlreadyInUse then (None, s1)
            else (Some (Wrapf ''jetstream add stream %s: %w'' [FS name] (Typed (JsErr err))), s1))"

text \<open>\<open>inject\<close> adds the headers of the active trace.\<close>

definition publish_msg :: "(nats_header \<Rightarrow> nats_header) \<Rightarrow> CloudEvent \<Rightarrow> nats_msg" where
  "publish_msg inject event =
     \<lparr>m_Subject = ce_Type event, m_Data = marshal_envelope event,
      m_Header = inject (header_Set ''ce-source'' (ce_Source event) (header_Set ''ce-type'' (ce_Type event)
        (header_Set ''ce-id'' (ce_ID event) (header_Set ''Content-Type'' ''application/cloudevents+json'' []))))\<rparr>"

definition Publish ::
  "'j jetstream \<Rightarrow> (nats_header \<Rightarrow> nats_header) \<Rightarrow> ctx_error option \<Rightarrow> 'j \<Rightarrow> CloudEvent \<Rightarrow> (events_error + string) \<times> 'j" where
  "Publish js inject ctx s event =
     (case ctx of Some err \<Rightarrow> (Inl (Wrapf ''context: %w'' [] (Typed (CtxErr err))), s)
      | None \<Rightarrow>
      if HasPrefix (ce_Type event) reservedDLQPrefix
      then (Inl (Wrapf ''nats publish: %w: %s'' [FS (ce_Type event)] (Typed ErrReservedPrefix)), s)
      else case ensureStream js s (ce_Type event) of
        (Some err, s1) \<Rightarrow> (Inl (Wrapf ''nats publish: ensure stream: %w'' [] err), s1)
      | (None, s1) \<Rightarrow>
      (case js_PublishMsg js s1 (publish_msg inject event) None of
         (Inl err, s2) \<Rightarrow> (Inl (Wrapf ''nats publish: publish msg: %w'' [] (Typed (JsErr err))), s2)
       | (Inr ack, s2) \<Rightarrow> (Inr (pa_Stream ack @ '':'' @ show_nat (pa_Sequence ack)), s2)))"

section \<open>Dead-letter streams\<close>

definition dlqDuplicateWindow :: int where "dlqDuplicateWindow = 120 * 1000000000"

definition ensureDLQStream :: "'j jetstream \<Rightarrow> 'j \<Rightarrow> string \<Rightarrow> string \<Rightarrow> events_error option \<times> 'j" where
  "ensureDLQStream js s sourceStreamName eventType =
     (let dlqName = dlqStreamName sourceStreamName;
          cfg = \<lparr>cfg_Name = dlqName, cfg_Subjects = [dlqDeliverSubject eventType], cfg_Retention = WorkQueuePolicy,
                 cfg_MaxConsumers = Some 1, cfg_Duplicates = Some dlqDuplicateWindow\<rparr>
      in case js_AddStream js s cfg of
          (None, s1) \<Rightarrow> (None, s1)
        | (Some err, s1) \<Rightarrow>
            if err = ErrStreamNameAlreadyInUse then (None, s1)
            else (Some (Wrapf ''jetstream add dlq stream %s: %w'' [FS dlqName] (Typed (JsErr err))), s1))"

section \<open>Subscribing\<close>

definition RetryBackoff :: "int list" where
  "RetryBackoff = map (\<lambda>s. s * 1000000000) [1, 5, 30, 120, 300]"

definition openSubscription ::
  "'j jetstream \<Rightarrow> 'j \<Rightarrow> string \<Rightarrow> string \<Rightarrow> string \<Rightarrow> string \<Rightarrow> events_error option \<times> 'j" where
  "openSubscription js s streamName subject durName dlqDeliverSubj =
     (case js_SubscribeSync js s \<lparr>cc_Subject = subject, cc_Durable = durName, cc_Bind = Some (streamName, durName),
             cc_MaxDeliver = 5, cc_BackOff = RetryBackoff, cc_DeliverSubject = Some dlqDeliverSubj\<rparr> of
        (None, s1) \<Rightarrow> (None, s1)
      | (Some _, s1) \<Rightarrow>
          (case js_SubscribeSync js s1 \<lparr>cc_Subject = subject, cc_Durable = durName, cc_Bind = None,
                  cc_MaxDeliver = 5, cc_BackOff = RetryBackoff, cc_DeliverSubject = None\<rparr> of
             (None, s2) \<Rightarrow> (None, s2)
           | (Some err, s2) \<Rightarrow> (Some (Wrapf ''open subscription %s: %w'' [FS durName] (Typed (JsErr err))), s2)))"

definition decode_bytes :: "json \<Rightarrow> string option" where
  "decode_bytes j = (case j of JStr s \<Rightarrow> b64_DecodeString s | JNull \<Rightarrow> Some '''' | _ \<Rightarrow> None)"

definition unmarshal_envelope :: "string \<Rightarrow> CloudEvent option" where
  "unmarshal_envelope data =
     (case Option.bind (json_Unmarshal data) decode_struct of
        None \<Rightarrow> None
      | Some m \<Rightarrow>
          (case (map (\<lambda>k. decode_string (struct_field k m))
                   [''specversion'', ''id'', ''source'', ''type'', ''datacontenttype'', ''workflowid'', ''runid'',
                    ''namespace'', ''capabilityname''],
                 decode_bytes (struct_field ''data'' m)) of
             ([Some sv, Some i, Some src, Some ty, Some dct, Some wid, Some run, Some ns, Some cap], Some dat) \<Rightarrow>
               Some \<lparr>ce_ID = i, ce_Source = src, ce_SpecVersion = sv, ce_Type = ty, ce_DataContentType = dct, ce_Time = 0,
                     ce_Data = dat, ce_WorkflowID = wid, ce_RunID = run, ce_Namespace = ns, ce_CapabilityName = cap\<rparr>
           | _ \<Rightarrow> None))"

text \<open>One delivery: what becomes of the message, the event sent to the subscriber if any, and
  whether the subscription stops.  \<open>cancelled\<close> says whether the context ends before the
  subscriber takes the event.\<close>

datatype msg_ack = Ack | Nak

definition dispatchMsg :: "bool \<Rightarrow> nats_msg \<Rightarrow> SubscribeRequest \<Rightarrow> msg_ack \<times> CloudEvent option \<times> bool" where
  "dispatchMsg cancelled msg req =
     (case unmarshal_envelope (m_Data msg) of
        None \<Rightarrow> (Nak, None, False)
      | Some event \<Rightarrow>
          if \<not> MatchesGlob (sr_TypePattern req) (ce_Type event) then (Ack, None, False)
          else if sr_WorkflowID req \<noteq> '''' \<and> ce_WorkflowID event \<noteq> sr_WorkflowID req then (Ack, None, False)
          else if cancelled then (Nak, None, True)
          else (Ack, Some event, sr_WorkflowID req \<noteq> '''' \<and> IsTerminalEventType (ce_Type event)))"

text \<open>The goroutine of a subscription over what it meets turn by turn: the context ended, a
  message (with whether the context ends while it is handed over), or an error of the
  subscription.  It gives the events delivered, and whether the channel was closed.\<close>

datatype sub_turn = TurnDone | TurnMsg nats_msg bool | TurnErr js_error

fun subscription_loop :: "SubscribeRequest \<Rightarrow> sub_turn list \<Rightarrow> CloudEvent list \<times> bool" where
  "subscription_loop req [] = ([], False)"
| "subscription_loop req (TurnDone # ts) = ([], True)"
| "subscription_loop req (TurnErr err # ts) =
     (if err = ErrConnectionClosed \<or> err = ErrBadSubscription then ([], True) else subscription_loop req ts)"
| "subscription_loop req (TurnMsg msg cancelled # ts) =
     (case dispatchMsg cancelled msg req of
        (_, ev, stop) \<Rightarrow>
          (case (if stop then ([], True) else subscription_loop req ts) of
             (evs, closed) \<Rightarrow> ((case ev of None \<Rightarrow> evs | Some e \<Rightarrow> e # evs), closed)))"

definition Subscribe ::
  "'j jetstream \<Rightarrow> ctx_error option \<Rightarrow> 'j \<Rightarrow> SubscribeRequest \<Rightarrow> events_error option \<times> 'j" where
  "Subscribe js ctx s req =
     (case ctx of Some err \<Rightarrow> (Some (Wrapf ''context: %w'' [] (Typed (CtxErr err))), s)
      | None \<Rightarrow>
      let streamSubject = StreamSubjectFromPattern (sr_TypePattern req);
          streamName = StreamName streamSubject
      in case ensureStream js s streamSubject of
        (Some err, s1) \<Rightarrow> (Some (Wrapf ''subscribe: ensure stream: %w'' [] err), s1)
      | (None, s1) \<Rightarrow>
      (case ensureDLQStream js s1 streamName streamSubject of
         (Some err, s2) \<Rightarrow> (Some (Wrapf ''subscribe: ensure dlq stream: %w'' [] err), s2)
       | (None, s2) \<Rightarrow>
      (case openSubscription js s2 streamName (SubjectFilter streamSubject) (DurableConsumerName (sr_SubscriberID req))
              (dlqDeliverSubject streamSubject) of
         (Some err, s3) \<Rightarrow> (Some (Wrapf ''subscribe: jetstream subscribe: %w'' [] err), s3)
       | (None, s3) \<Rightarrow> (None, s3))))"

text \<open>Unsubscribing tries the streams one after the other; \<open>ctx\<close> is the context's error at each.\<close>

fun unsubscribe_loop ::
  "'j jetstream \<Rightarrow> (string \<Rightarrow> ctx_error option) \<Rightarrow> 'j \<Rightarrow> string \<Rightarrow> string list \<Rightarrow> events_error option \<times> 'j" where
  "unsubscribe_loop js ctx s durName [] = (Some (Typed ErrSubscriberNotFound), s)"
| "unsubscribe_loop js ctx s durName (name # names) =
     (case ctx name of Some err \<Rightarrow> (Some (Wrapf ''context: %w'' [] (Typed (CtxErr err))), s)
      | None \<Rightarrow>
      if HasPrefix name ''DLQ_'' then unsubscribe_loop js ctx s durName names
      else case js_DeleteConsumer js s name durName of
          (None, s1) \<Rightarrow> (None, s1)
        | (Some err, s1) \<Rightarrow>
            if err = ErrConsumerNotFound then unsubscribe_loop js ctx s1 durName names
            else (Some (Wrapf ''unsubscribe: delete consumer %s from stream %s: %w'' [FS durName, FS name] (Typed (JsErr err))), s1))"

definition Unsubscribe ::
  "'j jetstream \<Rightarrow> ctx_error option \<Rightarrow> (string \<Rightarrow> ctx_error option) \<Rightarrow> 'j \<Rightarrow> string \<Rightarrow> events_error option \<times> 'j" where
  "Unsubscribe js ctx0 ctx s subscriberID =
     (case ctx0 of Some err \<Rightarrow> (Some (Wrapf ''context: %w'' [] (Typed (CtxErr err))), s)
      | None \<Rightarrow> unsubscribe_loop js ctx s (DurableConsumerName subscriberID) (js_StreamNames js s))"

section \<open>The dead-letter forwarder\<close>

record maxDeliveriesAdvisory =
  adv_Type :: string
  adv_Stream :: string
  adv_Consumer :: string
  adv_StreamSeq :: nat
  adv_Deliveries :: nat

record DLQForwarderStats =
  fs_Forwarded :: "64 word"
  fs_Deduplicated :: "64 word"
  fs_Skipped :: "64 word"
  fs_Failed :: "64 word"

definition natsHeaderPrefix :: string where "natsHeaderPrefix = ''Nats-''"

definition dlqPublishAttempts :: nat where "dlqPublishAttempts = 3"

definition decode_uint64 :: "json \<Rightarrow> nat option" where
  "decode_uint64 j =
     (case j of JNull \<Rightarrow> Some 0
      | JNum t \<Rightarrow> if t \<noteq> '''' \<and> list_all is_digit t \<and> digits_val t < 18446744073709551616 then Some (digits_val t) else None
      | _ \<Rightarrow> None)"

definition unmarshal_advisory :: "string \<Rightarrow> maxDeliveriesAdvisory option" where
  "unmarshal_advisory data =
     (case Option.bind (json_Unmarshal data) decode_struct of
        None \<Rightarrow> None
      | Some m \<Rightarrow>
          (case (decode_string (struct_field ''type'' m), decode_string (struct_field ''stream'' m),
                 decode_string (struct_field ''consumer'' m), decode_uint64 (struct_field ''stream_seq'' m),
                 decode_uint64 (struct_field ''deliveries'' m)) of
             (Some ty, Some st, Some con, Some seq, Some del) \<Rightarrow>
               Some \<lparr>adv_Type = ty, adv_Stream = st, adv_Consumer = con, adv_StreamSeq = seq, adv_Deliveries = del\<rparr>
           | _ \<Rightarrow> None))"

definition advisoryNotActionable :: "maxDeliveriesAdvisory \<Rightarrow> string \<times> bool" where
  "advisoryNotActionable adv =
     (if adv_Stream adv = '''' then (''advisory carries no stream'', False)
      else if adv_StreamSeq adv = 0 then (''advisory carries no stream sequence'', False)
      else if HasPrefix (adv_Stream adv) dlqStreamPrefix then (''source is itself a dlq stream'', False)
      else ('''', True))"

definition sourceForwardable :: "string \<Rightarrow> string \<Rightarrow> string \<times> bool" where
  "sourceForwardable streamName subject =
     (if HasPrefix subject reservedDLQPrefix then (''subject is already under the reserved dlq prefix'', False)
      else if StreamName subject \<noteq> streamName then (''stream not derived from the zynax subject taxonomy'', False)
      else ('''', True))"

definition dlqHeader :: "nats_header \<Rightarrow> maxDeliveriesAdvisory \<Rightarrow> string \<Rightarrow> nats_header" where
  "dlqHeader src adv subject =
     header_Set ''Zynax-Dlq-Deliveries'' (show_nat (adv_Deliveries adv))
       (header_Set ''Zynax-Dlq-Consumer'' (adv_Consumer adv)
         (header_Set ''Zynax-Dlq-Source-Sequence'' (show_nat (adv_StreamSeq adv))
           (header_Set ''Zynax-Dlq-Source-Subject'' subject
             (header_Set ''Zynax-Dlq-Source-Stream'' (adv_Stream adv)
               (filter (\<lambda>(k, v). \<not> HasPrefix k natsHeaderPrefix) src)))))"

text \<open>The attempts to publish; \<open>stopped n\<close> says whether the forwarder is stopped while it waits
  before attempt \<open>n\<close>.\<close>

fun dlq_attempts ::
  "'j jetstream \<Rightarrow> (nat \<Rightarrow> bool) \<Rightarrow> 'j \<Rightarrow> nats_msg \<Rightarrow> string \<Rightarrow> nat \<Rightarrow> nat \<Rightarrow> js_error option \<Rightarrow> (events_error + bool) \<times> 'j" where
  "dlq_attempts js stopped s out msgID attempt 0 lastErr =
     (Inl (Wrapf ''publish to %s after %d attempts: %w'' [FS (m_Subject out), FI (int attempt)]
        (Typed (JsErr (the lastErr)))), s)"
| "dlq_attempts js stopped s out msgID attempt (Suc left) lastErr =
     (if attempt > 0 \<and> stopped attempt
      then (Inl (Wrapf ''publish to %s: stopped after %d attempts: %w'' [FS (m_Subject out), FI (int attempt)]
              (Typed (JsErr (the lastErr)))), s)
      else case js_PublishMsg js s out (Some msgID) of
          (Inl err, s1) \<Rightarrow> dlq_attempts js stopped s1 out msgID (attempt + 1) left (Some err)
        | (Inr ack, s1) \<Rightarrow> (Inr (pa_Duplicate ack), s1))"

definition publishToDLQ ::
  "'j jetstream \<Rightarrow> (nat \<Rightarrow> bool) \<Rightarrow> 'j \<Rightarrow> DLQForwarderStats \<Rightarrow> maxDeliveriesAdvisory \<Rightarrow> nats_msg \<Rightarrow>
   events_error option \<times> DLQForwarderStats \<times> 'j" where
  "publishToDLQ js stopped s f adv raw =
     (let out = \<lparr>m_Subject = dlqDeliverSubject (m_Subject raw), m_Data = m_Data raw,
                 m_Header = dlqHeader (m_Header raw) adv (m_Subject raw)\<rparr>
      in case dlq_attempts js stopped s out (dlqMessageID (adv_Stream adv) (adv_StreamSeq adv)) 0 dlqPublishAttempts None of
          (Inl err, s1) \<Rightarrow> (Some err, f, s1)
        | (Inr True, s1) \<Rightarrow> (None, f\<lparr>fs_Deduplicated := fs_Deduplicated f + 1\<rparr>, s1)
        | (Inr False, s1) \<Rightarrow> (None, f\<lparr>fs_Forwarded := fs_Forwarded f + 1\<rparr>, s1))"

definition forward ::
  "'j jetstream \<Rightarrow> (nat \<Rightarrow> bool) \<Rightarrow> 'j \<Rightarrow> DLQForwarderStats \<Rightarrow> maxDeliveriesAdvisory \<Rightarrow>
   events_error option \<times> DLQForwarderStats \<times> 'j" where
  "forward js stopped s f adv =
     (case js_GetMsg js s (adv_Stream adv) (adv_StreamSeq adv) of
        Inl err \<Rightarrow>
          if err = ErrMsgNotFound then (None, f\<lparr>fs_Skipped := fs_Skipped f + 1\<rparr>, s)
          else (Some (Wrapf ''get source message %s:%d: %w'' [FS (adv_Stream adv), FI (int (adv_StreamSeq adv))]
                  (Typed (JsErr err))), f, s)
      | Inr raw \<Rightarrow>
          if \<not> snd (sourceForwardable (adv_Stream adv) (m_Subject raw))
          then (None, f\<lparr>fs_Skipped := fs_Skipped f + 1\<rparr>, s)
          else case ensureDLQStream js s (adv_Stream adv) (m_Subject raw) of
              (Some err, s1) \<Rightarrow> (Some (Wrapf ''ensure dlq stream for %s: %w'' [FS (adv_Stream adv)] err), f, s1)
            | (None, s1) \<Rightarrow> publishToDLQ js stopped s1 f adv raw)"

definition handle ::
  "'j jetstream \<Rightarrow> (nat \<Rightarrow> bool) \<Rightarrow> 'j \<Rightarrow> DLQForwarderStats \<Rightarrow> string \<Rightarrow> DLQForwarderStats \<times> 'j" where
  "handle js stopped s f data =
     (case unmarshal_advisory data of
        None \<Rightarrow> (f\<lparr>fs_Skipped := fs_Skipped f + 1\<rparr>, s)
      | Some adv \<Rightarrow>
          if \<not> snd (advisoryNotActionable adv) then (f\<lparr>fs_Skipped := fs_Skipped f + 1\<rparr>, s)
          else case forward js stopped s f adv of
              (Some err, f1, s1) \<Rightarrow> (f1\<lparr>fs_Failed := fs_Failed f1 + 1\<rparr>, s1)
            | (None, f1, s1) \<Rightarrow> (f1, s1))"

fun handle_all ::
  "'j jetstream \<Rightarrow> (nat \<Rightarrow> bool) \<Rightarrow> 'j \<Rightarrow> DLQForwarderStats \<Rightarrow> string list \<Rightarrow> DLQForwarderStats \<times> 'j" where
  "handle_all js stopped s f [] = (f, s)"
| "handle_all js stopped s f (d # ds) = (case handle js stopped s f d of (f1, s1) \<Rightarrow> handle_all js stopped s1 f1 ds)"

section \<open>Properties\<close>

definition stats_total :: "DLQForwarderStats \<Rightarrow> 64 word" where
  "stats_total f = fs_Forwarded f + fs_Deduplicated f + fs_Skipped f + fs_Failed f"

lemma forward_counts:
  "forward js stopped s f adv = (e, f1, s1) \<Longrightarrow> stats_total f1 = (if e = None then stats_total f + 1 else stats_total f)"
  by (auto simp: forward_def publishToDLQ_def stats_total_def Let_def algebra_simps
      split: sum.splits if_splits prod.splits option.splits bool.splits)

lemma handle_counts: "handle js stopped s f d = (f1, s1) \<Longrightarrow> stats_total f1 = stats_total f + 1"
  by (auto simp: handle_def stats_total_def algebra_simps split: option.splits if_splits prod.splits
      dest!: forward_counts)

text \<open>The forwarder accounts for every advisory exactly once: whatever JetStream answers, the
  four counters together grow by the number of advisories handled (modulo the width of the
  counters).\<close>

theorem forwarder_accounts_all:
  "handle_all js stopped s f ds = (f', s') \<Longrightarrow> stats_total f' = stats_total f + of_nat (length ds)"
proof (induction ds arbitrary: s f)
  case (Cons d ds)
  obtain f1 s1 where h: "handle js stopped s f d = (f1, s1)" by fastforce
  with Cons show ?case using handle_counts [OF h] by (simp add: algebra_simps)
qed simp

text \<open>An event whose attributes are well-formed UTF-8.\<close>

definition event_utf8 :: "CloudEvent \<Rightarrow> bool" where
  "event_utf8 e \<longleftrightarrow> (\<forall>v \<in> {ce_ID e, ce_Source e, ce_SpecVersion e, ce_Type e, ce_DataContentType e, ce_WorkflowID e,
     ce_RunID e, ce_Namespace e, ce_CapabilityName e}. to_valid_utf8 v = v)"

definition envelope_keys :: "string list" where
  "envelope_keys = [''specversion'', ''id'', ''source'', ''type'', ''datacontenttype'', ''workflowid'', ''runid'',
     ''namespace'', ''capabilityname'', ''data'']"

lemma envelope_keys_fold: "k \<in> set envelope_keys \<Longrightarrow> k' \<in> set envelope_keys \<Longrightarrow> EqualFold k k' \<longleftrightarrow> k = k'"
proof -
  have "list_all (\<lambda>k. ToLower k = k) envelope_keys" by code_simp
  then show "k \<in> set envelope_keys \<Longrightarrow> k' \<in> set envelope_keys \<Longrightarrow> EqualFold k k' \<longleftrightarrow> k = k'"
    by (simp add: list_all_iff EqualFold_def)
qed

lemma envelope_keys_utf8: "k \<in> set envelope_keys \<Longrightarrow> to_valid_utf8 k = k"
proof -
  have "list_all (\<lambda>k. to_valid_utf8 k = k) envelope_keys" by code_simp
  then show "k \<in> set envelope_keys \<Longrightarrow> to_valid_utf8 k = k" by (simp add: list_all_iff)
qed

lemma b64_encode_utf8: "to_valid_utf8 (b64_EncodeToString s) = b64_EncodeToString s"
proof (rule to_valid_ascii)
  have "byte (b64_char n) < 128" if "n < 64" for n
    using that by (auto simp: b64_char_def)
  then show "list_all (\<lambda>c. byte c < 128) (b64_EncodeToString s)"
    by (induction s rule: b64_EncodeToString.induct) simp_all
qed

text \<open>The members of the envelope before the empty ones are left out.\<close>

definition all_members :: "CloudEvent \<Rightarrow> (string \<times> string) list" where
  "all_members e =
     [(''specversion'', ce_SpecVersion e), (''id'', ce_ID e), (''source'', ce_Source e), (''type'', ce_Type e),
      (''datacontenttype'', ce_DataContentType e), (''workflowid'', ce_WorkflowID e), (''runid'', ce_RunID e),
      (''namespace'', ce_Namespace e), (''capabilityname'', ce_CapabilityName e), (''data'', b64_EncodeToString (ce_Data e))]"

lemma envelope_members_filter:
  "envelope_members e = take 4 (all_members e) @ filter (\<lambda>(k, v). v \<noteq> '''') (drop 4 (all_members e))"
  by (simp only: envelope_members_def all_members_def) simp

lemma all_members_keys: "map fst (all_members e) = envelope_keys" "gm_ok (all_members e)"
proof -
  show k: "map fst (all_members e) = envelope_keys" by (simp add: all_members_def envelope_keys_def)
  have "distinct envelope_keys" by code_simp
  then show "gm_ok (all_members e)" by (simp add: gm_ok_def k)
qed

lemma set_envelope_members: "set (envelope_members e) \<subseteq> set (all_members e)"
  by (auto simp: envelope_members_filter dest: in_set_takeD in_set_dropD)

lemma envelope_members_keys:
  "set (map fst (envelope_members e)) \<subseteq> set envelope_keys" "gm_ok (envelope_members e)"
proof -
  show "set (map fst (envelope_members e)) \<subseteq> set envelope_keys"
    using set_envelope_members [of e] all_members_keys(1) [of e] by (metis image_mono set_map)
  have "gm_ok (take 4 (all_members e) @ drop 4 (all_members e))" using all_members_keys(2) by simp
  then have "distinct (map fst (take 4 (all_members e)))" "distinct (map fst (drop 4 (all_members e)))"
    "set (map fst (take 4 (all_members e))) \<inter> set (map fst (drop 4 (all_members e))) = {}"
    by (simp_all only: gm_ok_def map_append distinct_append)
  then show "gm_ok (envelope_members e)"
    by (auto simp: envelope_members_filter gm_ok_def distinct_map_filter)
qed

text \<open>The value of each member, with the empty string for one that is left out.\<close>

lemma gm_get_filter: "gm_ok m \<Longrightarrow> gm_get '''' (filter (\<lambda>(k, v). v \<noteq> '''') m) k = gm_get '''' m k"
  by (induction m) (auto simp: gm_get_def split: option.split dest!: map_of_SomeD, force+)

lemma envelope_get: "gm_get '''' (envelope_members e) k = gm_get '''' (all_members e) k"
proof -
  have "gm_ok (drop 4 (all_members e))" using all_members_keys(2) [of e] by (simp add: gm_ok_def drop_map [symmetric])
  from gm_get_filter [OF this] have "gm_get '''' (filter (\<lambda>(k, v). v \<noteq> '''') (drop 4 (all_members e))) k =
      gm_get '''' (drop 4 (all_members e)) k" .
  then have "gm_get '''' (envelope_members e) k = gm_get '''' (take 4 (all_members e) @ drop 4 (all_members e)) k"
    unfolding envelope_members_filter gm_get_def map_of_append map_add_def by (auto split: option.splits)
  then show ?thesis by simp
qed

lemma envelope_member:
  "gm_get '''' (envelope_members e) ''specversion'' = ce_SpecVersion e"
  "gm_get '''' (envelope_members e) ''id'' = ce_ID e"
  "gm_get '''' (envelope_members e) ''source'' = ce_Source e"
  "gm_get '''' (envelope_members e) ''type'' = ce_Type e"
  "gm_get '''' (envelope_members e) ''datacontenttype'' = ce_DataContentType e"
  "gm_get '''' (envelope_members e) ''workflowid'' = ce_WorkflowID e"
  "gm_get '''' (envelope_members e) ''runid'' = ce_RunID e"
  "gm_get '''' (envelope_members e) ''namespace'' = ce_Namespace e"
  "gm_get '''' (envelope_members e) ''capabilityname'' = ce_CapabilityName e"
  "gm_get '''' (envelope_members e) ''data'' = b64_EncodeToString (ce_Data e)"
  by (simp_all add: envelope_get) (simp_all add: all_members_def gm_get_def)

lemma envelope_values_utf8:
  assumes "event_utf8 e" "(k, v) \<in> set (envelope_members e)"
  shows "to_valid_utf8 v = v"
proof -
  have "list_all (\<lambda>p. to_valid_utf8 (snd p) = snd p) (all_members e)"
    using assms(1) by (simp add: all_members_def event_utf8_def b64_encode_utf8)
  moreover have "(k, v) \<in> set (all_members e)" using assms(2) set_envelope_members by blast
  ultimately show ?thesis by (auto simp: list_all_iff)
qed

lemma envelope_json:
  assumes "event_utf8 e"
  shows "json_Unmarshal (marshal_envelope e) = Some (JObj (map (\<lambda>(k, v). (k, JStr v)) (envelope_members e)))"
proof -
  let ?ms = "envelope_members e"
  have same: "map (\<lambda>(k, v). (to_valid_utf8 k, JStr (to_valid_utf8 v))) ?ms = map (\<lambda>(k, v). (k, JStr v)) ?ms"
    using envelope_members_keys(1) [of e] envelope_keys_utf8 envelope_values_utf8 [OF assms] by (fastforce intro!: map_cong)
  have "map (to_valid_utf8 \<circ> fst) ?ms = map fst ?ms"
    using envelope_members_keys(1) [of e] envelope_keys_utf8 by (fastforce intro!: map_cong)
  then have "distinct (map (to_valid_utf8 \<circ> fst) ?ms)"
    using envelope_members_keys(2) [of e] by (simp only: gm_ok_def)
  moreover have "?ms \<noteq> []" by (simp add: envelope_members_def)
  ultimately show ?thesis using json_Unmarshal_print [of ?ms] same by (simp add: marshal_envelope_def)
qed

lemma envelope_field:
  assumes "k \<in> set envelope_keys"
  shows "struct_field k (map (\<lambda>(k, v). (k, JStr v)) (envelope_members e)) =
    (case map_of (envelope_members e) k of None \<Rightarrow> JNull | Some v \<Rightarrow> JStr v)"
proof -
  let ?m = "map (\<lambda>(k, v). (k, JStr v)) (envelope_members e)"
  have "gm_ok ?m" using envelope_members_keys(2) [of e] by (simp add: gm_ok_def comp_def case_prod_beta)
  moreover have "EqualFold j k \<longleftrightarrow> j = k" if "(j, v) \<in> set ?m" for j v
    using that envelope_members_keys(1) [of e] envelope_keys_fold [OF _ assms] by fastforce
  ultimately have "struct_field k ?m = (case map_of ?m k of None \<Rightarrow> JNull | Some v \<Rightarrow> v)"
    by (rule struct_field_map_of)
  then show ?thesis by (simp add: map_of_map split: option.split)
qed

lemma envelope_decode:
  assumes "k \<in> set envelope_keys"
  shows "decode_string (struct_field k (map (\<lambda>(k, v). (k, JStr v)) (envelope_members e))) =
    Some (gm_get '''' (envelope_members e) k)"
  by (simp add: envelope_field [OF assms] decode_string_def gm_get_def split: option.split)

lemma unmarshal_marshal:
  assumes "event_utf8 e"
  shows "unmarshal_envelope (marshal_envelope e) = Some (e\<lparr>ce_Time := 0\<rparr>)"
proof -
  let ?m = "map (\<lambda>(k, v). (k, JStr v)) (envelope_members e)"
  have dat: "decode_bytes (struct_field ''data'' ?m) = Some (ce_Data e)"
  proof -
    have "struct_field ''data'' ?m = (case map_of (envelope_members e) ''data'' of None \<Rightarrow> JNull | Some v \<Rightarrow> JStr v)"
      by (rule envelope_field) (simp add: envelope_keys_def)
    moreover have "map_of (envelope_members e) ''data'' = (if ce_Data e = '''' then None else Some (b64_EncodeToString (ce_Data e)))"
      by (simp add: envelope_members_def)
    ultimately show ?thesis by (simp add: decode_bytes_def)
  qed
  have str: "map (\<lambda>k. decode_string (struct_field k ?m)) [''specversion'', ''id'', ''source'', ''type'', ''datacontenttype'',
      ''workflowid'', ''runid'', ''namespace'', ''capabilityname''] =
      map Some [ce_SpecVersion e, ce_ID e, ce_Source e, ce_Type e, ce_DataContentType e, ce_WorkflowID e, ce_RunID e,
        ce_Namespace e, ce_CapabilityName e]"
  proof -
    have "map (\<lambda>k. decode_string (struct_field k ?m)) ks = map (\<lambda>k. Some (gm_get '''' (envelope_members e) k)) ks"
      if "set ks \<subseteq> set envelope_keys" for ks
      using that envelope_decode [of _ e] by (auto intro!: map_cong)
    from this [of "[''specversion'', ''id'', ''source'', ''type'', ''datacontenttype'',
      ''workflowid'', ''runid'', ''namespace'', ''capabilityname'']"]
    show ?thesis by (simp add: envelope_keys_def envelope_member)
  qed
  show ?thesis
    unfolding unmarshal_envelope_def envelope_json [OF assms]
    by (simp only: Option.bind.simps decode_struct_def json.case option.case str dat) simp
qed


end
