(* ===== verification/Events_Delivery.thy ===== *)
theory Events_Delivery
  imports Events_Client
begin

text \<open>
  Properties of deliveries: the identity of messages moved to a dead-letter stream, what a
  subscriber gets and when its channel closes, the names of consumers.
\<close>

lemma split_last_sep:
  assumes "c \<notin> set u" "c \<notin> set v" "a @ c # u = b @ c # v"
  shows "a = b \<and> u = v"
proof -
  have "rev u @ c # rev a = rev v @ c # rev b" using assms(3) by (metis append.assoc append_Cons append_Nil rev.simps(2) rev_append)
  moreover have "takeWhile (\<lambda>x. x \<noteq> c) (rev u @ c # rev a) = rev u" "takeWhile (\<lambda>x. x \<noteq> c) (rev v @ c # rev b) = rev v"
    using assms(1,2) by (auto simp: takeWhile_append2 takeWhile_tail)
  ultimately show ?thesis by simp
qed

lemma show_nat_no_colon: "CHR '':'' \<notin> set (show_nat n)"
  using show_nat_digits [of n] by (auto simp: list_all_iff is_digit_def)

lemma dlqMessageID_inj: "dlqMessageID s n = dlqMessageID t m \<longleftrightarrow> s = t \<and> n = m"
proof
  assume "dlqMessageID s n = dlqMessageID t m"
  then have "dlqStreamName s @ CHR '':'' # show_nat n = dlqStreamName t @ CHR '':'' # show_nat m"
    by (simp add: dlqMessageID_def)
  from split_last_sep [OF show_nat_no_colon show_nat_no_colon this] show "s = t \<and> n = m"
    using show_nat_inj by (auto simp: dlqStreamName_def)
qed simp

definition forensic_keys :: "string list" where
  "forensic_keys = [''Zynax-Dlq-Deliveries'', ''Zynax-Dlq-Consumer'', ''Zynax-Dlq-Source-Sequence'',
     ''Zynax-Dlq-Source-Subject'', ''Zynax-Dlq-Source-Stream'']"

lemma map_of_dlqHeader:
  "map_of (dlqHeader src adv subject) k =
     (if k = ''Zynax-Dlq-Deliveries'' then Some [show_nat (adv_Deliveries adv)]
      else if k = ''Zynax-Dlq-Consumer'' then Some [adv_Consumer adv]
      else if k = ''Zynax-Dlq-Source-Sequence'' then Some [show_nat (adv_StreamSeq adv)]
      else if k = ''Zynax-Dlq-Source-Subject'' then Some [subject]
      else if k = ''Zynax-Dlq-Source-Stream'' then Some [adv_Stream adv]
      else if HasPrefix k natsHeaderPrefix then None else map_of src k)"
proof -
  have "map_of (filter (\<lambda>(k, v). \<not> HasPrefix k natsHeaderPrefix) src) k =
      (if HasPrefix k natsHeaderPrefix then None else map_of src k)"
    by (induction src) auto
  then show ?thesis by (simp add: dlqHeader_def header_Set_def)
qed

text \<open>The identity of a rescued message.  Its deduplication key is the same for two rescues
  exactly when they concern the same message of the same stream, and no header of the source
  can displace the key or the trail: headers of the reserved namespace are dropped, the trail
  names the source, every other header is kept.\<close>

theorem rescue_identity:
  "(dlqMessageID s n = dlqMessageID t m \<longleftrightarrow> s = t \<and> n = m) \<and>
   (HasPrefix k natsHeaderPrefix \<longrightarrow> map_of (dlqHeader src adv subject) k = None) \<and>
   map_of (dlqHeader src adv subject) ''Zynax-Dlq-Source-Stream'' = Some [adv_Stream adv] \<and>
   map_of (dlqHeader src adv subject) ''Zynax-Dlq-Source-Sequence'' = Some [show_nat (adv_StreamSeq adv)] \<and>
   (\<not> HasPrefix k natsHeaderPrefix \<and> k \<notin> set forensic_keys \<longrightarrow> map_of (dlqHeader src adv subject) k = map_of src k)"
  by (auto simp: dlqMessageID_inj map_of_dlqHeader forensic_keys_def natsHeaderPrefix_def HasPrefix_def)

lemma dispatchMsg_event:
  "dispatchMsg c msg req = (a, Some e, stop) \<Longrightarrow>
     MatchesGlob (sr_TypePattern req) (ce_Type e) \<and> (sr_WorkflowID req \<noteq> '''' \<longrightarrow> ce_WorkflowID e = sr_WorkflowID req) \<and>
     (stop \<longleftrightarrow> sr_WorkflowID req \<noteq> '''' \<and> IsTerminalEventType (ce_Type e))"
  by (auto simp: dispatchMsg_def split: option.splits if_splits)

text \<open>A subscriber only gets events its pattern matches, of its workflow when it follows one.  A
  follower of a workflow gets no event after a terminal one, and its channel is closed then; a
  subscriber to many workflows is not cut off by one of them ending.\<close>

theorem follower_closes:
  assumes "subscription_loop req ts = (evs, closed)"
  shows "(\<forall>e \<in> set evs. MatchesGlob (sr_TypePattern req) (ce_Type e) \<and>
      (sr_WorkflowID req \<noteq> '''' \<longrightarrow> ce_WorkflowID e = sr_WorkflowID req)) \<and>
    (sr_WorkflowID req \<noteq> '''' \<longrightarrow> (\<forall>e \<in> set (butlast evs). \<not> IsTerminalEventType (ce_Type e)) \<and>
      (evs \<noteq> [] \<and> IsTerminalEventType (ce_Type (last evs)) \<longrightarrow> closed)) \<and>
    (sr_WorkflowID req = '''' \<and> closed \<longrightarrow> (\<exists>t \<in> set ts. t = TurnDone \<or>
      t = TurnErr ErrConnectionClosed \<or> t = TurnErr ErrBadSubscription \<or> (\<exists>m. t = TurnMsg m True)))"
  using assms
proof (induction req ts arbitrary: evs closed rule: subscription_loop.induct)
  case (3 req err ts)
  then show ?case by (cases "err = ErrConnectionClosed \<or> err = ErrBadSubscription") fastforce+
next
  case (4 req msg c ts)
  obtain a ev stop where d: "dispatchMsg c msg req = (a, ev, stop)" by (metis prod_cases3)
  show ?case
  proof (cases stop)
    case True
    then have stopped: "ev = None \<Longrightarrow> c" "sr_WorkflowID req = '''' \<Longrightarrow> c"
      using d by (auto simp: dispatchMsg_def split: option.splits if_splits)
    show ?thesis
      using 4(2) True d stopped dispatchMsg_event [of c msg req a _ stop] by (cases ev) auto
  next
    case False
    obtain evs' closed' where r: "subscription_loop req ts = (evs', closed')" by fastforce
    note IH = 4(1) [OF d [symmetric] refl False r]
    show ?thesis
    proof (cases ev)
      case None
      then show ?thesis using 4(2) False d r IH by (simp add: Bex_def) blast
    next
      case (Some e)
      with d dispatchMsg_event [of c msg req a e stop] False have e: "MatchesGlob (sr_TypePattern req) (ce_Type e)"
        "sr_WorkflowID req \<noteq> '''' \<Longrightarrow> ce_WorkflowID e = sr_WorkflowID req \<and> \<not> IsTerminalEventType (ce_Type e)" by auto
      have evs: "evs = e # evs'" "closed = closed'" using 4(2) False d r Some by simp_all
      show ?thesis unfolding evs using IH e by (cases "evs' = []") (auto simp: Bex_def)
    qed
  qed
qed auto

lemma consumer_chars_valid: "list_all (\<lambda>c. consumer_char c \<or> c = CHR ''_'') (consumer_chars s)"
  by (induction s rule: consumer_chars.induct) (auto simp: Let_def)

text \<open>A consumer name has at most 200 bytes, all of them letters, digits, dashes or
  underscores, whatever bytes the subscriber's identifier has.\<close>

theorem DurableConsumerName_valid:
  "length (DurableConsumerName s) \<le> 200 \<and> list_all (\<lambda>c. consumer_char c \<or> c = CHR ''_'') (DurableConsumerName s)"
  using consumer_chars_valid [of s] by (auto simp: DurableConsumerName_def Let_def list_all_iff dest: in_set_takeD)

end
