(* ===== verification/Events_Example.thy ===== *)
theory Events_Example
  imports Events_Delivery
begin

text \<open>
  The properties of the events client at work: subjects selected the way NATS does it, a
  JetStream that has lost its messages, a follower of one workflow.
\<close>

definition ex_selects :: "string \<Rightarrow> string \<Rightarrow> bool" where
  "ex_selects f s =
     (if HasSuffix f ''.>'' then HasPrefix s (take (length f - 1) f) \<and> length f \<le> length s else s = f)"

lemma ex_selects_nats: "nats_subjects ex_selects"
proof -
  have "\<not> HasSuffix f ''.>''" if "literal_subject f" for f
  proof
    assume "HasSuffix f ''.>''"
    then obtain t where "f = t @ CHR ''.'' # ''>''" by (auto simp: HasSuffix_iff)
    then have "''>'' \<in> set (segments f)" by (simp add: Split_append)
    with that show False by (auto simp: literal_subject_def)
  qed
  then have "\<forall>f s. literal_subject f \<longrightarrow> (ex_selects f s \<longleftrightarrow> s = f)" by (simp add: ex_selects_def)
  moreover have "ex_selects (p @ ''.>'') s \<longleftrightarrow> (\<exists>r. r \<noteq> [] \<and> s = p @ ''.'' @ r)" for p s
    by (auto simp: ex_selects_def HasSuffix_iff HasPrefix_iff Suc_le_eq neq_Nil_conv)
  ultimately show ?thesis unfolding nats_subjects_def by blast
qed

definition ex_type :: string where "ex_type = ''zynax.v1.engine-adapter.workflow.completed''"

definition ex_type2 :: string where "ex_type2 = ''zynax.v1.task-broker.task.failed''"

lemma ex_types:
  "segments ex_type = [''zynax'', ''v1'', ''engine-adapter'', ''workflow'', ''completed'']"
  "segments ex_type2 = [''zynax'', ''v1'', ''task-broker'', ''task'', ''failed'']"
  by (simp_all add: ex_type_def ex_type2_def)

lemma ex_literal: "literal_subject ex_type" "literal_subject ex_type2"
  by (simp_all add: literal_subject_def ex_types)

theorem stream_subjects_disjoint_witness:
  "captured ex_selects ex_type ex_type \<and> (\<nexists>s. captured ex_selects ex_type s \<and> captured ex_selects ex_type2 s)"
proof -
  have "streamSubjects ex_type \<noteq> streamSubjects ex_type2"
    by (simp add: streamSubjects_def streamPrefix_def streamSubjectDepth_def ex_types Let_def) (simp add: ex_type_def ex_type2_def)
  with stream_subjects_disjoint [OF ex_selects_nats ex_literal] show ?thesis by (simp add: ex_types)
qed

theorem subscription_covers_witness:
  "MatchesGlob ''zynax.v1.engine-adapter.workflow.**'' ex_type \<and>
   ex_selects (SubjectFilter (StreamSubjectFromPattern ''zynax.v1.engine-adapter.workflow.**'')) ex_type \<and>
   StreamName (StreamSubjectFromPattern ''zynax.v1.engine-adapter.workflow.**'') = StreamName ex_type"
proof -
  have "MatchesGlob ''zynax.v1.engine-adapter.workflow.**'' ex_type" by (simp add: MatchesGlob_def ex_types)
  with subscription_covers [OF ex_selects_nats ex_literal(1), of "''zynax.v1.engine-adapter.workflow.**''"]
  show ?thesis by (simp add: ex_types)
qed

text \<open>A JetStream whose messages are gone.\<close>

definition ex_js :: "unit jetstream" where
  "ex_js = \<lparr>js_AddStream = (\<lambda>s c. (None, s)), js_PublishMsg = (\<lambda>s m i. (Inl ErrConnectionClosed, s)),
     js_GetMsg = (\<lambda>s n q. Inl ErrMsgNotFound), js_SubscribeSync = (\<lambda>s c. (None, s)),
     js_DeleteConsumer = (\<lambda>s n d. (None, s)), js_StreamNames = (\<lambda>s. [])\<rparr>"

definition ex_stats :: DLQForwarderStats where
  "ex_stats = \<lparr>fs_Forwarded = 0, fs_Deduplicated = 0, fs_Skipped = 0, fs_Failed = 0\<rparr>"

definition ex_advisory :: string where
  "ex_advisory = ''{'' @ quote ''stream'' @ '':'' @ quote ''ORDERS'' @ '','' @ quote ''stream_seq'' @ '':7}''"

theorem forwarder_accounts_all_witness:
  "handle_all ex_js (\<lambda>n. False) () ex_stats [''x'', ex_advisory] = (ex_stats\<lparr>fs_Skipped := 2\<rparr>, ()) \<and>
   stats_total (ex_stats\<lparr>fs_Skipped := 2\<rparr>) = 2"
proof -
  have fields:
    "struct_field ''type'' [(''stream'', JStr ''ORDERS''), (''stream_seq'', JNum ''7'')] = JNull"
    "struct_field ''stream'' [(''stream'', JStr ''ORDERS''), (''stream_seq'', JNum ''7'')] = JStr ''ORDERS''"
    "struct_field ''consumer'' [(''stream'', JStr ''ORDERS''), (''stream_seq'', JNum ''7'')] = JNull"
    "struct_field ''stream_seq'' [(''stream'', JStr ''ORDERS''), (''stream_seq'', JNum ''7'')] = JNum ''7''"
    "struct_field ''deliveries'' [(''stream'', JStr ''ORDERS''), (''stream_seq'', JNum ''7'')] = JNull"
    by code_simp+
  have seq: "decode_uint64 (JNum ''7'') = Some 7" "decode_uint64 JNull = Some 0"
    by (simp_all add: decode_uint64_def is_digit_def digits_val_def digit_val_def)
  have "unmarshal_advisory ''x'' = None" by code_simp
  moreover have "json_Unmarshal ex_advisory = Some (JObj [(''stream'', JStr ''ORDERS''), (''stream_seq'', JNum ''7'')])"
    by code_simp
  then have "unmarshal_advisory ex_advisory =
      Some \<lparr>adv_Type = '''', adv_Stream = ''ORDERS'', adv_Consumer = '''', adv_StreamSeq = 7, adv_Deliveries = 0\<rparr>"
    by (simp add: unmarshal_advisory_def decode_struct_def fields decode_string_def seq)
  moreover have "\<not> HasPrefix ''ORDERS'' dlqStreamPrefix" by (simp add: HasPrefix_def dlqStreamPrefix_def)
  ultimately have run: "handle_all ex_js (\<lambda>n. False) () ex_stats [''x'', ex_advisory] = (ex_stats\<lparr>fs_Skipped := 2\<rparr>, ())"
    by (simp add: handle_def advisoryNotActionable_def forward_def ex_js_def ex_stats_def)
  from forwarder_accounts_all [OF run] run show ?thesis by (simp add: ex_stats_def stats_total_def)
qed

definition ex_event :: CloudEvent where
  "ex_event = \<lparr>ce_ID = ''e1'', ce_Source = ''engine'', ce_SpecVersion = ''1.0'', ce_Type = ex_type,
     ce_DataContentType = '''', ce_Time = 17, ce_Data = ''{}'', ce_WorkflowID = ''wf'', ce_RunID = ''run'',
     ce_Namespace = '''', ce_CapabilityName = ''''\<rparr>"

lemma ex_event_utf8: "event_utf8 ex_event"
proof -
  have "list_all (\<lambda>v. to_valid_utf8 v = v) [''e1'', ''engine'', ''1.0'', ex_type, '''', ''wf'', ''run'']" by code_simp
  then show ?thesis by (simp add: event_utf8_def ex_event_def)
qed


definition ex_adv :: maxDeliveriesAdvisory where
  "ex_adv = \<lparr>adv_Type = '''', adv_Stream = ''ORDERS'', adv_Consumer = ''c'', adv_StreamSeq = 7, adv_Deliveries = 5\<rparr>"

theorem rescue_identity_witness:
  "dlqMessageID ''ORDERS'' 7 \<noteq> dlqMessageID ''ORDERS'' 8 \<and>
   map_of (dlqHeader [(''Nats-Msg-Id'', [''forged'']), (''ce-id'', [''e1''])] ex_adv ''orders.new'') ''Nats-Msg-Id'' = None \<and>
   map_of (dlqHeader [(''Nats-Msg-Id'', [''forged'']), (''ce-id'', [''e1''])] ex_adv ''orders.new'') ''ce-id'' = Some [''e1'']"
  using rescue_identity [of "''ORDERS''" 7 "''ORDERS''" 8 "''Nats-Msg-Id''" "[(''Nats-Msg-Id'', [''forged'']), (''ce-id'', [''e1''])]" ex_adv "''orders.new''"]
    rescue_identity [of "''ORDERS''" 7 "''ORDERS''" 8 "''ce-id''" "[(''Nats-Msg-Id'', [''forged'']), (''ce-id'', [''e1''])]" ex_adv "''orders.new''"]
  by (simp add: natsHeaderPrefix_def HasPrefix_def forensic_keys_def)

definition ex_request :: SubscribeRequest where
  "ex_request = \<lparr>sr_SubscriberID = ''cli'', sr_TypePattern = ''**'', sr_WorkflowID = ''wf''\<rparr>"

definition ex_msg :: nats_msg where
  "ex_msg = \<lparr>m_Subject = ex_type, m_Data = marshal_envelope ex_event, m_Header = []\<rparr>"

theorem follower_closes_witness:
  "\<exists>e. subscription_loop ex_request [TurnMsg ex_msg False, TurnMsg ex_msg False] = ([e], True) \<and>
     ce_WorkflowID e = ''wf'' \<and> IsTerminalEventType (ce_Type e)"
proof -
  have terminal: "IsTerminalEventType ex_type"
    by (simp add: IsTerminalEventType_def terminalWorkflowVerbs_def ex_type_def HasSuffix_def)
  have "unmarshal_envelope (m_Data ex_msg) = Some (ex_event\<lparr>ce_Time := 0\<rparr>)"
    using unmarshal_marshal [OF ex_event_utf8] by (simp add: ex_msg_def)
  then have "dispatchMsg False ex_msg ex_request = (Ack, Some (ex_event\<lparr>ce_Time := 0\<rparr>), True)"
    using terminal by (simp add: dispatchMsg_def ex_request_def MatchesGlob_def ex_event_def)
  then have run: "subscription_loop ex_request [TurnMsg ex_msg False, TurnMsg ex_msg False] = ([ex_event\<lparr>ce_Time := 0\<rparr>], True)"
    by simp
  from follower_closes [OF run] run terminal show ?thesis by (simp add: ex_request_def ex_event_def)
qed

end
