(* ===== verification/Sched_Index.thy ===== *)
theory Sched_Index
  imports Go_Float
begin

text \<open>
  The capability index of the scheduler
  (\<^verbatim>\<open>services/agent-registry/internal/domain/scheduler/index.go\<close>): the agents by key, and for
  every capability the set of the keys of the agents that declare it.
\<close>

section \<open>Candidates\<close>

record Selectors =
  sel_Language :: "string list"
  sel_Tags :: "string list"

record Cost =
  cost_TokenPrice :: float64
  cost_LatencyClass :: string

record Resources =
  res_GPU :: int

record Capability =
  cap_ID :: string
  cap_Description :: string
  cap_InputSchema :: string
  cap_OutputSchema :: string
  cap_Selectors :: Selectors
  cap_Cost :: "Cost"
  cap_Resources :: Resources
  cap_Models :: "string list"
  cap_Protocols :: "string list"

record Candidate =
  ca_Key :: string
  ca_Name :: string
  ca_Endpoint :: string
  ca_Ready :: bool
  ca_Replicas :: int
  ca_ExpertScope :: string
  ca_Capabilities :: "Capability list"

fun find_capability :: "Capability list \<Rightarrow> string \<Rightarrow> Capability option" where
  "find_capability [] i = None"
| "find_capability (c # cs) i = (if cap_ID c = i then Some c else find_capability cs i)"

definition CapabilityByID :: "Candidate \<Rightarrow> string \<Rightarrow> Capability option" where
  "CapabilityByID c i = find_capability (ca_Capabilities c) i"

definition declares :: "Candidate \<Rightarrow> string \<Rightarrow> bool" where
  "declares c i \<longleftrightarrow> CapabilityByID c i \<noteq> None"

lemma find_capability_Some: "find_capability cs i = Some c \<Longrightarrow> c \<in> set cs \<and> cap_ID c = i"
  by (induction cs) (auto split: if_splits)

lemma find_capability_None: "find_capability cs i = None \<longleftrightarrow> i \<notin> cap_ID ` set cs"
  by (induction cs) auto

lemma declares_iff: "declares c i \<longleftrightarrow> i \<in> cap_ID ` set (ca_Capabilities c)"
  by (auto simp: declares_def CapabilityByID_def find_capability_None)

section \<open>The index\<close>

type_synonym key_set = "(string, unit) gomap"

record Index =
  ix_agents :: "(string, Candidate) gomap"
  ix_capIndex :: "(string, key_set) gomap"

definition NewIndex :: "Index" where
  "NewIndex = \<lparr>ix_agents = [], ix_capIndex = []\<rparr>"

text \<open>The two loops over the capabilities of a candidate, as functions of the capability index.\<close>

fun unlink :: "string \<Rightarrow> Capability list \<Rightarrow> (string, key_set) gomap \<Rightarrow> (string, key_set) gomap" where
  "unlink key [] m = m"
| "unlink key (c # cs) m =
     unlink key cs (case map_of m (cap_ID c) of
         None \<Rightarrow> m
       | Some ks \<Rightarrow>
           let ks' = gm_del key ks
           in if ks' = [] then gm_del (cap_ID c) m else gm_put (cap_ID c) ks' m)"

fun link :: "string \<Rightarrow> Capability list \<Rightarrow> (string, key_set) gomap \<Rightarrow> (string, key_set) gomap" where
  "link key [] m = m"
| "link key (c # cs) m = link key cs (gm_put (cap_ID c) (gm_put key () (gm_get [] m (cap_ID c))) m)"

definition removeLinks :: "Index \<Rightarrow> string \<Rightarrow> Index" where
  "removeLinks i key =
     (case map_of (ix_agents i) key of
        None \<Rightarrow> i
      | Some old \<Rightarrow> i\<lparr>ix_capIndex := unlink key (ca_Capabilities old) (ix_capIndex i)\<rparr>)"

definition Upsert :: "Index \<Rightarrow> Candidate \<Rightarrow> Index" where
  "Upsert i c =
     (let i1 = removeLinks i (ca_Key c);
          i2 = i1\<lparr>ix_agents := gm_put (ca_Key c) c (ix_agents i1)\<rparr>
      in i2\<lparr>ix_capIndex := link (ca_Key c) (ca_Capabilities c) (ix_capIndex i2)\<rparr>)"

definition index_Delete :: "Index \<Rightarrow> string \<Rightarrow> Index" where
  "index_Delete i key =
     (let i1 = removeLinks i key in i1\<lparr>ix_agents := gm_del key (ix_agents i1)\<rparr>)"

definition zero_candidate :: "Candidate" where
  "zero_candidate = \<lparr>ca_Key = '''', ca_Name = '''', ca_Endpoint = '''', ca_Ready = False, ca_Replicas = 0,
     ca_ExpertScope = '''', ca_Capabilities = []\<rparr>"

definition agents_at :: "(string, Candidate) gomap \<Rightarrow> string list \<Rightarrow> Candidate list" where
  "agents_at m keys = map (gm_get zero_candidate m) keys"

definition Candidates :: "Index \<Rightarrow> string \<Rightarrow> Candidate list" where
  "Candidates i capID =
     (let ks = gm_get [] (ix_capIndex i) capID in
      if ks = [] then [] else agents_at (ix_agents i) (sort_Strings (map fst ks)))"

definition Len :: "Index \<Rightarrow> nat" where
  "Len i = length (ix_agents i)"

definition Snapshot :: "Index \<Rightarrow> Candidate list" where
  "Snapshot i = agents_at (ix_agents i) (sort_Strings (map fst (ix_agents i)))"

section \<open>What the index promises\<close>

text \<open>The agents in key order that satisfy a condition.\<close>

definition agents_sorted :: "(string \<rightharpoonup> Candidate) \<Rightarrow> (Candidate \<Rightarrow> bool) \<Rightarrow> Candidate list \<Rightarrow> bool" where
  "agents_sorted a P cs \<longleftrightarrow> sorted (map ca_Key cs) \<and> distinct (map ca_Key cs) \<and>
     set cs = {c. a (ca_Key c) = Some c \<and> P c}"

lemma agents_sorted_unique:
  assumes "agents_sorted a P cs" "agents_sorted a P ds"
  shows "cs = ds"
proof -
  have eq: "set cs = set ds" using assms by (simp add: agents_sorted_def)
  then have "inj_on ca_Key (set cs \<union> set ds)" using assms(1) unfolding agents_sorted_def distinct_map by auto
  with eq assms show ?thesis
    by (intro map_sorted_distinct_set_unique [of ca_Key]) (simp_all add: agents_sorted_def)
qed

locale agent_index =
  fixes empty :: 'i and upsert :: "'i \<Rightarrow> Candidate \<Rightarrow> 'i" and del :: "'i \<Rightarrow> string \<Rightarrow> 'i"
    and cands :: "'i \<Rightarrow> string \<Rightarrow> Candidate list"
    and ok :: "'i \<Rightarrow> bool" and abs :: "'i \<Rightarrow> string \<rightharpoonup> Candidate"
  assumes empty_ok: "ok empty" and empty_abs: "abs empty = Map.empty"
    and upsert_ok: "ok i \<Longrightarrow> ok (upsert i c)" and upsert_abs: "ok i \<Longrightarrow> abs (upsert i c) = (abs i)(ca_Key c \<mapsto> c)"
    and delete_ok: "ok i \<Longrightarrow> ok (del i k)" and delete_abs: "ok i \<Longrightarrow> abs (del i k) = (abs i)(k := None)"
    and cands_abs: "ok i \<Longrightarrow> agents_sorted (abs i) (\<lambda>c. declares c cap) (cands i cap)"
begin

text \<open>The candidates depend on the agents only, not on the history of the index: an index
  rebuilt from a listing answers like the one it replaces.\<close>

lemma cands_cong:
  assumes "ok i" "ok j" "abs i = abs j"
  shows "cands i cap = cands j cap"
  using agents_sorted_unique [OF cands_abs [OF assms(1)]] cands_abs [OF assms(2)] assms(3) by simp

lemma replay_ok: "ok i \<Longrightarrow> ok (foldl upsert i cs)"
  by (induction cs arbitrary: i) (auto intro: upsert_ok)

lemma replay_abs: "ok i \<Longrightarrow> abs (foldl upsert i cs) = abs i ++ map_of (rev (map (\<lambda>c. (ca_Key c, c)) cs))"
  by (induction cs arbitrary: i) (auto simp: upsert_ok upsert_abs)

lemma resync:
  assumes "ok i" "finite (dom (abs i))" "\<And>k c. abs i k = Some c \<Longrightarrow> ca_Key c = k"
    and "distinct (map ca_Key cs)" "set cs = {c. abs i (ca_Key c) = Some c}"
  shows "cands (foldl upsert empty cs) cap = cands i cap"
proof (rule cands_cong)
  have ok: "ok (foldl upsert empty cs)" by (rule replay_ok [OF empty_ok])
  have "map_of (rev (map (\<lambda>c. (ca_Key c, c)) cs)) k = abs i k" for k
  proof (cases "abs i k")
    case None
    have "abs i (ca_Key c) \<noteq> None" if "c \<in> set cs" for c using assms(5) that by simp
    with None have "k \<notin> fst ` set (rev (map (\<lambda>c. (ca_Key c, c)) cs))" by force
    then have "map_of (rev (map (\<lambda>c. (ca_Key c, c)) cs)) k = None" by (rule map_of_eq_None_iff [THEN iffD2])
    then show ?thesis using None by (rule trans [OF _ sym])
  next
    case (Some c)
    have k: "ca_Key c = k" by (rule assms(3) [OF Some])
    then have "c \<in> set cs" using assms(5) Some by simp
    then have c: "(k, c) \<in> set (rev (map (\<lambda>c. (ca_Key c, c)) cs))" using k by force
    have "distinct (map fst (rev (map (\<lambda>c. (ca_Key c, c)) cs)))" using assms(4) by (simp add: rev_map [symmetric] comp_def)
    from map_of_eq_Some_iff [OF this] c Some show ?thesis by simp
  qed
  then show "abs (foldl upsert empty cs) = abs i" by (simp add: replay_abs [OF empty_ok] empty_abs fun_eq_iff)
qed (use assms(1) replay_ok [OF empty_ok] in auto)

end

section \<open>The invariant of the index\<close>

definition links :: "(string, key_set) gomap \<Rightarrow> string \<Rightarrow> string set" where
  "links m cap = fst ` set (gm_get [] m cap)"

definition links_ok :: "(string, key_set) gomap \<Rightarrow> bool" where
  "links_ok m \<longleftrightarrow> gm_ok m \<and> (\<forall>(cap, ks) \<in> set m. gm_ok ks \<and> ks \<noteq> [])"

definition index_ok :: "Index \<Rightarrow> bool" where
  "index_ok i \<longleftrightarrow> gm_ok (ix_agents i) \<and> (\<forall>(k, c) \<in> set (ix_agents i). ca_Key c = k) \<and> links_ok (ix_capIndex i) \<and>
     (\<forall>cap. links (ix_capIndex i) cap = {k. \<exists>c. map_of (ix_agents i) k = Some c \<and> declares c cap})"

definition index_abs :: "Index \<Rightarrow> string \<rightharpoonup> Candidate" where
  "index_abs i = map_of (ix_agents i)"

lemma links_ok_get: "links_ok m \<Longrightarrow> gm_ok (gm_get [] m cap)"
  by (auto simp: links_ok_def gm_get_def split: option.split dest!: map_of_SomeD)

lemma links_ok_put: "links_ok m \<Longrightarrow> gm_ok ks \<Longrightarrow> ks \<noteq> [] \<Longrightarrow> links_ok (gm_put cap ks m)"
  by (auto simp: links_ok_def dest!: in_set_gm_put)

lemma in_set_gm_del: "x \<in> set (gm_del k m) \<Longrightarrow> x \<in> set m"
  by (auto simp: gm_del_def AList.delete_eq)

lemma links_ok_del: "links_ok m \<Longrightarrow> links_ok (gm_del cap m)"
  by (auto simp: links_ok_def gm_del_def AList.delete_eq)

lemma links_put: "links (gm_put cap ks m) c = (if c = cap then fst ` set ks else links m c)"
  by (simp add: links_def gm_get_def)

lemma links_del: "links (gm_del cap m) c = (if c = cap then {} else links m c)"
  by (simp add: links_def gm_get_def)

lemma gm_del_Nil: "gm_del k ks = [] \<longleftrightarrow> fst ` set ks \<subseteq> {k}"
  by (auto simp: gm_del_def AList.delete_eq filter_empty_conv)

lemma unlink_links:
  "links_ok m \<Longrightarrow> links_ok (unlink key cs m) \<and>
     links (unlink key cs m) c = links m c - (if c \<in> cap_ID ` set cs then {key} else {})"
proof (induction cs arbitrary: m)
  case (Cons d cs)
  define m1 where "m1 = (case map_of m (cap_ID d) of None \<Rightarrow> m | Some ks \<Rightarrow>
      let ks' = gm_del key ks in if ks' = [] then gm_del (cap_ID d) m else gm_put (cap_ID d) ks' m)"
  have "links_ok m1" using Cons.prems links_ok_get [OF Cons.prems, of "cap_ID d"]
    by (auto simp: m1_def Let_def gm_get_def links_ok_del links_ok_put split: option.split)
  moreover have "links m1 c = links m c - (if c = cap_ID d then {key} else {})"
  proof (cases "map_of m (cap_ID d)")
    case None
    then show ?thesis by (auto simp: m1_def links_def gm_get_def)
  next
    case (Some ks)
    then have "links m (cap_ID d) = fst ` set ks" by (simp add: links_def gm_get_def)
    then show ?thesis using Some gm_del_Nil [of key ks] by (auto simp: m1_def Let_def links_put links_del)
  qed
  ultimately show ?case using Cons.IH [of m1] by (auto simp: m1_def)
qed simp

lemma link_links:
  "links_ok m \<Longrightarrow> links_ok (link key cs m) \<and>
     links (link key cs m) c = links m c \<union> (if c \<in> cap_ID ` set cs then {key} else {})"
proof (induction cs arbitrary: m)
  case (Cons d cs)
  define m1 where "m1 = gm_put (cap_ID d) (gm_put key () (gm_get [] m (cap_ID d))) m"
  have "gm_put key () ks \<noteq> []" for ks by (cases ks) (auto simp: gm_put_def)
  then have "links_ok m1" using Cons.prems links_ok_get [OF Cons.prems, of "cap_ID d"]
    by (simp add: m1_def links_ok_put)
  moreover have "links m1 c = links m c \<union> (if c = cap_ID d then {key} else {})"
    by (simp add: m1_def links_put) (simp add: links_def)
  ultimately show ?case using Cons.IH [of m1] by (auto simp: m1_def)
qed simp

lemma removeLinks_links:
  assumes "index_ok i"
  shows "ix_agents (removeLinks i key) = ix_agents i \<and> links_ok (ix_capIndex (removeLinks i key)) \<and>
    links (ix_capIndex (removeLinks i key)) cap = {k. k \<noteq> key \<and> (\<exists>c. map_of (ix_agents i) k = Some c \<and> declares c cap)}"
proof (cases "map_of (ix_agents i) key")
  case None
  then show ?thesis using assms by (auto simp: removeLinks_def index_ok_def)
next
  case (Some old)
  have ok: "links_ok (ix_capIndex i)"
    and "links (ix_capIndex i) cap = {k. \<exists>c. map_of (ix_agents i) k = Some c \<and> declares c cap}"
    using assms by (simp_all add: index_ok_def)
  then show ?thesis using Some unlink_links [OF ok, of key "ca_Capabilities old" cap]
    by (auto simp: removeLinks_def declares_iff)
qed

lemma Upsert_ok: assumes "index_ok i" shows "index_ok (Upsert i c)"
proof -
  let ?r = "removeLinks i (ca_Key c)"
  note r = removeLinks_links [OF assms, of "ca_Key c"]
  have "links_ok (ix_capIndex ?r)" using r by simp
  from link_links [OF this, of "ca_Key c" "ca_Capabilities c"] show ?thesis
    using assms r by (auto simp: index_ok_def Upsert_def Let_def declares_iff split: if_splits dest!: in_set_gm_put)
qed

lemma Delete_ok: assumes "index_ok i" shows "index_ok (index_Delete i k)"
  using assms removeLinks_links [OF assms, of k]
  by (auto simp: index_ok_def index_Delete_def Let_def split: if_splits dest!: in_set_gm_del)

lemma index_abs_simps:
  assumes "index_ok i"
  shows "index_abs (Upsert i c) = (index_abs i)(ca_Key c \<mapsto> c)" "index_abs (index_Delete i k) = (index_abs i)(k := None)"
  using removeLinks_links [OF assms] by (simp_all add: index_abs_def Upsert_def index_Delete_def Let_def)

lemma agents_at_sorted:
  assumes ok: "index_ok i" and keys: "distinct ks" "set ks = {k. \<exists>c. map_of (ix_agents i) k = Some c \<and> P c}"
  shows "agents_sorted (index_abs i) P (agents_at (ix_agents i) (sort_Strings ks))"
proof -
  let ?get = "gm_get zero_candidate (ix_agents i)"
  have key: "map_of (ix_agents i) k = Some c \<Longrightarrow> ca_Key c = k" for k c
    using ok by (auto simp: index_ok_def dest!: map_of_SomeD)
  have "map ca_Key (agents_at (ix_agents i) (sort_Strings ks)) = sort_Strings ks"
    using keys(2) key by (auto simp: agents_at_def gm_get_def intro!: map_idI)
  moreover have "set (agents_at (ix_agents i) (sort_Strings ks)) = {c. index_abs i (ca_Key c) = Some c \<and> P c}"
  proof (intro set_eqI iffI)
    fix c assume "c \<in> set (agents_at (ix_agents i) (sort_Strings ks))"
    then obtain k where "k \<in> set ks" "c = ?get k" by (auto simp: agents_at_def)
    then show "c \<in> {c. index_abs i (ca_Key c) = Some c \<and> P c}"
      using keys(2) key by (auto simp: gm_get_def index_abs_def)
  next
    fix c assume c: "c \<in> {c. index_abs i (ca_Key c) = Some c \<and> P c}"
    then have "ca_Key c \<in> set ks" "c = ?get (ca_Key c)" using keys(2) by (auto simp: index_abs_def gm_get_def)
    then show "c \<in> set (agents_at (ix_agents i) (sort_Strings ks))" by (auto simp: agents_at_def)
  qed
  ultimately show ?thesis using keys(1) by (simp add: agents_sorted_def)
qed

lemma Candidates_sorted:
  assumes "index_ok i"
  shows "agents_sorted (index_abs i) (\<lambda>c. declares c cap) (Candidates i cap)"
proof -
  let ?ks = "gm_get [] (ix_capIndex i) cap"
  have "gm_ok ?ks" using assms by (simp add: index_ok_def links_ok_get)
  moreover have "set (map fst ?ks) = {k. \<exists>c. map_of (ix_agents i) k = Some c \<and> declares c cap}"
    using assms by (simp add: index_ok_def links_def)
  ultimately have "agents_sorted (index_abs i) (\<lambda>c. declares c cap) (agents_at (ix_agents i) (sort_Strings (map fst ?ks)))"
    by (intro agents_at_sorted [OF assms]) (simp_all only: gm_ok_def)
  then show ?thesis by (cases "?ks = []") (simp_all add: Candidates_def agents_at_def sort_Strings_def)
qed

lemma NewIndex_ok: "index_ok NewIndex" "index_abs NewIndex = Map.empty"
  by (simp_all add: NewIndex_def index_ok_def links_ok_def links_def gm_get_def index_abs_def fun_eq_iff)

interpretation ix: agent_index NewIndex Upsert index_Delete Candidates index_ok index_abs
  by unfold_locales (simp_all add: NewIndex_ok Upsert_ok Delete_ok index_abs_simps Candidates_sorted)

text \<open>The index after a sequence of watch events.\<close>

datatype watch_event = Added "Candidate" | Removed string

fun apply_event :: "Index \<Rightarrow> watch_event \<Rightarrow> Index" where
  "apply_event i (Added c) = Upsert i c"
| "apply_event i (Removed k) = index_Delete i k"

fun spec_event :: "(string \<rightharpoonup> Candidate) \<Rightarrow> watch_event \<Rightarrow> (string \<rightharpoonup> Candidate)" where
  "spec_event a (Added c) = a(ca_Key c \<mapsto> c)"
| "spec_event a (Removed k) = a(k := None)"

lemma events_ok:
  "index_ok i \<Longrightarrow> index_ok (foldl apply_event i es) \<and> index_abs (foldl apply_event i es) = foldl spec_event (index_abs i) es"
proof (induction es arbitrary: i)
  case (Cons e es)
  have "index_ok (apply_event i e) \<and> index_abs (apply_event i e) = spec_event (index_abs i) e"
    using Cons.prems by (cases e) (simp_all add: Upsert_ok Delete_ok index_abs_simps)
  with Cons.IH [of "apply_event i e"] show ?case by simp
qed simp

text \<open>A restarted scheduler that replays a listing of the agents, in any order, answers every
  request for candidates like the index it replaces.\<close>

theorem resync_recovers:
  assumes "index_ok i" "distinct (map ca_Key cs)" "set cs = {c. index_abs i (ca_Key c) = Some c}"
  shows "Candidates (foldl Upsert NewIndex cs) cap = Candidates i cap"
proof (rule ix.resync [OF assms(1) _ _ assms(2,3)])
  show "finite (dom (index_abs i))" by (simp add: index_abs_def finite_dom_map_of)
  show "ca_Key c = k" if "index_abs i k = Some c" for k c
    using that assms(1) by (auto simp: index_ok_def index_abs_def dest!: map_of_SomeD)
qed

end
