(* ===== verification/Sched_Scorer.thy ===== *)
theory Sched_Scorer
  imports Sched_Index "HOL-Library.Word" "HOL-Library.Multiset"
begin

text \<open>
  The selection pipeline of the scheduler
  (\<^verbatim>\<open>services/agent-registry/internal/domain/scheduler/scorer.go\<close>): capability match, hard
  constraints, readiness, expert target, then the lowest score or the next agent in rotation.

  The metrics backend is an argument: its answer to the request for a snapshot, \<open>None\<close> when
  it is unavailable.  The state of the scorer is its rotation counter.  The summary of a
  rationale is left out.
\<close>

section \<open>Requests and results\<close>

datatype sched_err = ErrNoCapability | FilteredError string string | ErrMetricsUnavailable

type_synonym sched_error = "sched_err go_error"

record Metrics =
  me_Load :: float64
  me_LatencyP50Ms :: float64
  me_QueueDepth :: float64

definition zero_metrics :: Metrics where
  "zero_metrics = \<lparr>me_Load = FFin 0, me_LatencyP50Ms = FFin 0, me_QueueDepth = FFin 0\<rparr>"

record Constraints =
  k_RequiredTags :: "string list"
  k_RequiredLanguage :: string
  k_RequiredModel :: string
  k_RequireGPU :: bool
  k_RequiredProtocols :: "string list"

datatype Mode = ModeUnset | ModeMetricsWeighted | ModeRoundRobin | ModeDegradedRoundRobin

record Request =
  rq_Capability :: string
  rq_Constraints :: Constraints
  rq_RoundRobin :: bool
  rq_ExpertTarget :: string

record Rationale =
  ra_CandidatesMatched :: nat
  ra_CandidatesAfterConstraints :: nat
  ra_CandidatesReady :: nat
  ra_CandidatesAfterExpertFilter :: nat
  ra_Mode :: Mode
  ra_WinningFactors :: "string list"

record Result =
  rs_Chosen :: Candidate
  rs_Capability :: Capability
  rs_Rationale :: Rationale

definition zero_capability :: Capability where
  "zero_capability = \<lparr>cap_ID = '''', cap_Description = '''', cap_InputSchema = '''', cap_OutputSchema = '''',
     cap_Selectors = \<lparr>sel_Language = [], sel_Tags = []\<rparr>, cap_Cost = \<lparr>cost_TokenPrice = FFin 0, cost_LatencyClass = ''''\<rparr>,
     cap_Resources = \<lparr>res_GPU = 0\<rparr>, cap_Models = [], cap_Protocols = []\<rparr>"

section \<open>Constraints\<close>

fun containsFold :: "string list \<Rightarrow> string \<Rightarrow> bool" where
  "containsFold [] needle = False"
| "containsFold (h # haystack) needle = (EqualFold h needle \<or> containsFold haystack needle)"

definition failedConstraint :: "Capability \<Rightarrow> Constraints \<Rightarrow> string" where
  "failedConstraint capability k =
     (if list_ex (\<lambda>t. \<not> containsFold (sel_Tags (cap_Selectors capability)) t) (k_RequiredTags k) then ''tags''
      else if k_RequiredLanguage k \<noteq> '''' \<and> \<not> containsFold (sel_Language (cap_Selectors capability)) (k_RequiredLanguage k)
        then ''language''
      else if k_RequiredModel k \<noteq> '''' \<and> \<not> containsFold (cap_Models capability) (k_RequiredModel k) then ''model''
      else if k_RequireGPU k \<and> res_GPU (cap_Resources capability) \<le> 0 then ''gpu''
      else if list_ex (\<lambda>p. \<not> containsFold (cap_Protocols capability) p) (k_RequiredProtocols k) then ''protocols''
      else '''')"

fun filter_loop :: "Candidate list \<Rightarrow> string \<Rightarrow> Constraints \<Rightarrow> string \<Rightarrow> Candidate list \<times> string" where
  "filter_loop [] capID k stage = ([], stage)"
| "filter_loop (c # cs) capID k stage =
     (case CapabilityByID c capID of
        None \<Rightarrow> filter_loop cs capID k stage
      | Some capability \<Rightarrow>
          if failedConstraint capability k \<noteq> '''' then filter_loop cs capID k (failedConstraint capability k)
          else (case filter_loop cs capID k stage of (out, stage') \<Rightarrow> (c # out, stage')))"

definition filterConstraints :: "Candidate list \<Rightarrow> string \<Rightarrow> Constraints \<Rightarrow> Candidate list \<times> string" where
  "filterConstraints cs capID k = filter_loop cs capID k ''''"

section \<open>Scores\<close>

definition weightLoad :: float64 where "weightLoad = round64 (4 / 10)"
definition weightLatency :: float64 where "weightLatency = round64 (4 / 10)"
definition weightCost :: float64 where "weightCost = round64 (2 / 10)"

definition costScore :: "Cost \<Rightarrow> float64" where
  "costScore c =
     (if cost_LatencyClass c = ''low'' then round64 (1 / 10)
      else if cost_LatencyClass c = ''medium'' then round64 (5 / 10)
      else if cost_LatencyClass c = ''high'' then round64 1
      else cost_TokenPrice c)"

definition score :: "Capability \<Rightarrow> Metrics \<Rightarrow> float64" where
  "score capability m =
     f_add (f_add (f_mul weightLoad (me_Load m)) (f_mul weightLatency (f_div (me_LatencyP50Ms m) 1000)))
       (f_mul weightCost (costScore (cap_Cost capability)))"

definition capability_of :: "Candidate \<Rightarrow> string \<Rightarrow> Capability" where
  "capability_of c capID = (case CapabilityByID c capID of None \<Rightarrow> zero_capability | Some cap \<Rightarrow> cap)"

definition cand_score :: "string \<Rightarrow> (string, Metrics) gomap \<Rightarrow> Candidate \<Rightarrow> float64" where
  "cand_score capID snap c = score (capability_of c capID) (gm_get zero_metrics snap (ca_Key c))"

text \<open>The search of the lowest score.\<close>

fun best_loop :: "string \<Rightarrow> (string, Metrics) gomap \<Rightarrow> Candidate \<Rightarrow> Candidate list \<Rightarrow> Candidate" where
  "best_loop capID snap best [] = best"
| "best_loop capID snap best (c # cs) =
     (if f_lt (cand_score capID snap c) (cand_score capID snap best) then best_loop capID snap c cs
      else best_loop capID snap best cs)"

section \<open>Selection\<close>

definition Scorer_rotate :: "64 word \<Rightarrow> Candidate list \<Rightarrow> string \<Rightarrow> Rationale \<Rightarrow> Mode \<Rightarrow> string list \<Rightarrow> Result \<times> 64 word" where
  "Scorer_rotate rr cands capID r mode factors =
     (let rr1 = rr + 1; n = rr1 - 1;
          chosen = cands ! unat (n mod of_nat (length cands))
      in (\<lparr>rs_Chosen = chosen, rs_Capability = capability_of chosen capID,
           rs_Rationale = r\<lparr>ra_Mode := mode, ra_WinningFactors := factors\<rparr>\<rparr>, rr1))"

text \<open>The first four stages: the candidates left, with the counts of the rationale.\<close>

definition eligible :: "Index \<Rightarrow> Request \<Rightarrow> sched_error + (Candidate list \<times> Rationale)" where
  "eligible idx req =
     (let matched = Candidates idx (rq_Capability req) in
      if matched = [] then Inl (Wrapf ''%w: %q'' [FS (rq_Capability req)] (Typed ErrNoCapability))
      else case filterConstraints matched (rq_Capability req) (rq_Constraints req) of
        (afterConstraints, stage) \<Rightarrow>
      if afterConstraints = [] then Inl (Typed (FilteredError (rq_Capability req) stage))
      else let ready = filter ca_Ready afterConstraints in
      if ready = [] then Inl (Typed (FilteredError (rq_Capability req) ''ready''))
      else let afterExpert = (if rq_ExpertTarget req \<noteq> '''' then filter (\<lambda>c. ca_ExpertScope c = rq_ExpertTarget req) ready
                              else ready) in
      if rq_ExpertTarget req \<noteq> '''' \<and> afterExpert = []
      then Inl (Typed (FilteredError (rq_Capability req) (''expert:'' @ rq_ExpertTarget req)))
      else Inr (afterExpert,
        \<lparr>ra_CandidatesMatched = length matched, ra_CandidatesAfterConstraints = length afterConstraints,
         ra_CandidatesReady = length ready, ra_CandidatesAfterExpertFilter = length afterExpert,
         ra_Mode = ModeUnset, ra_WinningFactors = []\<rparr>))"

definition Select ::
  "64 word \<Rightarrow> (string list \<Rightarrow> (string, Metrics) gomap option) \<Rightarrow> Index \<Rightarrow> Request \<Rightarrow> (sched_error + Result) \<times> 64 word" where
  "Select rr snapshot idx req =
     (case eligible idx req of
        Inl err \<Rightarrow> (Inl err, rr)
      | Inr (afterExpert, r) \<Rightarrow>
          if rq_RoundRobin req
          then (case Scorer_rotate rr afterExpert (rq_Capability req) r ModeRoundRobin [''rotation''] of (res, rr1) \<Rightarrow> (Inr res, rr1))
          else (case snapshot (map ca_Key afterExpert) of
              None \<Rightarrow>
                (case Scorer_rotate rr afterExpert (rq_Capability req) r ModeDegradedRoundRobin [''readiness'', ''rotation''] of
                   (res, rr1) \<Rightarrow> (Inr res, rr1))
            | Some snap \<Rightarrow>
                let best = best_loop (rq_Capability req) snap (hd afterExpert) (tl afterExpert)
                in (Inr \<lparr>rs_Chosen = best, rs_Capability = capability_of best (rq_Capability req),
                      rs_Rationale = r\<lparr>ra_Mode := ModeMetricsWeighted,
                        ra_WinningFactors := [''load'', ''latency'', ''cost'']\<rparr>\<rparr>, rr)))"

section \<open>Which agents are eligible\<close>

text \<open>An agent that satisfies a request: it declares the capability and meets the constraints, is
  ready, and is in the expert scope asked for.\<close>

definition meets :: "Candidate \<Rightarrow> string \<Rightarrow> Constraints \<Rightarrow> bool" where
  "meets c capID k \<longleftrightarrow> (\<exists>cap. CapabilityByID c capID = Some cap \<and> failedConstraint cap k = '''')"

definition qualifies :: "Request \<Rightarrow> Candidate \<Rightarrow> bool" where
  "qualifies req c \<longleftrightarrow> meets c (rq_Capability req) (rq_Constraints req) \<and> ca_Ready c \<and>
     (rq_ExpertTarget req = '''' \<or> ca_ExpertScope c = rq_ExpertTarget req)"

lemma containsFold_iff: "containsFold hs n \<longleftrightarrow> (\<exists>h \<in> set hs. EqualFold h n)"
  by (induction hs) auto

lemma failedConstraint_ok: "failedConstraint cap k = '''' \<longleftrightarrow>
    (\<forall>t \<in> set (k_RequiredTags k). \<exists>h \<in> set (sel_Tags (cap_Selectors cap)). EqualFold h t) \<and>
    (k_RequiredLanguage k = '''' \<or> (\<exists>h \<in> set (sel_Language (cap_Selectors cap)). EqualFold h (k_RequiredLanguage k))) \<and>
    (k_RequiredModel k = '''' \<or> (\<exists>h \<in> set (cap_Models cap). EqualFold h (k_RequiredModel k))) \<and>
    (k_RequireGPU k \<longrightarrow> res_GPU (cap_Resources cap) > 0) \<and>
    (\<forall>p \<in> set (k_RequiredProtocols k). \<exists>h \<in> set (cap_Protocols cap). EqualFold h p)"
  by (auto simp: failedConstraint_def containsFold_iff list_ex_iff not_le)

lemma filter_loop_out: "fst (filter_loop cs capID k stage) = filter (\<lambda>c. meets c capID k) cs"
proof (induction cs arbitrary: stage)
  case (Cons c cs)
  obtain out stage' where r: "filter_loop cs capID k stage = (out, stage')" by fastforce
  have "out = filter (\<lambda>c. meets c capID k) cs" using Cons.IH [of stage] r by simp
  moreover have "meets c capID k \<longleftrightarrow> (case CapabilityByID c capID of None \<Rightarrow> False | Some cap \<Rightarrow> failedConstraint cap k = '''')"
    by (auto simp: meets_def split: option.split)
  ultimately show ?case using Cons.IH r by (simp split: option.split)
qed simp

lemma fst_filterConstraints: "fst (filterConstraints cs capID k) = filter (\<lambda>c. meets c capID k) cs"
  by (simp add: filterConstraints_def filter_loop_out)

text \<open>The stage reported is that of the last candidate, when all of them are eliminated.\<close>

lemma filter_loop_stage:
  "filter_loop cs capID k stage = ([], stage') \<Longrightarrow> (\<forall>c \<in> set cs. declares c capID) \<Longrightarrow>
     stage' = (if cs = [] then stage else failedConstraint (capability_of (last cs) capID) k)"
proof (induction cs arbitrary: stage)
  case (Cons c cs)
  obtain cap where cap: "CapabilityByID c capID = Some cap" using Cons.prems(2) by (auto simp: declares_def)
  then have f: "failedConstraint cap k \<noteq> ''''" using Cons.prems(1) by (auto split: if_splits prod.splits)
  then have "filter_loop cs capID k (failedConstraint cap k) = ([], stage')" using Cons.prems(1) cap by simp
  from Cons.IH [OF this] Cons.prems(2) show ?case using cap by (auto simp: capability_of_def)
qed simp

lemma eligible_Inr:
  "eligible idx req = Inr (cs, r) \<longleftrightarrow> cs = filter (qualifies req) (Candidates idx (rq_Capability req)) \<and> cs \<noteq> [] \<and>
     r = \<lparr>ra_CandidatesMatched = length (Candidates idx (rq_Capability req)),
          ra_CandidatesAfterConstraints = length (filter (\<lambda>c. meets c (rq_Capability req) (rq_Constraints req)) (Candidates idx (rq_Capability req))),
          ra_CandidatesReady = length (filter ca_Ready (filter (\<lambda>c. meets c (rq_Capability req) (rq_Constraints req)) (Candidates idx (rq_Capability req)))),
          ra_CandidatesAfterExpertFilter = length cs, ra_Mode = ModeUnset, ra_WinningFactors = []\<rparr>"
proof -
  let ?m = "Candidates idx (rq_Capability req)" and ?P = "\<lambda>c. meets c (rq_Capability req) (rq_Constraints req)"
  obtain stage where f: "filterConstraints ?m (rq_Capability req) (rq_Constraints req) = (filter ?P ?m, stage)"
    by (metis fst_filterConstraints prod.collapse)
  have q: "filter (\<lambda>c. ca_ExpertScope c = rq_ExpertTarget req) (filter ca_Ready (filter ?P ?m)) = filter (qualifies req) ?m"
    if "rq_ExpertTarget req \<noteq> ''''" using that by (auto simp: qualifies_def intro!: filter_cong)
  have q': "filter ca_Ready (filter ?P ?m) = filter (qualifies req) ?m" if "rq_ExpertTarget req = ''''"
    using that by (auto simp: qualifies_def intro!: filter_cong)
  have sub: "filter (qualifies req) ?m \<noteq> [] \<Longrightarrow> ?m \<noteq> [] \<and> filter ?P ?m \<noteq> [] \<and> filter ca_Ready (filter ?P ?m) \<noteq> []"
    by (auto simp: filter_empty_conv qualifies_def)
  show ?thesis
    using q q' sub by (cases "rq_ExpertTarget req = ''''") (auto simp: eligible_def Let_def f simp del: filter_filter)
qed

section \<open>The choice\<close>

lemma best_loop_in: "best_loop capID snap best cs \<in> set (best # cs)"
  by (induction cs arbitrary: best) auto

lemma best_loop_least:
  assumes "\<forall>c \<in> set (best # cs). cand_score capID snap c \<noteq> FNaN" "c \<in> set (best # cs)"
  shows "\<not> f_lt (cand_score capID snap c) (cand_score capID snap (best_loop capID snap best cs))"
  using assms
proof (induction cs arbitrary: best c)
  case (Cons d cs)
  let ?s = "cand_score capID snap"
  define b where "b = (if f_lt (?s d) (?s best) then d else best)"
  have r: "best_loop capID snap best (d # cs) = best_loop capID snap b cs" by (simp add: b_def)
  have nan: "\<forall>c \<in> set (b # cs). ?s c \<noteq> FNaN" using Cons.prems(1) by (simp add: b_def)
  have b: "\<not> f_lt (?s b) (?s (best_loop capID snap b cs))" using Cons.IH [OF nan] by simp
  have le: "\<not> f_lt (?s best) (?s b)" "\<not> f_lt (?s d) (?s b)"
    using f_lt_trans [of "?s d" "?s best" "?s d"] by (auto simp: b_def)
  have "\<not> f_lt (?s x) (?s (best_loop capID snap b cs))" if x: "\<not> f_lt (?s x) (?s b)" for x
    using f_lt_weaken [of "?s x" "?s (best_loop capID snap b cs)" "?s b"] b x nan by auto
  with le Cons.IH [OF nan] Cons.prems(2) show ?case unfolding r by auto
qed simp

lemma best_loop_first:
  assumes "\<forall>c \<in> set (best # cs). cand_score capID snap c \<noteq> FNaN"
  shows "\<exists>xs ys. best # cs = xs @ best_loop capID snap best cs # ys \<and>
    (\<forall>x \<in> set xs. f_lt (cand_score capID snap (best_loop capID snap best cs)) (cand_score capID snap x))"
  using assms
proof (induction cs arbitrary: best)
  case (Cons d cs)
  let ?s = "cand_score capID snap"
  have d: "?s d \<noteq> FNaN" using Cons.prems by simp
  show ?case
  proof (cases "f_lt (?s d) (?s best)")
    case True
    define b where "b = best_loop capID snap d cs"
    obtain xs ys where xs: "d # cs = xs @ b # ys" "\<forall>x \<in> set xs. f_lt (?s b) (?s x)"
      using Cons.IH [of d] Cons.prems unfolding b_def by auto
    then have "f_lt (?s b) (?s best)" using True f_lt_trans by (cases xs) auto
    then have "best # d # cs = (best # xs) @ b # ys \<and> (\<forall>x \<in> set (best # xs). f_lt (?s b) (?s x))" using xs by auto
    moreover have "best_loop capID snap best (d # cs) = b" using True by (simp add: b_def)
    ultimately show ?thesis by metis
  next
    case False
    define b where "b = best_loop capID snap best cs"
    obtain xs ys where xs: "best # cs = xs @ b # ys" "\<forall>x \<in> set xs. f_lt (?s b) (?s x)"
      using Cons.IH [of best] Cons.prems unfolding b_def by auto
    have "\<exists>xs ys. best # d # cs = xs @ b # ys \<and> (\<forall>x \<in> set xs. f_lt (?s b) (?s x))"
    proof (cases xs)
      case Nil
      then show ?thesis using xs by (intro exI [of _ "[]"] exI [of _ "d # cs"]) simp
    next
      case (Cons x xs')
      then have "best # d # cs = (best # d # xs') @ b # ys" "f_lt (?s b) (?s best)" using xs by auto
      moreover have "f_lt (?s b) (?s d)" using f_lt_weaken [OF calculation(2) d False] .
      ultimately show ?thesis using xs(2) Cons by (metis list.set_intros(2) set_ConsD)
    qed
    moreover have "best_loop capID snap best (d # cs) = b" using False by (simp add: b_def)
    ultimately show ?thesis by simp
  qed
qed (auto intro!: exI [of _ "[]"])

lemma rotate_chosen:
  assumes "cands \<noteq> []" "length cands < 2 ^ 64"
  shows "rs_Chosen (fst (Scorer_rotate rr cands capID r mode factors)) = cands ! (unat rr mod length cands)"
  using assms by (simp add: Scorer_rotate_def Let_def unat_mod unat_of_nat take_bit_nat_eq_self)

lemma rotate_fst: "fst (Scorer_rotate rr cands capID r mode factors) =
    \<lparr>rs_Chosen = rs_Chosen (fst (Scorer_rotate rr cands capID r mode factors)),
     rs_Capability = capability_of (rs_Chosen (fst (Scorer_rotate rr cands capID r mode factors))) capID,
     rs_Rationale = r\<lparr>ra_Mode := mode, ra_WinningFactors := factors\<rparr>\<rparr>"
  by (simp add: Scorer_rotate_def Let_def)

text \<open>The agent selected is one of the eligible ones, in every mode.\<close>

lemma Select_Inr:
  assumes "fst (Select rr snapshot idx req) = Inr res" "length (Candidates idx (rq_Capability req)) < 2 ^ 64"
  shows "\<exists>cs r. eligible idx req = Inr (cs, r) \<and> rs_Chosen res \<in> set cs \<and>
    rs_Capability res = capability_of (rs_Chosen res) (rq_Capability req)"
proof -
  obtain cs r where e: "eligible idx req = Inr (cs, r)"
    using assms(1) by (cases "eligible idx req") (auto simp: Select_def)
  then have cs: "cs \<noteq> []" "length cs < 2 ^ 64"
    using le_less_trans [OF length_filter_le assms(2)] by (auto simp: eligible_Inr)
  have rot: "rs_Chosen (fst (Scorer_rotate rr cs c r m f)) \<in> set cs" for c m f
    using rotate_chosen [OF cs] cs(1) by simp
  have best: "best_loop c snap (hd cs) (tl cs) \<in> set cs" for c snap
    using best_loop_in [of c snap "hd cs" "tl cs"] cs(1) by simp
  have "fst (Select rr snapshot idx req) = Inr res \<Longrightarrow> ?thesis"
    using e rot best
    by (auto simp: Select_def Scorer_rotate_def Let_def split: if_splits option.splits)
  with assms(1) show ?thesis by blast
qed

lemma Select_total: "eligible idx req = Inr x \<Longrightarrow> \<exists>res. fst (Select rr snapshot idx req) = Inr res"
  by (auto simp: Select_def Let_def split: prod.splits option.splits)

lemma Select_Inl: "fst (Select rr snapshot idx req) = Inl e \<longleftrightarrow> eligible idx req = Inl e"
  by (auto simp: Select_def Let_def split: sum.splits prod.splits option.splits)

lemma Candidates_set: "index_ok idx \<Longrightarrow> set (Candidates idx cap) = {c. index_abs idx (ca_Key c) = Some c \<and> declares c cap}"
  using Candidates_sorted by (auto simp: agents_sorted_def)

lemma qualifies_declares: "qualifies req c \<Longrightarrow> declares c (rq_Capability req)"
  by (auto simp: qualifies_def meets_def declares_def)

lemma Candidates_length: "index_ok idx \<Longrightarrow> length (Candidates idx cap) \<le> length (ix_agents idx)"
proof -
  assume ok: "index_ok idx"
  then have "set (map ca_Key (Candidates idx cap)) \<subseteq> set (map fst (ix_agents idx))"
    by (auto simp: Candidates_set index_abs_def dest!: map_of_SomeD intro: rev_image_eqI)
  moreover have "distinct (map ca_Key (Candidates idx cap))" using Candidates_sorted [OF ok] by (simp add: agents_sorted_def)
  ultimately show ?thesis by (metis card_mono distinct_card length_map List.finite_set card_length order_trans)
qed

text \<open>C34 Selection is sound and complete.  It returns an agent exactly when some indexed agent
  declares the capability, meets the constraints, is ready and has the expert scope asked for,
  whatever the metrics backend answers; and the agent it returns is such an agent, with the
  capability asked for.\<close>

theorem Select_sound_complete:
  assumes "index_ok idx" "length (ix_agents idx) < 2 ^ 64"
  shows "((\<exists>res. fst (Select rr snapshot idx req) = Inr res) \<longleftrightarrow> (\<exists>c. index_abs idx (ca_Key c) = Some c \<and> qualifies req c)) \<and>
    (\<forall>res. fst (Select rr snapshot idx req) = Inr res \<longrightarrow>
       index_abs idx (ca_Key (rs_Chosen res)) = Some (rs_Chosen res) \<and> qualifies req (rs_Chosen res) \<and>
       CapabilityByID (rs_Chosen res) (rq_Capability req) = Some (rs_Capability res))"
proof -
  let ?m = "Candidates idx (rq_Capability req)"
  have len: "length ?m < 2 ^ 64" using Candidates_length [OF assms(1)] assms(2) by (rule le_less_trans)
  have sound: "index_abs idx (ca_Key (rs_Chosen res)) = Some (rs_Chosen res) \<and> qualifies req (rs_Chosen res) \<and>
      CapabilityByID (rs_Chosen res) (rq_Capability req) = Some (rs_Capability res)"
    if res: "fst (Select rr snapshot idx req) = Inr res" for res
  proof -
    obtain cs r where cs: "eligible idx req = Inr (cs, r)" "rs_Chosen res \<in> set cs"
      "rs_Capability res = capability_of (rs_Chosen res) (rq_Capability req)" using Select_Inr [OF res len] by blast
    then have "rs_Chosen res \<in> set ?m" "qualifies req (rs_Chosen res)" by (auto simp: eligible_Inr)
    with cs(3) show ?thesis using Candidates_set [OF assms(1)] by (auto simp: capability_of_def declares_def)
  qed
  have "\<exists>res. fst (Select rr snapshot idx req) = Inr res" if "index_abs idx (ca_Key c) = Some c" "qualifies req c" for c
  proof -
    have "c \<in> set (filter (qualifies req) ?m)" using that by (simp add: Candidates_set [OF assms(1)] qualifies_declares)
    then have "\<exists>x. eligible idx req = Inr x" by (auto simp: eligible_Inr filter_empty_conv)
    then show ?thesis using Select_total by blast
  qed
  with sound show ?thesis by blast
qed

text \<open>The error of a selection that finds no agent.  When no indexed agent declares the
  capability the error says so.  Otherwise it names a stage: the expert target when some agent
  is ready and meets the constraints, readiness when some agent meets them, and otherwise a
  constraint: the first one that the last candidate, in the order of the keys, does not meet.\<close>

theorem Select_errors:
  assumes "index_ok idx" "fst (Select rr snapshot idx req) = Inl e"
    and cs: "cs = Candidates idx (rq_Capability req)"
  shows "errors_cause e = Some
    (if cs = [] then ErrNoCapability
     else FilteredError (rq_Capability req)
       (if \<exists>c \<in> set cs. meets c (rq_Capability req) (rq_Constraints req) \<and> ca_Ready c then ''expert:'' @ rq_ExpertTarget req
        else if \<exists>c \<in> set cs. meets c (rq_Capability req) (rq_Constraints req) then ''ready''
        else failedConstraint (capability_of (last cs) (rq_Capability req)) (rq_Constraints req)))"
proof -
  let ?P = "\<lambda>c. meets c (rq_Capability req) (rq_Constraints req)"
  obtain stage where f: "filterConstraints cs (rq_Capability req) (rq_Constraints req) = (filter ?P cs, stage)"
    by (metis fst_filterConstraints prod.collapse)
  have e: "eligible idx req = Inl e" using assms(2) by (simp add: Select_Inl)
  have dec: "\<forall>c \<in> set cs. declares c (rq_Capability req)" using Candidates_set [OF assms(1)] by (simp add: cs)
  have stage: "stage = failedConstraint (capability_of (last cs) (rq_Capability req)) (rq_Constraints req)"
    if "filter ?P cs = []" "cs \<noteq> []"
    using filter_loop_stage [of cs _ _ "''''" stage, OF _ dec] that f by (simp add: filterConstraints_def)
  consider "cs = []" | "cs \<noteq> []" "filter ?P cs = []" | "cs \<noteq> []" "filter ?P cs \<noteq> []" "filter ca_Ready (filter ?P cs) = []"
    | "cs \<noteq> []" "filter ?P cs \<noteq> []" "filter ca_Ready (filter ?P cs) \<noteq> []" by blast
  then show ?thesis
  proof cases
    case 2
    then show ?thesis using e f stage by (auto simp: eligible_def cs [symmetric] filter_empty_conv)
  next
    case 3
    then have "\<not> (\<exists>c \<in> set cs. ?P c \<and> ca_Ready c)" "\<exists>c \<in> set cs. ?P c" by (auto simp: filter_empty_conv)
    with 3 show ?thesis using e f by (auto simp: eligible_def cs [symmetric] Let_def simp del: filter_filter)
  next
    case 4
    then have "\<exists>c \<in> set cs. ?P c \<and> ca_Ready c" by (auto simp: filter_empty_conv)
    with 4 show ?thesis using e f by (auto simp: eligible_def cs [symmetric] Let_def simp del: filter_filter split: if_splits)
  qed (use e in \<open>auto simp: eligible_def cs [symmetric]\<close>)
qed


text \<open>A metric that is not a number blinds the comparison: when the first agent has such a score it
  is selected whatever the others score.\<close>

lemma best_loop_nan: "cand_score capID snap best = FNaN \<Longrightarrow> best_loop capID snap best cs = best"
  by (induction cs) auto

section \<open>Rotation\<close>

text \<open>The agents of a number of selections in a row.\<close>

fun picks :: "nat \<Rightarrow> 64 word \<Rightarrow> Index \<Rightarrow> Request \<Rightarrow> Candidate list" where
  "picks 0 rr idx req = []"
| "picks (Suc n) rr idx req =
     (case Select rr (\<lambda>keys. None) idx req of
        (Inr res, rr1) \<Rightarrow> rs_Chosen res # picks n rr1 idx req
      | (Inl e, rr1) \<Rightarrow> picks n rr1 idx req)"

lemma Select_rotates:
  assumes "eligible idx req = Inr (cs, r)" "length cs < 2 ^ 64"
  shows "\<exists>res. Select rr (\<lambda>keys. None) idx req = (Inr res, rr + 1) \<and> rs_Chosen res = cs ! (unat rr mod length cs)"
proof -
  have "cs \<noteq> []" using iffD1 [OF eligible_Inr assms(1)] by blast
  note chosen = rotate_chosen [OF this assms(2), of rr "rq_Capability req" r]
  have "Select rr (\<lambda>keys. None) idx req =
      (Inr (fst (Scorer_rotate rr cs (rq_Capability req) r
         (if rq_RoundRobin req then ModeRoundRobin else ModeDegradedRoundRobin)
         (if rq_RoundRobin req then [''rotation''] else [''readiness'', ''rotation'']))), rr + 1)"
    by (simp add: Select_def Scorer_rotate_def Let_def assms(1))
  with chosen show ?thesis by blast
qed

lemma picks_nth:
  assumes "eligible idx req = Inr (cs, r)" "length cs < 2 ^ 64"
  shows "unat rr + n \<le> 2 ^ 64 \<Longrightarrow> picks n rr idx req = map (\<lambda>i. cs ! ((unat rr + i) mod length cs)) [0..<n]"
proof (induction n arbitrary: rr)
  case (Suc n)
  obtain res where res: "Select rr (\<lambda>keys. None) idx req = (Inr res, rr + 1)" "rs_Chosen res = cs ! (unat rr mod length cs)"
    using Select_rotates [OF assms] by blast
  have "picks n (rr + 1) idx req = map (\<lambda>i. cs ! ((unat rr + Suc i) mod length cs)) [0..<n]"
  proof (cases "n = 0")
    case False
    then have u: "unat (rr + 1) = unat rr + 1" using Suc.prems unat_add_lem [of rr 1] by simp
    show ?thesis using Suc.IH [of "rr + 1"] Suc.prems unfolding u by simp
  qed simp
  then show ?case using res by (simp add: map_upt_Suc del: upt_Suc)
qed simp

text \<open>C37 Rotation is fair: as many selections in a row as there are agents that satisfy the request
  give each of them exactly once, as long as the counter does not wrap around on the way.\<close>

theorem rotation_fair:
  assumes "cs = filter (qualifies req) (Candidates idx (rq_Capability req))" "cs \<noteq> []"
    and "unat rr + length cs \<le> 2 ^ 64" "length cs < 2 ^ 64"
  shows "mset (picks (length cs) rr idx req) = mset cs"
proof -
  obtain r where "eligible idx req = Inr (cs, r)" using assms(1,2) by (auto simp: eligible_Inr)
  from picks_nth [OF this assms(4,3)] have "picks (length cs) rr idx req = List.rotate (unat rr) cs"
    by (auto intro: nth_equalityI simp: nth_rotate)
  then show ?thesis by (metis add.commute append_take_drop_id mset_append rotate_drop_take)
qed

end
