(* ===== verification/Sched_Api.thy ===== *)
theory Sched_Api
  imports Sched_Scorer
begin

text \<open>
  The scheduler around its scorer (\<^verbatim>\<open>services/agent-registry/internal\<close>): the gRPC handler
  (\<^verbatim>\<open>api/scheduler_handler.go\<close>), the two reconcilers of Agent resources
  (\<^verbatim>\<open>infrastructure/crd/informer.go\<close>, \<^verbatim>\<open>readiness.go\<close>) and the cache over the metrics backend
  (\<^verbatim>\<open>infrastructure/promql/client.go\<close>).

  The accessors of unstructured Kubernetes objects are a parameter (a record over a type of
  objects), as are the answers of the API server and of the metrics backend.
\<close>

section \<open>The gRPC handler\<close>

record CapabilityDef =
  cd_Name :: string
  cd_Description :: string
  cd_InputSchema :: string
  cd_OutputSchema :: string

record AgentDef =
  ad_AgentId :: string
  ad_Name :: string
  ad_Endpoint :: string
  ad_Capabilities :: "CapabilityDef list"
  ad_Status :: string

datatype SelectionMode =
    SELECTION_MODE_UNSPECIFIED | SELECTION_MODE_METRICS_WEIGHTED | SELECTION_MODE_ROUND_ROBIN
  | SELECTION_MODE_DEGRADED_ROUND_ROBIN

datatype SelectionPolicy =
    SELECTION_POLICY_UNSPECIFIED | SELECTION_POLICY_METRICS_WEIGHTED | SELECTION_POLICY_ROUND_ROBIN

record SelectionConstraints =
  sc_Tags :: "string list"
  sc_Language :: string
  sc_Model :: string
  sc_RequireGpu :: bool
  sc_Protocols :: "string list"

record SelectAgentRequest =
  sa_CapabilityName :: string
  sa_Constraints :: "SelectionConstraints option"
  sa_Policy :: SelectionPolicy
  sa_ExpertTarget :: string

record SelectionRationale =
  sr_CandidatesMatched :: int
  sr_CandidatesAfterConstraints :: int
  sr_CandidatesReady :: int
  sr_CandidatesAfterExpertFilter :: int
  sr_Mode :: SelectionMode
  sr_WinningFactors :: "string list"

record SelectAgentResponse =
  sp_Agent :: AgentDef
  sp_Rationale :: SelectionRationale

fun protoConstraints :: "SelectionConstraints option \<Rightarrow> Constraints" where
  "protoConstraints None = \<lparr>k_RequiredTags = [], k_RequiredLanguage = '''', k_RequiredModel = '''', k_RequireGPU = False,
     k_RequiredProtocols = []\<rparr>"
| "protoConstraints (Some c) = \<lparr>k_RequiredTags = sc_Tags c, k_RequiredLanguage = sc_Language c,
     k_RequiredModel = sc_Model c, k_RequireGPU = sc_RequireGpu c, k_RequiredProtocols = sc_Protocols c\<rparr>"

definition candidateToProto :: "Candidate \<Rightarrow> AgentDef" where
  "candidateToProto c =
     \<lparr>ad_AgentId = ca_Key c, ad_Name = ca_Name c, ad_Endpoint = ca_Endpoint c,
      ad_Capabilities = map (\<lambda>cap. \<lparr>cd_Name = cap_ID cap, cd_Description = cap_Description cap,
        cd_InputSchema = cap_InputSchema cap, cd_OutputSchema = cap_OutputSchema cap\<rparr>) (ca_Capabilities c),
      ad_Status = ''AGENT_STATUS_REGISTERED''\<rparr>"

fun modeToProto :: "Mode \<Rightarrow> SelectionMode" where
  "modeToProto ModeMetricsWeighted = SELECTION_MODE_METRICS_WEIGHTED"
| "modeToProto ModeRoundRobin = SELECTION_MODE_ROUND_ROBIN"
| "modeToProto ModeDegradedRoundRobin = SELECTION_MODE_DEGRADED_ROUND_ROBIN"
| "modeToProto ModeUnset = SELECTION_MODE_UNSPECIFIED"

definition rationaleToProto :: "Rationale \<Rightarrow> SelectionRationale" where
  "rationaleToProto r =
     \<lparr>sr_CandidatesMatched = to_int32 (int (ra_CandidatesMatched r)),
      sr_CandidatesAfterConstraints = to_int32 (int (ra_CandidatesAfterConstraints r)),
      sr_CandidatesReady = to_int32 (int (ra_CandidatesReady r)),
      sr_CandidatesAfterExpertFilter = to_int32 (int (ra_CandidatesAfterExpertFilter r)),
      sr_Mode = modeToProto (ra_Mode r), sr_WinningFactors = ra_WinningFactors r\<rparr>"

definition schedulerErr :: "sched_error \<Rightarrow> grpc_code \<times> sched_error" where
  "schedulerErr err =
     (if errors_Is err ErrNoCapability then (NotFound, err)
      else case errors_cause err of
          Some (FilteredError cap stage) \<Rightarrow> (FailedPrecondition, err)
        | _ \<Rightarrow> (Internal, err))"

definition SelectAgent ::
  "64 word \<Rightarrow> (string list \<Rightarrow> (string, Metrics) gomap option) \<Rightarrow> Index \<Rightarrow> SelectAgentRequest \<Rightarrow>
   ((grpc_code \<times> sched_error) + SelectAgentResponse) \<times> 64 word" where
  "SelectAgent rr snapshot idx req =
     (if sa_CapabilityName req = ''''
      then (Inl (InvalidArgument, Errorf ''capability_name must not be empty'' []), rr)
      else case Select rr snapshot idx
               \<lparr>rq_Capability = sa_CapabilityName req, rq_Constraints = protoConstraints (sa_Constraints req),
                rq_RoundRobin = (sa_Policy req = SELECTION_POLICY_ROUND_ROBIN), rq_ExpertTarget = sa_ExpertTarget req\<rparr> of
          (Inl err, rr1) \<Rightarrow> (Inl (schedulerErr err), rr1)
        | (Inr res, rr1) \<Rightarrow>
            (Inr \<lparr>sp_Agent = candidateToProto (rs_Chosen res), sp_Rationale = rationaleToProto (rs_Rationale res)\<rparr>, rr1))"

section \<open>Agent resources\<close>

record 'u unstructured =
  un_NestedBool :: "'u \<Rightarrow> string list \<Rightarrow> bool"
  un_NestedInt64 :: "'u \<Rightarrow> string list \<Rightarrow> int"
  un_NestedString :: "'u \<Rightarrow> string list \<Rightarrow> string"
  un_NestedSlice :: "'u \<Rightarrow> string list \<Rightarrow> go_value list"
  un_GetNamespace :: "'u \<Rightarrow> string"
  un_GetName :: "'u \<Rightarrow> string"
  un_GetLabels :: "'u \<Rightarrow> (string, string) gomap"
  un_GetGeneration :: "'u \<Rightarrow> int"

definition expertScopeLabel :: string where "expertScopeLabel = ''zynax.io/expert-scope''"

definition asString :: "go_value \<Rightarrow> string" where
  "asString v = (case v of VString s \<Rightarrow> s | _ \<Rightarrow> '''')"

definition toStrings :: "go_value \<Rightarrow> string list" where
  "toStrings v =
     (case v of
        VList es \<Rightarrow> List.map_filter (\<lambda>e. case e of VString s \<Rightarrow> Some s | _ \<Rightarrow> None) es
      | _ \<Rightarrow> [])"

definition parseFloat :: "string \<Rightarrow> float64" where
  "parseFloat s = fst (ParseFloat s)"

text \<open>One entry of the capabilities; \<open>None\<close> when it is not an object.\<close>

definition parse_capability :: "go_value \<Rightarrow> Capability option" where
  "parse_capability item =
     (case item of
        VMap cm \<Rightarrow>
          let get = gm_get VNil cm;
              sel = (case get ''selectors'' of
                  VMap s \<Rightarrow> \<lparr>sel_Language = toStrings (gm_get VNil s ''language''), sel_Tags = toStrings (gm_get VNil s ''tags'')\<rparr>
                | _ \<Rightarrow> \<lparr>sel_Language = [], sel_Tags = []\<rparr>);
              cost = (case get ''cost'' of
                  VMap c \<Rightarrow> \<lparr>cost_TokenPrice = parseFloat (asString (gm_get VNil c ''tokenPrice'')),
                             cost_LatencyClass = asString (gm_get VNil c ''latencyClass'')\<rparr>
                | _ \<Rightarrow> \<lparr>cost_TokenPrice = FFin 0, cost_LatencyClass = ''''\<rparr>);
              gpu = (case get ''resources'' of
                  VMap r \<Rightarrow> f_to_int (parseFloat (asString (gm_get VNil r ''gpu'')))
                | _ \<Rightarrow> 0)
          in Some \<lparr>cap_ID = asString (get ''id''), cap_Description = asString (get ''description''),
                   cap_InputSchema = asString (get ''inputSchema''), cap_OutputSchema = asString (get ''outputSchema''),
                   cap_Selectors = sel, cap_Cost = cost, cap_Resources = \<lparr>res_GPU = gpu\<rparr>,
                   cap_Models = toStrings (get ''models''), cap_Protocols = toStrings (get ''protocols'')\<rparr>
      | _ \<Rightarrow> None)"

definition parseCapabilities :: "'u unstructured \<Rightarrow> 'u \<Rightarrow> Capability list" where
  "parseCapabilities U u = List.map_filter parse_capability (un_NestedSlice U u [''spec'', ''capabilities''])"

definition ToCandidate :: "'u unstructured \<Rightarrow> string \<Rightarrow> 'u \<Rightarrow> Candidate" where
  "ToCandidate U key u =
     (let ns = un_GetNamespace U u;
          svc = un_NestedString U u [''spec'', ''endpointRef'', ''serviceName''];
          port = un_NestedInt64 U u [''spec'', ''endpointRef'', ''port'']
      in \<lparr>ca_Key = key, ca_Name = un_GetName U u, ca_Endpoint = svc @ ''.'' @ ns @ ''.svc:'' @ Itoa port,
          ca_Ready = un_NestedBool U u [''status'', ''ready''], ca_Replicas = un_NestedInt64 U u [''status'', ''replicas''],
          ca_ExpertScope = gm_get '''' (un_GetLabels U u) expertScopeLabel, ca_Capabilities = parseCapabilities U u\<rparr>)"

datatype get_err = GetNotFound | GetOther string

definition agent_key :: "string \<Rightarrow> string \<Rightarrow> string" where
  "agent_key namespace name = namespace @ ''/'' @ name"

definition Reconcile ::
  "'u unstructured \<Rightarrow> Index \<Rightarrow> string \<Rightarrow> string \<Rightarrow> get_err + 'u \<Rightarrow> get_err go_error option \<times> Index" where
  "Reconcile U idx namespace name got =
     (let key = agent_key namespace name in
      case got of
        Inl err \<Rightarrow>
          ((if err = GetNotFound then None else Some (Wrapf ''crd: get agent %s: %w'' [FS key] (Typed err))), index_Delete idx key)
      | Inr u \<Rightarrow> (None, Upsert idx (ToCandidate U key u)))"

section \<open>Readiness\<close>

text \<open>An endpoint's condition \<^verbatim>\<open>Ready\<close> may be unset; a slice is the list of its endpoints'.\<close>

type_synonym endpoint_slice = "bool option list"

definition countServingEndpoints ::
  "string \<Rightarrow> string \<Rightarrow> string + endpoint_slice list \<Rightarrow> get_err go_error + nat" where
  "countServingEndpoints ns svc slices =
     (if svc = '''' then Inr 0
      else case slices of
          Inl err \<Rightarrow> Inl (Wrapf ''crd: list endpointslices for %s/%s: %w'' [FS ns, FS svc] (Typed (GetOther err)))
        | Inr sls \<Rightarrow> Inr (length (filter (\<lambda>r. r = Some True) (concat sls))))"

record agent_status =
  as_ready :: bool
  as_replicas :: int
  as_observedGeneration :: int
  as_condStatus :: string
  as_reason :: string
  as_message :: message
  as_lastTransitionTime :: string

definition transition_time :: "go_value list \<Rightarrow> string \<Rightarrow> string \<Rightarrow> string" where
  "transition_time conds condStatus now =
     (case conds of
        VMap prev # _ \<Rightarrow>
          if asString (gm_get VNil prev ''status'') = condStatus \<and> asString (gm_get VNil prev ''lastTransitionTime'') \<noteq> ''''
          then asString (gm_get VNil prev ''lastTransitionTime'') else now
      | _ \<Rightarrow> now)"

text \<open>The status written by \<^verbatim>\<open>writeStatus\<close>.\<close>

definition new_status :: "'u unstructured \<Rightarrow> 'u \<Rightarrow> string \<Rightarrow> bool \<Rightarrow> nat \<Rightarrow> string \<Rightarrow> agent_status" where
  "new_status U u svc ready serving now =
     (let condStatus = (if ready then ''True'' else ''False'') in
      \<lparr>as_ready = ready, as_replicas = int serving, as_observedGeneration = un_GetGeneration U u, as_condStatus = condStatus,
       as_reason = (if ready then ''EndpointsServing'' else ''NoServingEndpoints''),
       as_message = (if ready then Sprintf ''%d serving endpoint(s) behind Service %q'' [FI (int serving), FS svc]
                     else Sprintf ''no serving endpoints behind Service %q'' [FS svc]),
       as_lastTransitionTime = transition_time (un_NestedSlice U u [''status'', ''conditions'']) condStatus now\<rparr>)"

text \<open>One reconciliation: the error, and the status it sends to the API server, if any.
  \<open>upd\<close> is the answer to the update.\<close>

definition readiness_Reconcile ::
  "'u unstructured \<Rightarrow> string \<Rightarrow> string \<Rightarrow> get_err + 'u \<Rightarrow> (string \<Rightarrow> string + endpoint_slice list) \<Rightarrow> string option \<Rightarrow> string \<Rightarrow>
   get_err go_error option \<times> agent_status option" where
  "readiness_Reconcile U namespace name got slices upd now =
     (case got of
        Inl err \<Rightarrow>
          ((if err = GetNotFound then None
            else Some (Wrapf ''crd: get agent %s: %w'' [FS (agent_key namespace name)] (Typed err))), None)
      | Inr u \<Rightarrow>
          let svc = un_NestedString U u [''spec'', ''endpointRef'', ''serviceName''] in
          case countServingEndpoints namespace svc (slices svc) of
            Inl err \<Rightarrow> (Some err, None)
          | Inr serving \<Rightarrow>
              let ready = (serving > 0) in
              if un_NestedBool U u [''status'', ''ready''] = ready \<and>
                 un_NestedInt64 U u [''status'', ''replicas''] = int serving \<and>
                 un_NestedInt64 U u [''status'', ''observedGeneration''] = un_GetGeneration U u
              then (None, None)
              else (map_option (\<lambda>e. Wrapf ''crd: update agent status: %w'' [] (Typed (GetOther e))) upd,
                    Some (new_status U u svc ready serving now)))"

text \<open>The agents to reconcile when a slice of a service changes.\<close>

definition mapSliceToAgents ::
  "'u unstructured \<Rightarrow> (string, string) gomap \<Rightarrow> (string + 'u list) \<Rightarrow> (string \<times> string) list" where
  "mapSliceToAgents U slice_labels agents =
     (let svc = gm_get '''' slice_labels ''kubernetes.io/service-name'' in
      if svc = '''' then []
      else case agents of
          Inl err \<Rightarrow> []
        | Inr us \<Rightarrow> map (\<lambda>u. (un_GetNamespace U u, un_GetName U u))
                      (filter (\<lambda>u. un_NestedString U u [''spec'', ''endpointRef'', ''serviceName''] = svc) us))"

section \<open>The metrics cache\<close>

record prom_client =
  pc_cached :: "(string, Metrics) gomap option"
  pc_fetched :: int

definition DefaultTTL :: int where "DefaultTTL = 5 * 1000000000"

definition merge_metrics :: "(string, float64) gomap \<Rightarrow> (string, float64) gomap \<Rightarrow> (string, Metrics) gomap" where
  "merge_metrics loads lats =
     foldl (\<lambda>m (k, v). gm_put k ((gm_get zero_metrics m k)\<lparr>me_LatencyP50Ms := v\<rparr>) m)
       (foldl (\<lambda>m (k, v). gm_put k ((gm_get zero_metrics m k)\<lparr>me_Load := v\<rparr>) m) [] loads) lats"

text \<open>The clock is read when the age of the cache is checked and again when it is filled.\<close>

definition snapshotAll ::
  "int \<Rightarrow> sched_error + (string, float64) gomap \<Rightarrow> sched_error + (string, float64) gomap \<Rightarrow> int \<Rightarrow> int \<Rightarrow> prom_client \<Rightarrow>
   (sched_error + (string, Metrics) gomap) \<times> prom_client" where
  "snapshotAll ttl loadsQ latsQ now now' c =
     (case pc_cached c of
        Some m \<Rightarrow> if now - pc_fetched c < ttl then (Inr m, c) else
          (case loadsQ of Inl e \<Rightarrow> (Inl e, c) | Inr loads \<Rightarrow>
           (case latsQ of Inl e \<Rightarrow> (Inl e, c) | Inr lats \<Rightarrow>
              (Inr (merge_metrics loads lats), \<lparr>pc_cached = Some (merge_metrics loads lats), pc_fetched = now'\<rparr>)))
      | None \<Rightarrow>
          (case loadsQ of Inl e \<Rightarrow> (Inl e, c) | Inr loads \<Rightarrow>
           (case latsQ of Inl e \<Rightarrow> (Inl e, c) | Inr lats \<Rightarrow>
              (Inr (merge_metrics loads lats), \<lparr>pc_cached = Some (merge_metrics loads lats), pc_fetched = now'\<rparr>))))"

definition prom_Snapshot ::
  "int \<Rightarrow> sched_error + (string, float64) gomap \<Rightarrow> sched_error + (string, float64) gomap \<Rightarrow> int \<Rightarrow> int \<Rightarrow> prom_client \<Rightarrow>
   string list \<Rightarrow> (sched_error + (string, Metrics) gomap) \<times> prom_client" where
  "prom_Snapshot ttl loadsQ latsQ now now' c keys =
     (case snapshotAll ttl loadsQ latsQ now now' c of
        (Inl e, c1) \<Rightarrow> (Inl e, c1)
      | (Inr m, c1) \<Rightarrow> (Inr (foldl (\<lambda>out k. gm_put k (gm_get zero_metrics m k) out) [] keys), c1))"

section \<open>The contract of the handler\<close>

definition proto_request :: "SelectAgentRequest \<Rightarrow> Request" where
  "proto_request req =
     \<lparr>rq_Capability = sa_CapabilityName req, rq_Constraints = protoConstraints (sa_Constraints req),
      rq_RoundRobin = (sa_Policy req = SELECTION_POLICY_ROUND_ROBIN), rq_ExpertTarget = sa_ExpertTarget req\<rparr>"

lemma proto_request_sel [simp]: "rq_Capability (proto_request req) = sa_CapabilityName req"
  "rq_ExpertTarget (proto_request req) = sa_ExpertTarget req"
  by (simp_all add: proto_request_def)

lemma eligible_Inl_cause:
  "eligible idx req = Inl e \<Longrightarrow>
     (errors_cause e = Some ErrNoCapability \<and> Candidates idx (rq_Capability req) = []) \<or>
     ((\<exists>stage. errors_cause e = Some (FilteredError (rq_Capability req) stage)) \<and> Candidates idx (rq_Capability req) \<noteq> [])"
  by (auto simp: eligible_def Let_def split: if_splits prod.splits)

lemma SelectAgent_cases:
  assumes "sa_CapabilityName req \<noteq> ''''"
  shows "fst (SelectAgent rr snapshot idx req) =
    (case fst (Select rr snapshot idx (proto_request req)) of
       Inl err \<Rightarrow> Inl (schedulerErr err)
     | Inr res \<Rightarrow> Inr \<lparr>sp_Agent = candidateToProto (rs_Chosen res), sp_Rationale = rationaleToProto (rs_Rationale res)\<rparr>)"
  using assms by (simp add: SelectAgent_def proto_request_def split: prod.split sum.split)

text \<open>The codes a call to select an agent can end with, from the agents indexed.\<close>

definition select_code :: "Index \<Rightarrow> SelectAgentRequest \<Rightarrow> grpc_code option" where
  "select_code idx req =
     (if sa_CapabilityName req = '''' then Some InvalidArgument
      else if \<not> list_ex (\<lambda>c. declares c (sa_CapabilityName req)) (map snd (ix_agents idx)) then Some NotFound
      else if \<not> list_ex (qualifies (proto_request req)) (map snd (ix_agents idx)) then Some FailedPrecondition
      else None)"

lemma index_values:
  assumes "index_ok idx"
  shows "c \<in> snd ` set (ix_agents idx) \<longleftrightarrow> index_abs idx (ca_Key c) = Some c"
proof
  assume "c \<in> snd ` set (ix_agents idx)"
  then obtain k where k: "(k, c) \<in> set (ix_agents idx)" by auto
  with assms have "ca_Key c = k" by (auto simp: index_ok_def)
  with k assms show "index_abs idx (ca_Key c) = Some c" by (simp add: index_abs_def index_ok_def gm_ok_in_set)
next
  assume "index_abs idx (ca_Key c) = Some c"
  then show "c \<in> snd ` set (ix_agents idx)" by (force simp: index_abs_def dest!: map_of_SomeD)
qed

lemma SelectAgent_result:
  assumes "index_ok idx" "length (ix_agents idx) < 2 ^ 64"
  shows "case fst (SelectAgent rr snapshot idx req) of
      Inl (code, err) \<Rightarrow> select_code idx req = Some code
    | Inr resp \<Rightarrow> select_code idx req = None \<and>
        (\<exists>c. index_abs idx (ca_Key c) = Some c \<and> qualifies (proto_request req) c \<and> sp_Agent resp = candidateToProto c)"
proof (cases "sa_CapabilityName req = ''''")
  case True
  then show ?thesis by (simp add: SelectAgent_def select_code_def)
next
  case False
  let ?r = "proto_request req" and ?A = "snd ` set (ix_agents idx)"
  have cand: "set (Candidates idx (sa_CapabilityName req)) = {c \<in> ?A. declares c (sa_CapabilityName req)}"
    using Candidates_set [OF assms(1)] index_values [OF assms(1)] by auto
  have "Candidates idx (sa_CapabilityName req) = [] \<longleftrightarrow> set (Candidates idx (sa_CapabilityName req)) = {}" by simp
  then have nil: "Candidates idx (sa_CapabilityName req) = [] \<longleftrightarrow> \<not> (\<exists>c \<in> ?A. declares c (sa_CapabilityName req))"
    unfolding cand by blast
  have code: "select_code idx req = (if Candidates idx (sa_CapabilityName req) = [] then Some NotFound
      else if \<exists>c \<in> ?A. qualifies ?r c then None else Some FailedPrecondition)"
    unfolding nil using False by (simp add: select_code_def list_ex_iff)
  show ?thesis
  proof (cases "fst (Select rr snapshot idx ?r)")
    case (Inl e)
    have "\<not> (\<exists>c \<in> ?A. qualifies ?r c)"
    proof
      assume "\<exists>c \<in> ?A. qualifies ?r c"
      then obtain c where c: "c \<in> set (Candidates idx (rq_Capability ?r))" "qualifies ?r c"
        using cand qualifies_declares [of ?r] by auto
      then have "filter (qualifies ?r) (Candidates idx (rq_Capability ?r)) \<noteq> []" by (auto simp: filter_empty_conv)
      then obtain x where "eligible idx ?r = Inr x" using eligible_Inr by fast
      from Select_total [OF this] Inl show False by (metis sum.distinct(1))
    qed
    moreover have "eligible idx ?r = Inl e" using Inl by (simp add: Select_Inl)
    from eligible_Inl_cause [OF this] have "schedulerErr e =
        (if Candidates idx (sa_CapabilityName req) = [] then NotFound else FailedPrecondition, e)"
      by (auto simp: schedulerErr_def errors_Is_def)
    ultimately show ?thesis using Inl code by (simp add: SelectAgent_cases [OF False])
  next
    case (Inr res)
    have len: "length (Candidates idx (rq_Capability ?r)) < 2 ^ 64"
      using Candidates_length [OF assms(1)] assms(2) by (rule le_less_trans)
    obtain cs r where "eligible idx ?r = Inr (cs, r)" "rs_Chosen res \<in> set cs" using Select_Inr [OF Inr len] by blast
    then have c: "rs_Chosen res \<in> set (Candidates idx (sa_CapabilityName req))" "qualifies ?r (rs_Chosen res)"
      by (auto simp: eligible_Inr)
    with cand have A: "rs_Chosen res \<in> ?A" by blast
    with c have "select_code idx req = None" unfolding code by (metis empty_iff empty_set)
    with A c(2) index_values [OF assms(1)] show ?thesis using Inr
      by (simp add: SelectAgent_cases [OF False] del: ex_simps) blast
  qed
qed

text \<open>C34 The contract of the selection call.  It ends with \<^verbatim>\<open>INVALID_ARGUMENT\<close> exactly when the
  capability name is empty, with \<^verbatim>\<open>NOT_FOUND\<close> exactly when no indexed agent declares the
  capability, with \<^verbatim>\<open>FAILED_PRECONDITION\<close> exactly when agents declare it and none satisfies the
  request, never with another code, and otherwise returns an indexed agent that satisfies it.\<close>

theorem SelectAgent_contract:
  assumes "index_ok idx" "length (ix_agents idx) < 2 ^ 64"
  shows "case fst (SelectAgent rr snapshot idx req) of
      Inl (code, err) \<Rightarrow> select_code idx req = Some code
    | Inr resp \<Rightarrow> select_code idx req = None \<and>
        (\<exists>c. index_abs idx (ca_Key c) = Some c \<and> qualifies (proto_request req) c \<and> sp_Agent resp = candidateToProto c)"
  by (rule SelectAgent_result [OF assms])

section \<open>The reconcilers\<close>

lemma ToCandidate_key [simp]: "ca_Key (ToCandidate U key u) = key"
  by (simp add: ToCandidate_def Let_def)

text \<open>A reconciliation as the index sees it, and its effect on the map of agents.\<close>

type_synonym 'u reconciliation = "string \<times> string \<times> (get_err + 'u)"

definition reconcile_event :: "'u unstructured \<Rightarrow> 'u reconciliation \<Rightarrow> watch_event" where
  "reconcile_event U ev =
     (case ev of (ns, name, Inl err) \<Rightarrow> Removed (agent_key ns name)
      | (ns, name, Inr u) \<Rightarrow> Added (ToCandidate U (agent_key ns name) u))"

definition reconcile_all :: "'u unstructured \<Rightarrow> Index \<Rightarrow> 'u reconciliation list \<Rightarrow> Index" where
  "reconcile_all U = foldl (\<lambda>idx (ns, name, got). snd (Reconcile U idx ns name got))"

lemma reconcile_all_events: "reconcile_all U idx evs = foldl apply_event idx (map (reconcile_event U) evs)"
  unfolding reconcile_all_def
proof (induction evs arbitrary: idx)
  case (Cons ev evs)
  obtain ns name got where "ev = (ns, name, got)" by (cases ev)
  with Cons show ?case by (cases got) (simp_all add: Reconcile_def reconcile_event_def Let_def)
qed simp

text \<open>The agents after a sequence of reconciliations: the last one of a key decides.\<close>

fun spec_reconcile :: "'u unstructured \<Rightarrow> (string \<rightharpoonup> Candidate) \<Rightarrow> 'u reconciliation \<Rightarrow> (string \<rightharpoonup> Candidate)" where
  "spec_reconcile U a (ns, name, Inl err) = a(agent_key ns name := None)"
| "spec_reconcile U a (ns, name, Inr u) = a(agent_key ns name \<mapsto> ToCandidate U (agent_key ns name) u)"

definition spec_agents :: "'u unstructured \<Rightarrow> 'u reconciliation list \<Rightarrow> string \<rightharpoonup> Candidate" where
  "spec_agents U evs = foldl (spec_reconcile U) Map.empty evs"

lemma spec_agents_events: "foldl spec_event Map.empty (map (reconcile_event U) evs) = spec_agents U evs"
proof -
  have "spec_event a (reconcile_event U ev) = spec_reconcile U a ev" for a ev
    by (cases "(U, a, ev)" rule: spec_reconcile.cases) (simp_all add: reconcile_event_def)
  then show ?thesis by (simp add: foldl_map spec_agents_def)
qed

text \<open>C35 The index refines the map of agents the reconciler has seen.  After any sequence of
  reconciliations the candidates for a capability are exactly the agents last read that declare
  it, each once, in the order of their keys: no stale link survives an update or a removal.  A
  read that fails for any reason removes the agent.\<close>

theorem index_refines_map:
  "agents_sorted (spec_agents U evs) (\<lambda>c. declares c cap) (Candidates (reconcile_all U NewIndex evs) cap)"
  using events_ok [OF NewIndex_ok(1), of "map (reconcile_event U) evs"] NewIndex_ok(2)
  by (metis Candidates_sorted reconcile_all_events spec_agents_events)

text \<open>An object that has been read back with a status the reconciler wrote.\<close>

definition carries_status :: "'u unstructured \<Rightarrow> 'u \<Rightarrow> 'u \<Rightarrow> agent_status \<Rightarrow> bool" where
  "carries_status U u u' st \<longleftrightarrow>
     un_NestedBool U u' [''status'', ''ready''] = as_ready st \<and>
     un_NestedInt64 U u' [''status'', ''replicas''] = as_replicas st \<and>
     un_NestedInt64 U u' [''status'', ''observedGeneration''] = as_observedGeneration st \<and>
     un_NestedSlice U u' [''status'', ''conditions''] = [VMap [(''type'', VString ''Ready''),
        (''status'', VString (as_condStatus st)), (''lastTransitionTime'', VString (as_lastTransitionTime st))]] \<and>
     un_GetGeneration U u' = un_GetGeneration U u \<and>
     un_NestedString U u' [''spec'', ''endpointRef'', ''serviceName''] = un_NestedString U u [''spec'', ''endpointRef'', ''serviceName'']"

text \<open>The readiness reconciler settles and keeps the transition time.  Once the status it wrote is
  read back, reconciling again over the same endpoints writes nothing; and when later endpoints
  change the count but not the readiness, the status written then keeps the time of the last
  transition.\<close>

theorem readiness_settles:
  assumes "readiness_Reconcile U ns name (Inr u) slices None now = (e, Some st)"
    and "carries_status U u u' st" "as_lastTransitionTime st \<noteq> ''''"
  shows "e = None \<and> readiness_Reconcile U ns name (Inr u') slices upd now' = (None, None) \<and>
    (\<forall>slices' e' st'. readiness_Reconcile U ns name (Inr u') slices' upd now' = (e', Some st') \<and> as_ready st' = as_ready st \<longrightarrow>
       as_lastTransitionTime st' = as_lastTransitionTime st)"
proof -
  let ?svc = "un_NestedString U u [''spec'', ''endpointRef'', ''serviceName'']"
  obtain n where n: "countServingEndpoints ns ?svc (slices ?svc) = Inr n" "e = None" "st = new_status U u ?svc (0 < n) n now"
    using assms(1) by (auto simp: readiness_Reconcile_def Let_def split: sum.splits if_splits)
  have u': "un_NestedString U u' [''spec'', ''endpointRef'', ''serviceName''] = ?svc" using assms(2) by (simp add: carries_status_def)
  have settled: "readiness_Reconcile U ns name (Inr u') slices upd now' = (None, None)"
    using assms(2) n by (simp add: readiness_Reconcile_def carries_status_def u' Let_def new_status_def)
  have "as_lastTransitionTime st' = as_lastTransitionTime st"
    if r: "readiness_Reconcile U ns name (Inr u') slices' upd now' = (e', Some st')" and same: "as_ready st' = as_ready st" for slices' e' st'
  proof -
    obtain m where "st' = new_status U u' ?svc (0 < m) m now'"
      using r by (auto simp: readiness_Reconcile_def u' Let_def split: sum.splits if_splits)
    moreover from this have "as_condStatus st' = as_condStatus st"
      using same n(3) by (simp add: new_status_def Let_def)
    ultimately show ?thesis using assms(2,3) n(3)
      by (simp add: new_status_def Let_def carries_status_def transition_time_def asString_def gm_get_def)
  qed
  with settled n(2) show ?thesis by blast
qed

end
