(* ===== verification/Sched_Example.thy ===== *)
theory Sched_Example
  imports Sched_Api
begin

text \<open>
  The properties of the scheduler at work on two agents of the same cost.
\<close>

definition ex_cap :: "rat \<Rightarrow> Capability" where
  "ex_cap price = \<lparr>cap_ID = ''summarize'', cap_Description = '''', cap_InputSchema = '''', cap_OutputSchema = '''',
     cap_Selectors = \<lparr>sel_Language = [''en''], sel_Tags = [''text'']\<rparr>,
     cap_Cost = \<lparr>cost_TokenPrice = FFin price, cost_LatencyClass = ''''\<rparr>,
     cap_Resources = \<lparr>res_GPU = 0\<rparr>, cap_Models = [], cap_Protocols = []\<rparr>"

definition ex_cand :: "string \<Rightarrow> bool \<Rightarrow> rat \<Rightarrow> Candidate" where
  "ex_cand key ready price = \<lparr>ca_Key = key, ca_Name = key, ca_Endpoint = '''', ca_Ready = ready, ca_Replicas = 1,
     ca_ExpertScope = '''', ca_Capabilities = [ex_cap price]\<rparr>"

definition ex_a :: Candidate where "ex_a = ex_cand ''ns/a'' True 0"
definition ex_b :: Candidate where "ex_b = ex_cand ''ns/b'' True 0"

definition ex_index :: Index where "ex_index = foldl Upsert NewIndex [ex_b, ex_a]"

definition ex_sreq :: "bool \<Rightarrow> bool \<Rightarrow> Request" where
  "ex_sreq gpu rotation = \<lparr>rq_Capability = ''summarize'',
     rq_Constraints = \<lparr>k_RequiredTags = [''TEXT''], k_RequiredLanguage = '''', k_RequiredModel = '''', k_RequireGPU = gpu,
       k_RequiredProtocols = []\<rparr>,
     rq_RoundRobin = rotation, rq_ExpertTarget = ''''\<rparr>"

lemma ex_fields [simp]:
  "ca_Key ex_a = ''ns/a''" "ca_Key ex_b = ''ns/b''" "ca_Capabilities ex_a = [ex_cap 0]" "ca_Capabilities ex_b = [ex_cap 0]"
  "cap_ID (ex_cap p) = ''summarize''" "ca_Ready ex_a" "ca_Ready ex_b"
  by (simp_all add: ex_a_def ex_b_def ex_cand_def ex_cap_def)

lemma ex_index_agents: "ix_agents ex_index = [(''ns/b'', ex_b), (''ns/a'', ex_a)]"
  by (simp add: ex_index_def NewIndex_def Upsert_def removeLinks_def Let_def gm_put_def)

lemma ex_index_ok: "index_ok ex_index"
  unfolding ex_index_def by (rule ix.replay_ok [OF ix.empty_ok])

lemma ex_index_candidates: "Candidates ex_index ''summarize'' = [ex_a, ex_b]"
proof (rule agents_sorted_unique [OF Candidates_sorted [OF ex_index_ok]])
  have "CapabilityByID ex_a ''summarize'' = Some (ex_cap 0)" "CapabilityByID ex_b ''summarize'' = Some (ex_cap 0)"
    by (simp_all add: CapabilityByID_def)
  then have d: "declares ex_a ''summarize''" "declares ex_b ''summarize''" by (simp_all add: declares_def)
  have abs: "index_abs ex_index k = (if k = ''ns/b'' then Some ex_b else if k = ''ns/a'' then Some ex_a else None)" for k
    by (simp add: index_abs_def ex_index_agents)
  have "sorted [''ns/a'', ''ns/b'']" "''ns/a'' \<noteq> ''ns/b''" by code_simp+
  moreover have "c \<in> {ex_a, ex_b} \<longleftrightarrow> index_abs ex_index (ca_Key c) = Some c \<and> declares c ''summarize''" for c
    unfolding abs using d by (cases "c = ex_a"; cases "c = ex_b") auto
  ultimately show "agents_sorted (index_abs ex_index) (\<lambda>c. declares c ''summarize'') [ex_a, ex_b]"
    unfolding agents_sorted_def by auto
qed

lemma ex_weights: "round64 (2 / 5) = FFin (3602879701896397 / 9007199254740992)" "round64 (1 / 5) = FFin (3602879701896397 / 18014398509481984)"
proof -
  have q: "quotient_of (2 / 5) = (2, 5)" "quotient_of (1 / 5) = (1, 5)"
    using quotient_of_Fract [of 2 5] quotient_of_Fract [of 1 5] by (simp_all add: Rat.normalize_def Fract_of_int_quotient)
  have "exponent (2 / 5) = -2" "exponent (1 / 5) = -3" by (simp_all add: exponent_def q bit_count.simps pow2_def)
  moreover have "\<lfloor>36028797018963968 / 5 :: rat\<rfloor> = 7205759403792793" by (rule floor_unique) simp_all
  ultimately show "round64 (2 / 5) = FFin (3602879701896397 / 9007199254740992)" "round64 (1 / 5) = FFin (3602879701896397 / 18014398509481984)"
    by (simp_all add: round64_def Let_def pow2_def round_even_def)
qed

lemma ex_scores: "cand_score ''summarize'' [] ex_a = FFin 0" "cand_score ''summarize'' [] ex_b = FFin 0"
  by (simp_all add: cand_score_def capability_of_def CapabilityByID_def score_def costScore_def gm_get_def zero_metrics_def
      weightLoad_def weightLatency_def weightCost_def ex_weights) (simp_all add: ex_cap_def ex_weights)

lemma ex_failed:
  "failedConstraint (ex_cap p) (rq_Constraints (ex_sreq False rotation)) = ''''"
  "failedConstraint (ex_cap p) (rq_Constraints (ex_sreq True rotation)) = ''gpu''"
proof -
  have "EqualFold ''text'' ''TEXT''" by code_simp
  then show "failedConstraint (ex_cap p) (rq_Constraints (ex_sreq False rotation)) = ''''"
    "failedConstraint (ex_cap p) (rq_Constraints (ex_sreq True rotation)) = ''gpu''"
    by (simp_all add: failedConstraint_def ex_cap_def ex_sreq_def)
qed

lemma ex_qualifies:
  "qualifies (ex_sreq False rotation) ex_a" "qualifies (ex_sreq False rotation) ex_b"
  "\<not> meets ex_a ''summarize'' (rq_Constraints (ex_sreq True rotation))" "\<not> meets ex_b ''summarize'' (rq_Constraints (ex_sreq True rotation))"
  using ex_failed by (simp_all add: qualifies_def meets_def CapabilityByID_def) (simp_all add: ex_sreq_def)

lemma ex_sreq_cap [simp]: "rq_Capability (ex_sreq gpu rotation) = ''summarize''" "rq_RoundRobin (ex_sreq gpu rotation) = rotation"
  by (simp_all add: ex_sreq_def)

lemma ex_eligible: "\<exists>r. eligible ex_index (ex_sreq False rotation) = Inr ([ex_a, ex_b], r)"
  by (simp add: eligible_Inr ex_index_candidates ex_qualifies)

lemma ex_abs: "index_abs ex_index ''ns/a'' = Some ex_a" "index_abs ex_index ''ns/b'' = Some ex_b"
  by (simp_all add: index_abs_def ex_index_agents)

theorem resync_recovers_witness:
  "Candidates (foldl Upsert NewIndex [ex_a, ex_b]) ''summarize'' = [ex_a, ex_b]"
proof -
  have "set [ex_a, ex_b] = {c. index_abs ex_index (ca_Key c) = Some c}"
    using index_values [OF ex_index_ok] by (auto simp: ex_index_agents)
  from resync_recovers [OF ex_index_ok _ this, of "''summarize''"] show ?thesis by (simp add: ex_index_candidates)
qed

theorem Select_sound_complete_witness:
  "index_ok ex_index \<and> length (ix_agents ex_index) < 2 ^ 64 \<and>
   (\<exists>res. fst (Select 0 (\<lambda>keys. None) ex_index (ex_sreq False False)) = Inr res)"
proof -
  have len: "length (ix_agents ex_index) < 2 ^ 64" by (simp add: ex_index_agents)
  have "index_abs ex_index (ca_Key ex_a) = Some ex_a \<and> qualifies (ex_sreq False False) ex_a"
    by (simp add: ex_abs ex_qualifies)
  with Select_sound_complete [OF ex_index_ok len, of 0 "\<lambda>keys. None" "ex_sreq False False"] ex_index_ok len
  show ?thesis by blast
qed

theorem Select_errors_witness:
  "\<exists>e. fst (Select 0 (\<lambda>keys. None) ex_index (ex_sreq True False)) = Inl e \<and>
     errors_cause e = Some (FilteredError ''summarize'' ''gpu'')"
proof -
  have "\<nexists>x. eligible ex_index (ex_sreq True False) = Inr x"
    using ex_qualifies by (auto simp: eligible_Inr ex_index_candidates qualifies_def)
  then obtain e where e: "fst (Select 0 (\<lambda>keys. None) ex_index (ex_sreq True False)) = Inl e"
    by (cases "eligible ex_index (ex_sreq True False)") (auto simp: Select_Inl)
  have "capability_of ex_b ''summarize'' = ex_cap 0" by (simp add: capability_of_def CapabilityByID_def)
  with Select_errors [OF ex_index_ok e refl] e show ?thesis
    by (simp add: ex_index_candidates ex_qualifies ex_failed)
qed


theorem rotation_fair_witness: "mset (picks (length [ex_a, ex_b]) 0 ex_index (ex_sreq False True)) = mset [ex_a, ex_b]"
proof -
  have "[ex_a, ex_b] = filter (qualifies (ex_sreq False True)) (Candidates ex_index (rq_Capability (ex_sreq False True)))"
    by (simp add: ex_index_candidates ex_qualifies)
  then show ?thesis by (rule rotation_fair) simp_all
qed

definition ex_call :: SelectAgentRequest where
  "ex_call = \<lparr>sa_CapabilityName = ''translate'', sa_Constraints = None, sa_Policy = SELECTION_POLICY_UNSPECIFIED, sa_ExpertTarget = ''''\<rparr>"

theorem SelectAgent_contract_witness:
  "\<exists>err. fst (SelectAgent 0 (\<lambda>keys. None) ex_index ex_call) = Inl (NotFound, err)"
proof -
  have code: "select_code ex_index ex_call = Some NotFound"
    by (simp add: select_code_def ex_call_def ex_index_agents declares_iff)
  show ?thesis
    using SelectAgent_contract [OF ex_index_ok, where rr = 0 and snapshot = "\<lambda>keys. None" and req = ex_call] code
    by (cases "fst (SelectAgent 0 (\<lambda>keys. None) ex_index ex_call)") (auto simp: ex_index_agents)
qed

text \<open>Objects reduced to what the readiness reconciler reads of them.\<close>

record ex_object =
  eo_ready :: bool
  eo_replicas :: int
  eo_observed :: int
  eo_conditions :: "go_value list"

definition ex_unstructured :: "ex_object unstructured" where
  "ex_unstructured = \<lparr>un_NestedBool = (\<lambda>u p. eo_ready u),
     un_NestedInt64 = (\<lambda>u p. if p = [''status'', ''replicas''] then eo_replicas u
        else if p = [''status'', ''observedGeneration''] then eo_observed u else 0),
     un_NestedString = (\<lambda>u p. ''svc''), un_NestedSlice = (\<lambda>u p. eo_conditions u), un_GetNamespace = (\<lambda>u. ''ns''),
     un_GetName = (\<lambda>u. ''a''), un_GetLabels = (\<lambda>u. []), un_GetGeneration = (\<lambda>u. 1)\<rparr>"

definition ex_fresh :: ex_object where
  "ex_fresh = \<lparr>eo_ready = False, eo_replicas = 0, eo_observed = 0, eo_conditions = []\<rparr>"

definition ex_settled :: ex_object where
  "ex_settled = \<lparr>eo_ready = True, eo_replicas = 2, eo_observed = 1,
     eo_conditions = [VMap [(''type'', VString ''Ready''), (''status'', VString ''True''), (''lastTransitionTime'', VString ''t0'')]]\<rparr>"

definition ex_slices :: "string \<Rightarrow> string + endpoint_slice list" where
  "ex_slices svc = Inr [[Some True, None], [Some True, Some False]]"

theorem readiness_settles_witness:
  "readiness_Reconcile ex_unstructured ''ns'' ''a'' (Inr ex_settled) ex_slices None ''t1'' = (None, None)"
proof -
  define st where "st = new_status ex_unstructured ex_fresh ''svc'' True 2 ''t0''"
  have r: "readiness_Reconcile ex_unstructured ''ns'' ''a'' (Inr ex_fresh) ex_slices None ''t0'' = (None, Some st)"
    by (simp add: readiness_Reconcile_def ex_unstructured_def ex_fresh_def ex_slices_def countServingEndpoints_def Let_def st_def numeral_2_eq_2)
  have st: "carries_status ex_unstructured ex_fresh ex_settled st" "as_lastTransitionTime st \<noteq> ''''"
    by (simp_all add: carries_status_def st_def new_status_def transition_time_def ex_unstructured_def ex_settled_def ex_fresh_def)
  from readiness_settles [OF r st] show ?thesis by blast
qed

end
