(* ===== verification/Broker_Api.thy ===== *)
theory Broker_Api
  imports Broker_Interleaving Events_Client Sched_Api
begin

text \<open>
  The adapters of the task broker (\<^verbatim>\<open>services/task-broker/internal\<close>): the gRPC handlers
  (\<^verbatim>\<open>api/handler.go\<close>), the client of the scheduler (\<^verbatim>\<open>infrastructure/scheduler_client.go\<close>), the
  executor of capabilities over an agent's event stream (\<^verbatim>\<open>infrastructure/agent_executor.go\<close>)
  and the publisher of task events (\<^verbatim>\<open>infrastructure/event_publisher.go\<close>).
\<close>

section \<open>The gRPC handlers\<close>

record WorkflowTask =
  wt_TaskId :: string
  wt_WorkflowId :: string
  wt_CapabilityName :: string
  wt_InputPayload :: string
  wt_TimeoutSeconds :: int32
  wt_MaxRetries :: int32
  wt_RetryCount :: int32
  wt_Status :: int32
  wt_DispatchedTo :: string
  wt_ResultPayload :: string
  wt_Error :: "TaskError option"
  wt_CreatedAt :: "time option"
  wt_DispatchedAt :: "time option"
  wt_CompletedAt :: "time option"

definition tsOrNil :: "time \<Rightarrow> time option" where
  "tsOrNil t = (if t = 0 then None else Some t)"

definition taskToProto :: "Task \<Rightarrow> WorkflowTask" where
  "taskToProto t =
     \<lparr>wt_TaskId = t_TaskID t, wt_WorkflowId = t_WorkflowID t, wt_CapabilityName = t_CapabilityName t,
      wt_InputPayload = t_InputPayload t, wt_TimeoutSeconds = t_TimeoutSeconds t, wt_MaxRetries = t_MaxRetries t,
      wt_RetryCount = t_RetryCount t, wt_Status = t_Status t, wt_DispatchedTo = t_DispatchedTo t,
      wt_ResultPayload = t_ResultPayload t, wt_Error = t_Error t, wt_CreatedAt = tsOrNil (t_CreatedAt t),
      wt_DispatchedAt = tsOrNil (t_DispatchedAt t), wt_CompletedAt = tsOrNil (t_CompletedAt t)\<rparr>"

definition grpcErr :: "broker_error \<Rightarrow> grpc_code \<times> broker_error" where
  "grpcErr err =
     (if errors_Is err ErrTaskNotFound then (NotFound, err)
      else if errors_Is err ErrNoEligibleAgent then (NotFound, err)
      else if errors_Is err ErrTaskTerminal then (FailedPrecondition, err)
      else if errors_Is err ErrInvalidArgument then (InvalidArgument, err)
      else if errors_Is err ErrCanceled then (Canceled, err)
      else if errors_Is err ErrDeadlineExceeded then (DeadlineExceeded, err)
      else (Internal, err))"

definition handler_DispatchTask ::
  "'s broker_env \<Rightarrow> 's broker \<Rightarrow> WorkflowTask option \<Rightarrow> string \<Rightarrow> time \<Rightarrow>
   ((grpc_code \<times> broker_error) + string \<times> time) \<times> 's broker" where
  "handler_DispatchTask env st req rnd now =
     (let task = \<lparr>t_TaskID = '''',
            t_WorkflowID = (case req of None \<Rightarrow> '''' | Some wt \<Rightarrow> wt_WorkflowId wt),
            t_CapabilityName = (case req of None \<Rightarrow> '''' | Some wt \<Rightarrow> wt_CapabilityName wt),
            t_InputPayload = (case req of None \<Rightarrow> '''' | Some wt \<Rightarrow> wt_InputPayload wt),
            t_TimeoutSeconds = (case req of None \<Rightarrow> 0 | Some wt \<Rightarrow> wt_TimeoutSeconds wt),
            t_MaxRetries = (case req of None \<Rightarrow> 0 | Some wt \<Rightarrow> wt_MaxRetries wt),
            t_RetryCount = 0, t_Status = TaskStatusUnspecified, t_DispatchedTo = '''', t_ResultPayload = '''',
            t_Error = None, t_CreatedAt = 0, t_DispatchedAt = 0, t_CompletedAt = 0\<rparr>
      in case DispatchTask env st task rnd now of
          (Inl err, st1) \<Rightarrow> (Inl (grpcErr err), st1)
        | (Inr (taskID, createdAt), st1) \<Rightarrow> (Inr (taskID, createdAt), st1))"

definition handler_AcknowledgeTask ::
  "'s broker_env \<Rightarrow> 's broker \<Rightarrow> string \<Rightarrow> int32 \<Rightarrow> string \<Rightarrow> TaskError option \<Rightarrow> time \<Rightarrow>
   ((grpc_code \<times> broker_error) + int32) \<times> 's broker" where
  "handler_AcknowledgeTask env st taskID reqStatus resultPayload err now =
     (case AcknowledgeTask env st taskID reqStatus resultPayload err now of
        (Inl e, st1) \<Rightarrow> (Inl (grpcErr e), st1)
      | (Inr resulting, st1) \<Rightarrow> (Inr resulting, st1))"

definition handler_GetTask :: "'s broker_env \<Rightarrow> 's broker \<Rightarrow> string \<Rightarrow> (grpc_code \<times> broker_error) + WorkflowTask" where
  "handler_GetTask env st taskID =
     (case GetTask env st taskID of Inl e \<Rightarrow> Inl (grpcErr e) | Inr t \<Rightarrow> Inr (taskToProto t))"

definition handler_ListTasks ::
  "'s broker_env \<Rightarrow> 's broker \<Rightarrow> ListFilter \<Rightarrow> ((grpc_code \<times> broker_error) + WorkflowTask list \<times> string) option" where
  "handler_ListTasks env st f =
     (case ListTasks env st f of
        None \<Rightarrow> None
      | Some (Inl e) \<Rightarrow> Some (Inl (grpcErr e))
      | Some (Inr result) \<Rightarrow> Some (Inr (map taskToProto (lr_Tasks result), lr_NextPageToken result)))"

definition handler_CancelTask ::
  "'s broker_env \<Rightarrow> 's broker \<Rightarrow> string \<Rightarrow> time \<Rightarrow> ((grpc_code \<times> broker_error) + time) \<times> 's broker" where
  "handler_CancelTask env st taskID now =
     (case CancelTask env st taskID now of
        (Inl e, st1) \<Rightarrow> (Inl (grpcErr e), st1)
      | (Inr cancelledAt, st1) \<Rightarrow> (Inr cancelledAt, st1))"

section \<open>The client of the scheduler\<close>

fun schema_of :: "string \<Rightarrow> CapabilityDef list \<Rightarrow> string" where
  "schema_of name [] = ''''"
| "schema_of name (c # cs) = (if cd_Name c = name then cd_InputSchema c else schema_of name cs)"

text \<open>The answer of the scheduler: an error of the call, or the agent of the response, if any.\<close>

definition client_Select ::
  "string \<Rightarrow> (grpc_code \<times> string) + AgentDef option \<Rightarrow> broker_error + AgentInfo" where
  "client_Select capabilityName answer =
     (case answer of
        Inl (code, msg) \<Rightarrow>
          if code = NotFound \<or> code = FailedPrecondition then Inl (Wrapf ''%w: %s'' [FS msg] (Typed ErrNoEligibleAgent))
          else Inl (Errorf ''task-broker: select agent for %q: %w'' [FS capabilityName, FS msg])
      | Inr None \<Rightarrow> Inl (Errorf ''task-broker: scheduler returned no agent (contract violation)'' [])
      | Inr (Some a) \<Rightarrow>
          Inr \<lparr>ag_AgentID = ad_AgentId a, ag_Name = ad_Name a, ag_Endpoint = ad_Endpoint a,
               ag_InputSchema = schema_of capabilityName (ad_Capabilities a)\<rparr>)"

section \<open>The executor\<close>

datatype TaskEventType = EVENT_COMPLETED | EVENT_FAILED | EVENT_OTHER

datatype recv = RecvEOF | RecvErr string | RecvEvent TaskEventType string "TaskError option"

text \<open>The loop over what the stream delivers; \<open>None\<close> when it is still waiting.\<close>

fun exec_stream :: "string \<Rightarrow> recv list \<Rightarrow> exec_result option" where
  "exec_stream agentID [] = None"
| "exec_stream agentID (RecvEOF # rs) = Some ('''', None, None)"
| "exec_stream agentID (RecvErr err # rs) = Some ('''', None, Some err)"
| "exec_stream agentID (RecvEvent EVENT_COMPLETED payload err # rs) = Some (payload, None, None)"
| "exec_stream agentID (RecvEvent EVENT_FAILED payload err # rs) =
     Some ('''', Some (case err of None \<Rightarrow> \<lparr>te_Code = '''', te_Message = '''', te_Details = []\<rparr> | Some ce \<Rightarrow> ce), None)"
| "exec_stream agentID (RecvEvent EVENT_OTHER payload err # rs) = exec_stream agentID rs"

text \<open>An execution: the errors of the dial, of the random source and of the call, then the
  stream.\<close>

definition Execute ::
  "string option \<Rightarrow> string option \<Rightarrow> string option \<Rightarrow> recv list \<Rightarrow> AgentInfo \<Rightarrow> exec_result option" where
  "Execute dialErr randErr callErr rs agent =
     (case dialErr of Some e \<Rightarrow> Some ('''', None, Some e)
      | None \<Rightarrow> (case randErr of Some e \<Rightarrow> Some ('''', None, Some e)
      | None \<Rightarrow> (case callErr of Some e \<Rightarrow> Some ('''', None, Some e)
      | None \<Rightarrow> exec_stream (ag_AgentID agent) rs)))"

section \<open>Task events\<close>

definition taskTopicPrefix :: string where "taskTopicPrefix = ''zynax.v1.task-broker.task.''"

definition task_event_type :: "Task \<Rightarrow> string" where
  "task_event_type task = taskTopicPrefix @ ToLower (TaskStatus_String (t_Status task))"

definition task_event_fields :: "Task \<Rightarrow> (string \<times> string) list" where
  "task_event_fields task =
     [(''task_id'', t_TaskID task), (''workflow_id'', t_WorkflowID task), (''capability_name'', t_CapabilityName task),
      (''status'', TaskStatus_String (t_Status task)), (''dispatched_to'', t_DispatchedTo task)] @
     (if t_ResultPayload task \<noteq> '''' then [(''result_payload'', t_ResultPayload task)] else [])"

text \<open>A Go map of strings is marshalled in the order of its keys.\<close>

definition task_event_data :: "Task \<Rightarrow> string" where
  "task_event_data task = print_members (sort_key fst (task_event_fields task))"

definition PublishTaskEvent :: "string option \<Rightarrow> time \<Rightarrow> Task \<Rightarrow> CloudEvent option" where
  "PublishTaskEvent reqID now task =
     (case reqID of
        None \<Rightarrow> None
      | Some i \<Rightarrow>
          Some \<lparr>ce_ID = i, ce_Source = ''/zynax/task-broker/'' @ t_WorkflowID task, ce_SpecVersion = ''1.0'',
                ce_Type = task_event_type task, ce_DataContentType = ''application/json'', ce_Time = now,
                ce_Data = task_event_data task, ce_WorkflowID = t_WorkflowID task, ce_RunID = '''', ce_Namespace = '''',
                ce_CapabilityName = t_CapabilityName task\<rparr>)"

section \<open>Properties\<close>

definition task_event_types :: "string list" where
  "task_event_types = [''zynax.v1.task-broker.task.pending'', ''zynax.v1.task-broker.task.dispatched'',
     ''zynax.v1.task-broker.task.retrying'', ''zynax.v1.task-broker.task.completed'', ''zynax.v1.task-broker.task.failed'',
     ''zynax.v1.task-broker.task.cancelled'', ''zynax.v1.task-broker.task.unspecified'']"

lemma task_event_type_cases: "task_event_type t \<in> set task_event_types"
proof -
  have "map ToLower [''PENDING'', ''DISPATCHED'', ''RETRYING'', ''COMPLETED'', ''FAILED'', ''CANCELLED'', ''UNSPECIFIED''] =
      [''pending'', ''dispatched'', ''retrying'', ''completed'', ''failed'', ''cancelled'', ''unspecified'']" by code_simp
  then show ?thesis by (simp add: task_event_type_def taskTopicPrefix_def TaskStatus_String_def task_event_types_def)
qed

text \<open>The events of tasks all live in one stream, and none of them is taken for the end of a
  workflow, so that a follower of a workflow is not cut off by a task that ends.\<close>

theorem task_events_one_stream:
  assumes "PublishTaskEvent i now t = Some e"
  shows "StreamName (ce_Type e) = ''ZYNAX_V1_TASK_BROKER_TASK'' \<and> MatchesGlob ''zynax.v1.task-broker.task.*'' (ce_Type e) \<and>
    \<not> IsTerminalEventType (ce_Type e) \<and> \<not> HasPrefix (ce_Type e) reservedDLQPrefix"
proof -
  have ty: "ce_Type e = task_event_type t" using assms by (auto simp: PublishTaskEvent_def split: option.splits)
  have "list_all (\<lambda>s. StreamName s = ''ZYNAX_V1_TASK_BROKER_TASK'') task_event_types"
    "list_all (\<lambda>s. MatchesGlob ''zynax.v1.task-broker.task.*'' s) task_event_types"
    "list_all (\<lambda>s. \<not> IsTerminalEventType s \<and> \<not> HasPrefix s reservedDLQPrefix) task_event_types"
    by code_simp+
  with task_event_type_cases [of t] show ?thesis unfolding ty list_all_iff by blast
qed

text \<open>The outcome of an execution is decided by the first reception that ends it: a completed
  event gives its payload, a failed event its error, a broken stream an infrastructure error;
  and a stream that the agent closes before any of these counts as a success with an empty
  result.\<close>

theorem exec_stream_outcome:
  assumes "list_all (\<lambda>r. \<exists>p e. r = RecvEvent EVENT_OTHER p e) progress"
  shows "exec_stream a progress = None \<and>
    exec_stream a (progress @ RecvEvent EVENT_COMPLETED p e # rs) = Some (p, None, None) \<and>
    exec_stream a (progress @ RecvEvent EVENT_FAILED p (Some te) # rs) = Some ('''', Some te, None) \<and>
    exec_stream a (progress @ RecvErr err # rs) = Some ('''', None, Some err) \<and>
    exec_stream a (progress @ RecvEOF # rs) = Some ('''', None, None)"
  using assms by (induction progress) auto

end
