(* ===== verification/System_Dispatch.thy ===== *)
theory System_Dispatch
  imports Engine_Interpreter Broker_Api
begin

text \<open>
  The path of a capability through the services: the dispatcher of the engine adapter
  (\<^verbatim>\<open>services/engine-adapter/internal/domain/activity.go\<close>) over the handlers of the task broker,
  and the broker over the scheduler.
\<close>

section \<open>The dispatcher over the broker\<close>

text \<open>The request of \<^verbatim>\<open>dispatch\<close>; the fields it does not set are zero.\<close>

definition dispatch_request :: "ActivityInput \<Rightarrow> WorkflowTask" where
  "dispatch_request inp =
     \<lparr>wt_TaskId = '''', wt_WorkflowId = in_WorkflowID inp, wt_CapabilityName = in_CapabilityName inp,
      wt_InputPayload = in_InputPayload inp, wt_TimeoutSeconds = word_of_int (in_TimeoutSeconds inp), wt_MaxRetries = 0,
      wt_RetryCount = 0, wt_Status = 0, wt_DispatchedTo = '''', wt_ResultPayload = '''', wt_Error = None,
      wt_CreatedAt = None, wt_DispatchedAt = None, wt_CompletedAt = None\<rparr>"

text \<open>A task of the broker as the dispatcher reads it.\<close>

definition status_of :: "int32 \<Rightarrow> TaskStatusPb" where
  "status_of s =
     (if s = 1 then TASK_STATUS_PENDING else if s = 2 then TASK_STATUS_DISPATCHED else if s = 3 then TASK_STATUS_RETRYING
      else if s = 4 then TASK_STATUS_COMPLETED else if s = 5 then TASK_STATUS_FAILED else if s = 6 then TASK_STATUS_CANCELLED
      else TASK_STATUS_UNSPECIFIED)"

definition polled_of :: "WorkflowTask \<Rightarrow> polled_task" where
  "polled_of wt = \<lparr>pt_Status = status_of (wt_Status wt), pt_ResultPayload = wt_ResultPayload wt,
     pt_Error = map_option te_Message (wt_Error wt)\<rparr>"

definition DispatchCapabilityActivity ::
  "ActivityInput \<Rightarrow> string + string \<Rightarrow> poll_answer list \<Rightarrow> (eng_error + ActivityResult) option" where
  "DispatchCapabilityActivity inp answer answers =
     (case answer of
        Inl err \<Rightarrow> Some (Inl (Errorf ''engine-adapter: dispatch capability %q: %w'' [FS (in_CapabilityName inp), FS err]))
      | Inr taskID \<Rightarrow> poll taskID (in_CapabilityName inp) answers)"

section \<open>A dispatch that succeeds\<close>

lemma newTaskID_not_Nil [simp]: "newTaskID rnd \<noteq> ''''"
  by (simp add: newTaskID_def)

lemma DispatchTask_stored:
  assumes "DispatchTask (memory_env sel pub) st task rnd now = (Inr (tid, created), st1)"
  shows "tid = newTaskID rnd \<and> (\<exists>agent bound. b_launched st1 = b_launched st @ [(tid, agent)] \<and>
     b_repo st1 = (b_repo st)\<lparr>mr_tasks := gm_put tid (task\<lparr>t_InputPayload := bound, t_TaskID := tid,
        t_Status := TaskStatusPending, t_CreatedAt := now\<rparr>) (mr_tasks (b_repo st))\<rparr>)"
  using assms
  by (auto simp: DispatchTask_def select_agent_def memory_env_def memory_repo_def mr_Save_def Let_def launch_def
      split: if_splits sum.splits prod.splits option.splits)

lemma poll_waits:
  "list_all (\<lambda>a. \<exists>t. a = PollTask t \<and> handleStatus t cap = None) waiting \<Longrightarrow>
     poll tid cap (waiting @ answers) = poll tid cap answers"
  by (induction waiting) auto

text \<open>The result the engine gets for an outcome of the execution.\<close>

fun activity_outcome :: "string \<Rightarrow> exec_result \<Rightarrow> eng_error + ActivityResult" where
  "activity_outcome cap (payload, None, None) = extractResult payload cap"
| "activity_outcome cap (payload, Some te, None) =
     Inl (Errorf ''engine-adapter: capability %q failed: %s'' [FS cap, FS (te_Message te)])"
| "activity_outcome cap (payload, te, Some e) = Inl (Errorf ''engine-adapter: capability %q failed: %s'' [FS cap, FS e])"

lemma handleStatus_outcome:
  assumes "t_MaxRetries t = 0" "t_RetryCount t = 0"
  shows "handleStatus (polled_of (taskToProto (exec_outcome (exec_mark t agent now) res now'))) cap = Some (activity_outcome cap res)"
proof -
  have no_retry: "\<not> (1 :: int32) \<le>s 0" by (simp add: word_sle_eq)
  show ?thesis
    by (cases "(cap, res)" rule: activity_outcome.cases)
      (simp_all add: handleStatus_def polled_of_def taskToProto_def exec_outcome_def exec_mark_def applyAcknowledgement_def
        Let_def assms no_retry status_of_def status_defs)
qed

text \<open>C12 From dispatch to result.  A capability the engine has dispatched successfully is launched on
  an agent; once its goroutine has run and nothing else has touched the task, the next poll of
  the engine ends, with the agent's payload when the execution succeeded and with its error when
  it failed: the engine asks for no retries, so its tasks never stay in the retrying state.\<close>

theorem dispatch_execute_poll:
  assumes "mr_ok (b_repo st)"
    and ok: "handler_DispatchTask (memory_env sel pub) st (Some (dispatch_request inp)) rnd now = (Inr (tid, created), st1)"
    and waiting: "list_all (\<lambda>a. \<exists>t. a = PollTask t \<and> handleStatus t (in_CapabilityName inp) = None) waiting"
  shows "\<exists>agent. b_launched st1 = b_launched st @ [(tid, agent)] \<and>
    (\<forall>res now1 now2. \<exists>wt.
       handler_GetTask (memory_env sel pub) (executeAsync (memory_env sel pub) (\<lambda>s a u. (res, s)) st1 tid agent now1 now2) tid = Inr wt \<and>
       DispatchCapabilityActivity inp (Inr tid) (waiting @ [PollTask (polled_of wt)]) =
         Some (activity_outcome (in_CapabilityName inp) res))"
proof -
  obtain task where task: "DispatchTask (memory_env sel pub) st task rnd now = (Inr (tid, created), st1)"
    "t_MaxRetries task = 0" "t_RetryCount task = 0"
    using ok by (auto simp: handler_DispatchTask_def dispatch_request_def Let_def split: sum.splits prod.splits)
  from DispatchTask_stored [OF task(1)] obtain agent bound where tid: "tid \<noteq> ''''"
    and launched: "b_launched st1 = b_launched st @ [(tid, agent)]"
    and repo: "b_repo st1 = (b_repo st)\<lparr>mr_tasks := gm_put tid (task\<lparr>t_InputPayload := bound, t_TaskID := tid,
        t_Status := TaskStatusPending, t_CreatedAt := now\<rparr>) (mr_tasks (b_repo st))\<rparr>" by auto
  define t where "t = task\<lparr>t_InputPayload := bound, t_TaskID := tid, t_Status := TaskStatusPending, t_CreatedAt := now\<rparr>"
  have st1: "mr_ok (b_repo st1)" "mr_abs (b_repo st1) tid = Some t"
    using mr_ok_put [OF assms(1), of t] repo by (simp_all add: t_def)
  have t: "\<not> IsTerminal (t_Status t)" "t_MaxRetries t = 0" "t_RetryCount t = 0"
    using task by (simp_all add: t_def IsTerminal_def status_defs)
  have "\<exists>wt. handler_GetTask (memory_env sel pub) (executeAsync (memory_env sel pub) (\<lambda>s a u. (res, s)) st1 tid agent now1 now2) tid = Inr wt \<and>
       DispatchCapabilityActivity inp (Inr tid) (waiting @ [PollTask (polled_of wt)]) =
         Some (activity_outcome (in_CapabilityName inp) res)" for res now1 now2
  proof -
    let ?o = "exec_outcome (exec_mark t agent now1) res now2"
    let ?st2 = "executeAsync (memory_env sel pub) (\<lambda>s a u. (res, s)) st1 tid agent now1 now2"
    have "mr_abs (b_repo ?st2) tid = Some ?o" by (rule execute_once(3) [OF st1 t(1) refl refl])
    then have "handler_GetTask (memory_env sel pub) ?st2 tid = Inr (taskToProto ?o)"
      using tid by (simp add: handler_GetTask_def GetTask_def memory_get)
    then show ?thesis
      using handleStatus_outcome [OF t(2,3)] poll_waits [OF waiting] by (simp add: DispatchCapabilityActivity_def)
  qed
  with launched show ?thesis by blast
qed

section \<open>The broker over the scheduler\<close>

text \<open>The selector the broker gets from the scheduler: \<open>rr\<close> and \<open>snapshot\<close> give the rotation counter
  and the metrics at a call, \<open>msg\<close> the text of an error.\<close>

definition scheduler_select ::
  "Index \<Rightarrow> ((string \<times> string) list \<Rightarrow> 64 word) \<Rightarrow> ((string \<times> string) list \<Rightarrow> string list \<Rightarrow> (string, Metrics) gomap option) \<Rightarrow>
   (sched_error \<Rightarrow> string) \<Rightarrow> (string \<times> string) list \<Rightarrow> string \<Rightarrow> string \<Rightarrow> broker_error + AgentInfo" where
  "scheduler_select idx rr snapshot msg h cap expert =
     client_Select cap
       (case fst (SelectAgent (rr h) (snapshot h) idx \<lparr>sa_CapabilityName = cap, sa_Constraints = None,
                  sa_Policy = SELECTION_POLICY_UNSPECIFIED, sa_ExpertTarget = expert\<rparr>) of
          Inl (code, err) \<Rightarrow> Inl (code, msg err)
        | Inr resp \<Rightarrow> Inr (Some (sp_Agent resp)))"

text \<open>An agent of the index that can serve a capability, for an expert if one is named.\<close>

definition serves :: "Index \<Rightarrow> string \<Rightarrow> string \<Rightarrow> Candidate \<Rightarrow> bool" where
  "serves idx cap expert c \<longleftrightarrow> index_abs idx (ca_Key c) = Some c \<and> declares c cap \<and> ca_Ready c \<and>
     (expert = '''' \<or> ca_ExpertScope c = expert)"

lemma no_constraints: "meets c cap (protoConstraints None) \<longleftrightarrow> declares c cap"
  by (auto simp: meets_def declares_def failedConstraint_def)

lemma schema_of_capabilities:
  "schema_of cap (map (\<lambda>c. \<lparr>cd_Name = cap_ID c, cd_Description = cap_Description c,
     cd_InputSchema = cap_InputSchema c, cd_OutputSchema = cap_OutputSchema c\<rparr>) caps) =
   (case find_capability caps cap of None \<Rightarrow> '''' | Some c \<Rightarrow> cap_InputSchema c)"
  by (induction caps) auto

text \<open>The agent of a candidate, with the input schema of the capability it was selected for.\<close>

definition agent_of :: "string \<Rightarrow> Candidate \<Rightarrow> AgentInfo" where
  "agent_of cap c = \<lparr>ag_AgentID = ca_Key c, ag_Name = ca_Name c, ag_Endpoint = ca_Endpoint c,
     ag_InputSchema = cap_InputSchema (capability_of c cap)\<rparr>"

lemma scheduler_select_result:
  assumes "index_ok idx" "length (ix_agents idx) < 2 ^ 64" "cap \<noteq> ''''"
  shows "case scheduler_select idx rr snapshot msg h cap expert of
      Inl e \<Rightarrow> errors_cause e = Some ErrNoEligibleAgent \<and> (\<nexists>c. serves idx cap expert c)
    | Inr a \<Rightarrow> \<exists>c. serves idx cap expert c \<and> a = agent_of cap c"
proof -
  define req where "req = \<lparr>sa_CapabilityName = cap, sa_Constraints = None, sa_Policy = SELECTION_POLICY_UNSPECIFIED, sa_ExpertTarget = expert\<rparr>"
  have serves: "index_abs idx (ca_Key c) = Some c \<and> qualifies (proto_request req) c \<longleftrightarrow> serves idx cap expert c" for c
    by (auto simp: serves_def qualifies_def proto_request_def req_def no_constraints simp del: protoConstraints.simps)
  note result = SelectAgent_result [OF assms(1,2), where rr = "rr h" and snapshot = "snapshot h" and req = req]
  show ?thesis
  proof (cases "fst (SelectAgent (rr h) (snapshot h) idx req)")
    case (Inl ce)
    obtain code err where ce: "ce = (code, err)" by fastforce
    with result Inl have "select_code idx req = Some code" by simp
    then have "(code = NotFound \<or> code = FailedPrecondition) \<and> \<not> list_ex (qualifies (proto_request req)) (map snd (ix_agents idx))"
      using assms(3) qualifies_declares [of "proto_request req"]
      by (auto simp: select_code_def req_def list_ex_iff proto_request_def split: if_splits)
    moreover have "c \<in> snd ` set (ix_agents idx)" if "serves idx cap expert c" for c
      using that index_values [OF assms(1)] by (simp add: serves_def)
    ultimately show ?thesis using Inl ce serves
      by (auto simp: scheduler_select_def client_Select_def req_def [symmetric] list_ex_iff)
  next
    case (Inr resp)
    with result obtain c where c: "serves idx cap expert c" "sp_Agent resp = candidateToProto c"
      unfolding serves [symmetric] by auto
    then have "client_Select cap (Inr (Some (sp_Agent resp))) = Inr (agent_of cap c)"
      by (auto simp: client_Select_def candidateToProto_def schema_of_capabilities agent_of_def capability_of_def
          CapabilityByID_def zero_capability_def split: option.split)
    with c Inr show ?thesis by (auto simp: scheduler_select_def req_def [symmetric])
  qed
qed

definition expert_of :: "Task \<Rightarrow> string" where
  "expert_of task = (case expertTarget (t_InputPayload task) of None \<Rightarrow> '''' | Some e \<Rightarrow> e)"

lemma expert_of_None: "expert_of task = '''' \<longleftrightarrow> expertTarget (t_InputPayload task) = None"
  by (auto simp: expert_of_def expertTarget_def split: option.splits json.splits if_splits)

lemma DispatchTask_eval:
  assumes "t_WorkflowID task \<noteq> ''''" "t_CapabilityName task \<noteq> ''''" "json_Valid (t_InputPayload task)"
  shows "case sel (b_selects st) (t_CapabilityName task) (expert_of task) of
      Inl err \<Rightarrow> \<exists>e. fst (DispatchTask (memory_env sel pub) st task rnd now) = Inl e \<and> errors_cause e = errors_cause err
    | Inr agent \<Rightarrow>
        (case prepareExpertDispatch (t_InputPayload task) [agent] of
           Inl err \<Rightarrow> fst (DispatchTask (memory_env sel pub) st task rnd now) = Inl err
         | Inr (as, bound) \<Rightarrow> fst (DispatchTask (memory_env sel pub) st task rnd now) = Inr (newTaskID rnd, now) \<and>
             b_launched (snd (DispatchTask (memory_env sel pub) st task rnd now)) = b_launched st @ [(newTaskID rnd, agent)])"
  using assms
  by (auto simp: DispatchTask_def select_agent_def expert_of_def [symmetric] memory_env_def memory_repo_def mr_Save_def Let_def
      launch_def split: sum.split prod.split)

text \<open>C13 Dispatch over the scheduler.  A task that names no expert is dispatched exactly when some
  indexed agent declares the capability and is ready, to such an agent.  A task that names an
  expert only goes to a ready agent of that expert scope whose name or key is also the name of
  the expert: when the agents of the scope are called otherwise the scheduler finds one, and the
  broker then refuses it as not eligible.\<close>

theorem dispatch_over_scheduler:
  assumes "index_ok idx" "length (ix_agents idx) < 2 ^ 64"
    and valid: "t_WorkflowID task \<noteq> ''''" "t_CapabilityName task \<noteq> ''''" "json_Valid (t_InputPayload task)"
    and env: "env = memory_env (scheduler_select idx rr snapshot msg) pub"
    and cap: "cap = t_CapabilityName task" and expert: "expert = expert_of task"
  shows "(case fst (DispatchTask env st task rnd now) of
       Inr (tid, _) \<Rightarrow> \<exists>c. serves idx cap expert c \<and> (expert \<noteq> '''' \<longrightarrow> ca_Name c = expert \<or> ca_Key c = expert) \<and>
         b_launched (snd (DispatchTask env st task rnd now)) = b_launched st @ [(tid, agent_of cap c)]
     | Inl e \<Rightarrow> expert = '''' \<longrightarrow> errors_cause e = Some ErrNoEligibleAgent \<and> (\<nexists>c. serves idx cap expert c)) \<and>
    (expert \<noteq> '''' \<and> (\<forall>c. serves idx cap expert c \<longrightarrow> ca_Name c \<noteq> expert \<and> ca_Key c \<noteq> expert) \<longrightarrow>
       (\<exists>e. fst (DispatchTask env st task rnd now) = Inl e \<and> errors_cause e = Some ErrNoEligibleAgent))"
proof -
  let ?sel = "scheduler_select idx rr snapshot msg" and ?p = "t_InputPayload task"
  note dis = DispatchTask_eval [OF valid, where sel = ?sel and st = st and pub = pub and rnd = rnd and now = now, folded env cap expert]
  have nonempty: "cap \<noteq> ''''" using valid cap by simp
  note sel = scheduler_select_result [OF assms(1,2) nonempty, where rr = rr and snapshot = snapshot and msg = msg and h = "b_selects st" and expert = expert]
  show ?thesis
  proof (cases "?sel (b_selects st) cap expert")
    case (Inl err)
    with sel dis show ?thesis by auto
  next
    case (Inr agent)
    with sel obtain c where c: "serves idx cap expert c" "agent = agent_of cap c" by auto
    show ?thesis
    proof (cases "expert = ''''")
      case True
      then have "prepareExpertDispatch ?p [agent] = Inr ([agent], ?p)"
        using expert expert_of_None [of task] by (simp add: prepareExpertDispatch_def)
      with True Inr dis c show ?thesis by auto
    next
      case False
      then have t: "expertTarget ?p = Some expert" using expert by (auto simp: expert_of_def split: option.splits)
      have named: "selectExpert [agent] expert = (if ca_Name c = expert \<or> ca_Key c = expert then Some agent else None)"
        by (simp add: c(2) agent_of_def)
      show ?thesis
      proof (cases "ca_Name c = expert \<or> ca_Key c = expert")
        case True
        with Inr dis c False show ?thesis by (auto split: sum.splits)
      next
        case not_named: False
        then have "\<exists>e. prepareExpertDispatch ?p [agent] = Inl e \<and> errors_cause e = Some ErrNoEligibleAgent"
          using t named by (auto simp: prepareExpertDispatch_def)
        with Inr dis False show ?thesis by auto
      qed
    qed
  qed
qed

end
