(* ===== verification/System_Example.thy ===== *)
theory System_Example
  imports System_Dispatch Sched_Example Broker_Example Engine_Example
begin

text \<open>
  The properties that span the services at work: a capability dispatched through the broker
  to an agent of the scheduler's index.
\<close>

definition ex_input :: ActivityInput where
  "ex_input = \<lparr>in_CapabilityName = ''summarize'', in_InputPayload = ''{}'', in_WorkflowID = ''wf'', in_TimeoutSeconds = 30\<rparr>"

definition ex_selector :: "(string \<times> string) list \<Rightarrow> string \<Rightarrow> string \<Rightarrow> broker_error + AgentInfo" where
  "ex_selector = scheduler_select ex_index (\<lambda>h. 0) (\<lambda>h keys. None) (\<lambda>e. '''')"

lemma ex_serves: "serves ex_index ''summarize'' '''' ex_a"
  by (simp add: serves_def ex_abs declares_def CapabilityByID_def)

lemma ex_small: "length (ix_agents ex_index) < 2 ^ 64"
  by (simp add: ex_index_agents)

lemma ex_selected: "\<exists>c. ex_selector h ''summarize'' '''' = Inr (agent_of ''summarize'' c)"
proof -
  have "''summarize'' \<noteq> ''''" by simp
  from scheduler_select_result [OF ex_index_ok ex_small this, where rr = "\<lambda>h. 0" and snapshot = "\<lambda>h keys. None"
      and msg = "\<lambda>e. ''''" and h = h and expert = "''''"]
  show ?thesis using ex_serves by (auto simp: ex_selector_def split: sum.splits)
qed

lemma ex_braces: "json_Valid ''{}''" "expertTarget ''{}'' = None"
  by code_simp+

lemma ex_dispatched:
  "fst (handler_DispatchTask (memory_env ex_selector True) ex_broker (Some (dispatch_request ex_input)) ''r'' 9) = Inr (newTaskID ''r'', 9)"
proof -
  obtain c where "ex_selector (b_selects ex_broker) ''summarize'' '''' = Inr (agent_of ''summarize'' c)"
    using ex_selected by blast
  then show ?thesis
    by (simp add: handler_DispatchTask_def DispatchTask_def dispatch_request_def ex_input_def ex_braces select_agent_def
        memory_env_def memory_repo_def mr_Save_def prepareExpertDispatch_def launch_def)
qed

theorem dispatch_execute_poll_witness:
  "\<exists>st1 agent wt. handler_DispatchTask (memory_env ex_selector True) ex_broker (Some (dispatch_request ex_input)) ''r'' 9 =
       (Inr (newTaskID ''r'', 9), st1) \<and>
     handler_GetTask (memory_env ex_selector True)
       (executeAsync (memory_env ex_selector True) (\<lambda>s a u. ((''{}'', None, None), s)) st1 (newTaskID ''r'') agent 10 11)
       (newTaskID ''r'') = Inr wt \<and>
     DispatchCapabilityActivity ex_input (Inr (newTaskID ''r'')) [PollTask (polled_of wt)] =
       Some (extractResult ''{}'' ''summarize'')"
proof -
  obtain st1 where st1: "handler_DispatchTask (memory_env ex_selector True) ex_broker (Some (dispatch_request ex_input)) ''r'' 9 =
      (Inr (newTaskID ''r'', 9), st1)" using ex_dispatched by (metis prod.collapse)
  have ok: "mr_ok (b_repo ex_broker)" by (simp add: ex_repo_facts)
  have none: "list_all (\<lambda>a. \<exists>t. a = PollTask t \<and> handleStatus t (in_CapabilityName ex_input) = None) []" by simp
  obtain agent where "\<forall>res now1 now2. \<exists>wt.
      handler_GetTask (memory_env ex_selector True) (executeAsync (memory_env ex_selector True) (\<lambda>s a u. (res, s)) st1 (newTaskID ''r'') agent now1 now2)
        (newTaskID ''r'') = Inr wt \<and>
      DispatchCapabilityActivity ex_input (Inr (newTaskID ''r'')) ([] @ [PollTask (polled_of wt)]) =
        Some (activity_outcome (in_CapabilityName ex_input) res)"
    using dispatch_execute_poll [OF ok st1 none] by blast
  from spec [OF this, of "(''{}'', None, None)"] st1 show ?thesis by (simp add: ex_input_def) blast
qed

definition ex_wf_task :: Task where
  "ex_wf_task = ex_task\<lparr>t_TaskID := ''''\<rparr>"

theorem dispatch_over_scheduler_witness:
  "\<exists>tid c. fst (DispatchTask (memory_env ex_selector True) ex_broker ex_wf_task ''r'' 9) = Inr (tid, 9) \<and>
     serves ex_index ''summarize'' '''' c \<and>
     b_launched (snd (DispatchTask (memory_env ex_selector True) ex_broker ex_wf_task ''r'' 9)) = [(tid, agent_of ''summarize'' c)]"
proof -
  have valid: "t_WorkflowID ex_wf_task \<noteq> ''''" "t_CapabilityName ex_wf_task \<noteq> ''''" "json_Valid (t_InputPayload ex_wf_task)"
    by (simp_all add: ex_wf_task_def ex_task_def ex_braces)
  have facts: "''summarize'' = t_CapabilityName ex_wf_task" "'''' = expert_of ex_wf_task" "b_launched ex_broker = []"
    by (simp_all add: ex_wf_task_def ex_task_def expert_of_def ex_braces ex_broker_def)
  obtain c0 where "ex_selector (b_selects ex_broker) ''summarize'' '''' = Inr (agent_of ''summarize'' c0)"
    using ex_selected by blast
  then have "fst (DispatchTask (memory_env ex_selector True) ex_broker ex_wf_task ''r'' 9) = Inr (newTaskID ''r'', 9)"
    by (simp add: DispatchTask_def ex_wf_task_def ex_task_def ex_braces select_agent_def
        memory_env_def memory_repo_def mr_Save_def prepareExpertDispatch_def launch_def)
  with dispatch_over_scheduler [OF ex_index_ok ex_small valid refl facts(1,2), where rr = "\<lambda>h. 0"
    and snapshot = "\<lambda>h keys. None" and msg = "\<lambda>e. ''''" and pub = True and st = ex_broker and rnd = "''r''" and now = 9]
  show ?thesis using facts(3) by (auto simp: ex_selector_def [symmetric])
qed

end
