(* ===== verification/Memory_Store.thy ===== *)
theory Memory_Store
  imports Go_Lib "HOL-Library.Word"
begin

text \<open>
  The key-value plane of the memory service (\<^verbatim>\<open>services/memory-service/internal\<close>): namespaces and
  keys (\<^verbatim>\<open>domain/namespace.go\<close>, \<^verbatim>\<open>domain/errors.go\<close>) and the store over Redis
  (\<^verbatim>\<open>infrastructure/redis_kv.go\<close>).

  Redis is a parameter: its commands are the fields of a record over a type of server states,
  and \<open>redis_ok\<close> states what its documentation promises of them.  The loops over \<^verbatim>\<open>SCAN\<close> return
  nothing when the server never ends an iteration.
\<close>

section \<open>Namespaces and keys\<close>

datatype redis_err = RedisNil | RedisErr string

datatype pg_err = PgNoRows | PgErr string

datatype memory_err =
    ErrKeyNotFound | ErrNamespaceNotFound | ErrDimensionMismatch
  | ErrCrossNamespaceAccess | ErrEmptyNamespace
  | RedisFailure redis_err | PgFailure pg_err

type_synonym memory_error = "memory_err go_error"

definition ValidateAccess :: "string \<Rightarrow> string \<Rightarrow> memory_error option" where
  "ValidateAccess requestNamespace resourceNamespace =
     (if requestNamespace = '''' \<or> resourceNamespace = '''' then Some (Typed ErrEmptyNamespace)
      else if requestNamespace \<noteq> resourceNamespace then Some (Typed ErrCrossNamespaceAccess)
      else None)"

definition KVKey :: "string \<Rightarrow> string \<Rightarrow> string" where
  "KVKey ns key = ns @ '':'' @ key"

definition KVKeyPrefix :: "string \<Rightarrow> string" where
  "KVKeyPrefix ns = ns @ '':''"

section \<open>The store over Redis\<close>

text \<open>The commands of a Redis client: an expiration is in nanoseconds, 0 for none; \<^verbatim>\<open>SCAN\<close> takes a
  cursor, a pattern and a count and returns a batch of keys and the next cursor; \<^verbatim>\<open>rd_Exec\<close>
  executes a pipeline of \<^verbatim>\<open>SET\<close> commands.\<close>

record 'r redis =
  rd_Set :: "'r \<Rightarrow> string \<Rightarrow> string \<Rightarrow> int \<Rightarrow> redis_err option \<times> 'r"
  rd_Get :: "'r \<Rightarrow> string \<Rightarrow> redis_err + string"
  rd_Del :: "'r \<Rightarrow> string list \<Rightarrow> redis_err option \<times> 'r"
  rd_Scan :: "'r \<Rightarrow> nat \<Rightarrow> string \<Rightarrow> nat \<Rightarrow> redis_err + (string list \<times> nat)"
  rd_MGet :: "'r \<Rightarrow> string list \<Rightarrow> redis_err + string option list"
  rd_Exec :: "'r \<Rightarrow> (string \<times> string \<times> int) list \<Rightarrow> redis_err option \<times> 'r"

definition redis_wrap :: "string \<Rightarrow> redis_err \<Rightarrow> memory_error" where
  "redis_wrap fmt err = Wrapf fmt [] (Typed (RedisFailure err))"

definition kv_Set :: "'r redis \<Rightarrow> 'r \<Rightarrow> string \<Rightarrow> string \<Rightarrow> string \<Rightarrow> int \<Rightarrow> memory_error option \<times> 'r" where
  "kv_Set R r ns key val ttl =
     (case rd_Set R r (KVKey ns key) val ttl of
        (Some err, r') \<Rightarrow> (Some (redis_wrap ''memory-service: redis set: %w'' err), r')
      | (None, r') \<Rightarrow> (None, r'))"

definition kv_Get :: "'r redis \<Rightarrow> 'r \<Rightarrow> string \<Rightarrow> string \<Rightarrow> memory_error + string" where
  "kv_Get R r ns key =
     (case rd_Get R r (KVKey ns key) of
        Inr val \<Rightarrow> Inr val
      | Inl err \<Rightarrow> if err = RedisNil then Inl (Wrapf ''%w: %q'' [FS key] (Typed ErrKeyNotFound))
                  else Inl (redis_wrap ''memory-service: redis get: %w'' err))"

definition kv_Delete :: "'r redis \<Rightarrow> 'r \<Rightarrow> string \<Rightarrow> string \<Rightarrow> memory_error option \<times> 'r" where
  "kv_Delete R r ns key =
     (case rd_Del R r [KVKey ns key] of
        (Some err, r') \<Rightarrow> (Some (redis_wrap ''memory-service: redis del: %w'' err), r')
      | (None, r') \<Rightarrow> (None, r'))"

partial_function (option) kv_list_loop ::
  "'r redis \<Rightarrow> 'r \<Rightarrow> string \<Rightarrow> string \<Rightarrow> nat \<Rightarrow> string list \<Rightarrow> (memory_error + string list) option" where
  "kv_list_loop R r pre match cursor keys =
     (case rd_Scan R r cursor match 100 of
        Inl err \<Rightarrow> Some (Inl (redis_wrap ''memory-service: redis scan: %w'' err))
      | Inr (batch, cursor') \<Rightarrow>
          let keys' = keys @ map (\<lambda>k. TrimPrefix k pre) batch in
          if cursor' = 0 then Some (Inr keys') else kv_list_loop R r pre match cursor' keys')"

definition kv_ListKeys :: "'r redis \<Rightarrow> 'r \<Rightarrow> string \<Rightarrow> string \<Rightarrow> (memory_error + string list) option" where
  "kv_ListKeys R r ns pattern =
     (let pre = KVKeyPrefix ns in kv_list_loop R r pre (pre @ pattern) 0 [])"

text \<open>A missing key maps to \<^verbatim>\<open>nil\<close>.  A key that is given twice is one entry of the result.\<close>

definition kv_MGet :: "'r redis \<Rightarrow> 'r \<Rightarrow> string \<Rightarrow> string list \<Rightarrow> memory_error + (string, string option) gomap" where
  "kv_MGet R r ns keys =
     (if keys = [] then Inr []
      else case rd_MGet R r (map (KVKey ns) keys) of
        Inl err \<Rightarrow> Inl (redis_wrap ''memory-service: redis mget: %w'' err)
      | Inr vals \<Rightarrow> Inr (foldl (\<lambda>m (k, v). gm_put k v m) [] (zip keys vals)))"

definition kv_MSet :: "'r redis \<Rightarrow> 'r \<Rightarrow> string \<Rightarrow> (string, string) gomap \<Rightarrow> int \<Rightarrow> memory_error option \<times> 'r" where
  "kv_MSet R r ns pairs ttl =
     (if pairs = [] then (None, r)
      else case rd_Exec R r (map (\<lambda>(k, v). (KVKey ns k, v, ttl)) pairs) of
        (Some err, r') \<Rightarrow> (Some (redis_wrap ''memory-service: redis mset pipeline: %w'' err), r')
      | (None, r') \<Rightarrow> (None, r'))"

partial_function (option) kv_delete_loop :: "'r redis \<Rightarrow> string \<Rightarrow> 'r \<Rightarrow> nat \<Rightarrow> (memory_error option \<times> 'r) option" where
  "kv_delete_loop R pre r cursor =
     (case rd_Scan R r cursor (pre @ ''*'') 100 of
        Inl err \<Rightarrow> Some (Some (redis_wrap ''memory-service: redis scan for delete: %w'' err), r)
      | Inr (batch, cursor') \<Rightarrow>
          (case (if batch = [] then (None, r) else rd_Del R r batch) of
             (Some err, r') \<Rightarrow> Some (Some (redis_wrap ''memory-service: redis del namespace: %w'' err), r')
           | (None, r') \<Rightarrow> if cursor' = 0 then Some (None, r') else kv_delete_loop R pre r' cursor'))"

definition kv_DeleteNamespace :: "'r redis \<Rightarrow> 'r \<Rightarrow> string \<Rightarrow> (memory_error option \<times> 'r) option" where
  "kv_DeleteNamespace R r ns = kv_delete_loop R (KVKeyPrefix ns) r 0"

section \<open>What Redis promises\<close>

text \<open>\<open>live r k\<close> is the value a key has in a state and \<open>after r d\<close> the state when \<open>d\<close> nanoseconds
  have passed without a command.  A key set with an expiration is gone when it has passed.\<close>

definition stored :: "string \<Rightarrow> int \<Rightarrow> int \<Rightarrow> string option" where
  "stored val ttl d = (if ttl = 0 \<or> d < ttl then Some val else None)"

definition redis_writes :: "'r redis \<Rightarrow> ('r \<Rightarrow> string \<Rightarrow> string option) \<Rightarrow> ('r \<Rightarrow> int \<Rightarrow> 'r) \<Rightarrow> bool" where
  "redis_writes R live after \<longleftrightarrow>
     (\<forall>r. after r 0 = r) \<and>
     (\<forall>r d k. 0 \<le> d \<longrightarrow> live (after r d) k \<noteq> None \<longrightarrow> live r k = live (after r d) k) \<and>
     (\<forall>r k val ttl r' d. 0 \<le> ttl \<longrightarrow> 0 \<le> d \<longrightarrow> rd_Set R r k val ttl = (None, r') \<longrightarrow>
        live (after r' d) = (live (after r d))(k := stored val ttl d)) \<and>
     (\<forall>r ks r' d. 0 \<le> d \<longrightarrow> rd_Del R r ks = (None, r') \<longrightarrow>
        live (after r' d) = (\<lambda>k. if k \<in> set ks then None else live (after r d) k)) \<and>
     (\<forall>r ps r' d. 0 \<le> d \<longrightarrow> list_all (\<lambda>(k, val, ttl). 0 \<le> ttl) ps \<longrightarrow> rd_Exec R r ps = (None, r') \<longrightarrow>
        live (after r' d) = foldl (\<lambda>m (k, val, ttl). m(k := stored val ttl d)) (live (after r d)) ps)"

definition redis_reads :: "'r redis \<Rightarrow> ('r \<Rightarrow> string \<Rightarrow> string option) \<Rightarrow> bool" where
  "redis_reads R live \<longleftrightarrow>
     (\<forall>r k val. rd_Get R r k = Inr val \<longrightarrow> live r k = Some val) \<and>
     (\<forall>r k. rd_Get R r k = Inl RedisNil \<longrightarrow> live r k = None) \<and>
     (\<forall>r ks vals. rd_MGet R r ks = Inr vals \<longrightarrow> vals = map (live r) ks)"

text \<open>\<^verbatim>\<open>SCAN\<close>: a full iteration, from cursor 0 to cursor 0, over the states the server passes
  through returns only keys that are there and match, every key that was there and matched all
  the time, and ends if the set of keys stays bounded.\<close>

fun scan_batches :: "'r redis \<Rightarrow> string \<Rightarrow> nat \<Rightarrow> 'r list \<Rightarrow> nat \<Rightarrow> string list list option" where
  "scan_batches R match count [] cursor = None"
| "scan_batches R match count (r # rs) cursor =
     (case rd_Scan R r cursor match count of
        Inl err \<Rightarrow> None
      | Inr (batch, cursor') \<Rightarrow>
          if cursor' = 0 then (if rs = [] then Some [batch] else None)
          else map_option ((#) batch) (scan_batches R match count rs cursor'))"

fun scan_ends :: "'r redis \<Rightarrow> string \<Rightarrow> nat \<Rightarrow> 'r list \<Rightarrow> nat \<Rightarrow> bool" where
  "scan_ends R match count [] cursor \<longleftrightarrow> False"
| "scan_ends R match count (r # rs) cursor \<longleftrightarrow>
     (case rd_Scan R r cursor match count of
        Inl err \<Rightarrow> True
      | Inr (batch, cursor') \<Rightarrow> cursor' = 0 \<or> scan_ends R match count rs cursor')"

definition redis_scans :: "'r redis \<Rightarrow> ('r \<Rightarrow> string \<Rightarrow> string option) \<Rightarrow> (string \<Rightarrow> string \<Rightarrow> bool) \<Rightarrow> bool" where
  "redis_scans R live glob \<longleftrightarrow>
     (\<forall>r cursor match count batch cursor'. rd_Scan R r cursor match count = Inr (batch, cursor') \<longrightarrow>
        (\<forall>k \<in> set batch. live r k \<noteq> None \<and> glob match k)) \<and>
     (\<forall>match count rs batches k. scan_batches R match count rs 0 = Some batches \<longrightarrow>
        (\<forall>r \<in> set rs. live r k \<noteq> None) \<longrightarrow> glob match k \<longrightarrow> k \<in> set (concat batches)) \<and>
     (\<forall>r. finite (dom (live r))) \<and>
     (\<forall>K. finite K \<longrightarrow> (\<exists>n. \<forall>match count rs. (\<forall>r \<in> set rs. dom (live r) \<subseteq> K) \<longrightarrow> n \<le> length rs \<longrightarrow>
        scan_ends R match count rs 0))"

text \<open>The patterns: a character that is not special matches itself, and a final star anything.\<close>

definition glob_plain :: "string \<Rightarrow> bool" where
  "glob_plain s \<longleftrightarrow> list_all (\<lambda>c. c \<notin> set ''*?[]'' \<and> c \<noteq> CHR 0x5C) s"

definition redis_globs :: "(string \<Rightarrow> string \<Rightarrow> bool) \<Rightarrow> bool" where
  "redis_globs glob \<longleftrightarrow>
     (\<forall>p k. glob_plain p \<longrightarrow> (glob p k \<longleftrightarrow> k = p) \<and> (glob (p @ ''*'') k \<longleftrightarrow> HasPrefix k p))"

definition redis_ok ::
  "'r redis \<Rightarrow> ('r \<Rightarrow> string \<Rightarrow> string option) \<Rightarrow> ('r \<Rightarrow> int \<Rightarrow> 'r) \<Rightarrow> (string \<Rightarrow> string \<Rightarrow> bool) \<Rightarrow> bool" where
  "redis_ok R live after glob \<longleftrightarrow>
     redis_writes R live after \<and> redis_reads R live \<and> redis_scans R live glob \<and> redis_globs glob"

section \<open>Namespaces are isolated\<close>

text \<open>A namespace of the form the platform gives its workflows: no colon, no special character
  of a pattern.\<close>

definition plain_ns :: "string \<Rightarrow> bool" where
  "plain_ns ns \<longleftrightarrow> CHR '':'' \<notin> set ns \<and> glob_plain ns"

lemma KVKey_prefix: "KVKey ns key = KVKeyPrefix ns @ key"
  by (simp add: KVKey_def KVKeyPrefix_def)

lemma KVKey_eq_iff:
  assumes "CHR '':'' \<notin> set ns" "CHR '':'' \<notin> set ns'"
  shows "KVKey ns key = KVKey ns' key' \<longleftrightarrow> ns = ns' \<and> key = key'"
proof
  assume "KVKey ns key = KVKey ns' key'"
  then have "Split (CHR '':'') (ns @ CHR '':'' # key) = Split (CHR '':'') (ns' @ CHR '':'' # key')" by (simp add: KVKey_def)
  with assms have "ns = ns'" by simp
  with \<open>KVKey ns key = KVKey ns' key'\<close> show "ns = ns' \<and> key = key'" by (simp add: KVKey_def)
qed simp

lemma KVKeyPrefix_iff:
  assumes "CHR '':'' \<notin> set ns" "CHR '':'' \<notin> set ns'"
  shows "HasPrefix (KVKey ns' key) (KVKeyPrefix ns) \<longleftrightarrow> ns' = ns"
  using KVKey_eq_iff [OF assms(2,1)] by (auto simp: HasPrefix_iff KVKey_prefix)

lemma glob_plain_prefix: "glob_plain ns \<Longrightarrow> glob_plain (KVKeyPrefix ns)"
  by (simp add: glob_plain_def KVKeyPrefix_def)

text \<open>The contents of the store: the value of a key in a namespace.\<close>

definition kv_abs :: "('r \<Rightarrow> string \<Rightarrow> string option) \<Rightarrow> 'r \<Rightarrow> string \<Rightarrow> string \<Rightarrow> string option" where
  "kv_abs live r ns key = live r (KVKey ns key)"

lemma kv_Set_live:
  assumes "redis_writes R live after" "0 \<le> ttl" "0 \<le> d" "kv_Set R r ns key val ttl = (None, r')"
  shows "live (after r' d) = (live (after r d))(KVKey ns key := stored val ttl d)"
proof -
  have "rd_Set R r (KVKey ns key) val ttl = (None, r')"
    using assms(4) by (auto simp: kv_Set_def split: prod.splits option.splits)
  with assms show ?thesis unfolding redis_writes_def by blast
qed

lemma kv_Delete_live:
  assumes "redis_writes R live after" "0 \<le> d" "kv_Delete R r ns key = (None, r')"
  shows "live (after r' d) = (live (after r d))(KVKey ns key := None)"
proof -
  have "rd_Del R r [KVKey ns key] = (None, r')"
    using assms(3) by (auto simp: kv_Delete_def split: prod.splits option.splits)
  moreover have "\<forall>r ks r' d. 0 \<le> d \<longrightarrow> rd_Del R r ks = (None, r') \<longrightarrow>
      live (after r' d) = (\<lambda>k. if k \<in> set ks then None else live (after r d) k)"
    using assms(1) by (simp add: redis_writes_def)
  ultimately have "live (after r' d) = (\<lambda>k. if k \<in> set [KVKey ns key] then None else live (after r d) k)"
    using assms(2) by blast
  then show ?thesis by (simp add: fun_eq_iff)
qed

section \<open>The loops over SCAN\<close>

lemma redis_Del_live:
  assumes "redis_writes R live after" "0 \<le> d" "rd_Del R r ks = (None, r')"
  shows "live (after r' d) = (\<lambda>k. if k \<in> set ks then None else live (after r d) k)"
  using assms unfolding redis_writes_def by blast

lemma after_0: "redis_writes R live after \<Longrightarrow> after r 0 = r"
  by (simp add: redis_writes_def)

lemma list_loop:
  "scan_ends R match 100 (replicate n r) cursor \<Longrightarrow>
   \<exists>res. kv_list_loop R r pre match cursor keys = Some res \<and>
     (\<forall>ks. res = Inr ks \<longrightarrow> (\<exists>j batches. scan_batches R match 100 (replicate j r) cursor = Some batches \<and>
        ks = keys @ map (\<lambda>k. TrimPrefix k pre) (concat batches)))"
proof (induction n arbitrary: cursor keys)
  case (Suc n)
  show ?case
  proof (cases "rd_Scan R r cursor match 100")
    case (Inl err)
    then show ?thesis by (simp add: kv_list_loop.simps)
  next
    case (Inr bc)
    obtain batch cursor' where bc: "bc = (batch, cursor')" by fastforce
    let ?keys = "keys @ map (\<lambda>k. TrimPrefix k pre) batch"
    show ?thesis
    proof (cases "cursor' = 0")
      case True
      then have "scan_batches R match 100 (replicate 1 r) cursor = Some [batch]" by (simp add: Inr bc)
      then show ?thesis using True
        by (subst kv_list_loop.simps) (auto simp: Inr bc intro!: exI [of _ 1] exI [of _ "[batch]"])
    next
      case False
      with Suc.prems have "scan_ends R match 100 (replicate n r) cursor'" by (simp add: Inr bc)
      from Suc.IH [OF this, of ?keys] obtain res where res: "kv_list_loop R r pre match cursor' ?keys = Some res"
        "\<And>ks. res = Inr ks \<Longrightarrow> \<exists>j batches. scan_batches R match 100 (replicate j r) cursor' = Some batches \<and>
           ks = ?keys @ map (\<lambda>k. TrimPrefix k pre) (concat batches)" by blast
      have "\<exists>j batches. scan_batches R match 100 (replicate j r) cursor = Some batches \<and>
          ks = keys @ map (\<lambda>k. TrimPrefix k pre) (concat batches)" if r: "res = Inr ks" for ks
      proof -
        from res(2) [OF r] obtain j batches where "scan_batches R match 100 (replicate j r) cursor' = Some batches"
          "ks = ?keys @ map (\<lambda>k. TrimPrefix k pre) (concat batches)" by blast
        then show ?thesis using False
          by (intro exI [of _ "Suc j"] exI [of _ "batch # batches"]) (simp add: Inr bc)
      qed
      with res(1) False show ?thesis by (subst kv_list_loop.simps) (simp add: Inr bc)
    qed
  qed
qed simp

text \<open>The states the loop of \<^verbatim>\<open>DeleteNamespace\<close> passes through.\<close>

fun delete_states :: "'r redis \<Rightarrow> string \<Rightarrow> nat \<Rightarrow> 'r \<Rightarrow> nat \<Rightarrow> 'r list" where
  "delete_states R pre 0 r cursor = []"
| "delete_states R pre (Suc n) r cursor = r #
     (case rd_Scan R r cursor (pre @ ''*'') 100 of
        Inl err \<Rightarrow> replicate n r
      | Inr (batch, cursor') \<Rightarrow>
          (case (if batch = [] then (None, r) else rd_Del R r batch) of
             (Some err, r') \<Rightarrow> replicate n r
           | (None, r') \<Rightarrow> delete_states R pre n r' cursor'))"

lemma batch_deleted:
  assumes "redis_writes R live after" "0 \<le> d" "(if batch = [] then (None, r) else rd_Del R r batch) = (None, r')"
  shows "live (after r' d) = (\<lambda>k. if k \<in> set batch then None else live (after r d) k)"
  using assms redis_Del_live [OF assms(1,2), of r batch r'] by (auto split: if_splits)

lemma delete_states_dom:
  assumes "redis_writes R live after"
  shows "s \<in> set (delete_states R pre n r cursor) \<Longrightarrow> dom (live s) \<subseteq> dom (live r)"
proof (induction n arbitrary: r cursor)
  case (Suc n)
  show ?case
  proof (cases "s = r")
    case False
    with Suc.prems obtain batch cursor' r' where "(if batch = [] then (None, r) else rd_Del R r batch) = (None, r')"
      and s: "s \<in> set (delete_states R pre n r' cursor')"
      by (simp split: sum.splits prod.splits option.splits) metis
    from batch_deleted [OF assms order.refl this(1)] have "dom (live r') \<subseteq> dom (live r)"
      by (auto simp: after_0 [OF assms] split: if_splits)
    with Suc.IH [OF s] show ?thesis by blast
  qed simp
qed simp

lemma length_delete_states [simp]: "length (delete_states R pre n r cursor) = n"
  by (induction n arbitrary: r cursor) (auto split: sum.splits prod.splits option.splits)

lemma delete_loop:
  assumes "redis_writes R live after"
  shows "scan_ends R (pre @ ''*'') 100 (delete_states R pre n r cursor) cursor \<Longrightarrow>
    \<exists>res r'. kv_delete_loop R pre r cursor = Some (res, r') \<and>
      (res = None \<longrightarrow> (\<exists>rs batches. scan_batches R (pre @ ''*'') 100 rs cursor = Some batches \<and>
         (\<forall>s \<in> set rs. \<forall>k. k \<notin> set (concat batches) \<longrightarrow> live s k = live r k) \<and>
         (\<forall>d \<ge> 0. live (after r' d) = (\<lambda>k. if k \<in> set (concat batches) then None else live (after r d) k))))"
proof (induction n arbitrary: r cursor)
  case (Suc n)
  show ?case
  proof (cases "rd_Scan R r cursor (pre @ ''*'') 100")
    case (Inl err)
    then show ?thesis by (simp add: kv_delete_loop.simps)
  next
    case (Inr bc)
    obtain batch cursor' where bc: "bc = (batch, cursor')" by fastforce
    let ?del = "if batch = [] then (None, r) else rd_Del R r batch"
    obtain err r1 where del: "?del = (err, r1)" by fastforce
    show ?thesis
    proof (cases err)
      case (Some e)
      then show ?thesis using del by (subst kv_delete_loop.simps) (simp add: Inr bc)
    next
      case None
      note live1 = batch_deleted [OF assms _ del [unfolded None]]
      have step: "\<exists>rs' batches'. scan_batches R (pre @ ''*'') 100 rs' cursor = Some batches' \<and>
          (\<forall>s \<in> set rs'. \<forall>k. k \<notin> set (concat batches') \<longrightarrow> live s k = live r k) \<and>
          (\<forall>d \<ge> 0. live (after r' d) = (\<lambda>k. if k \<in> set (concat batches') then None else live (after r d) k))"
        if rest: "cursor' \<noteq> 0" "scan_batches R (pre @ ''*'') 100 rs cursor' = Some batches"
          "\<forall>s \<in> set rs. \<forall>k. k \<notin> set (concat batches) \<longrightarrow> live s k = live r1 k"
          "\<forall>d \<ge> 0. live (after r' d) = (\<lambda>k. if k \<in> set (concat batches) then None else live (after r1 d) k)" for rs batches r'
        using rest live1 live1 [of 0] after_0 [OF assms]
        by (intro exI [of _ "r # rs"] exI [of _ "batch # batches"]) (auto simp: Inr bc)
      show ?thesis
      proof (cases "cursor' = 0")
        case True
        then have "kv_delete_loop R pre r cursor = Some (None, r1)"
          using del None by (subst kv_delete_loop.simps) (simp add: Inr bc)
        moreover have "scan_batches R (pre @ ''*'') 100 [r] cursor = Some [batch]" using True by (simp add: Inr bc)
        ultimately show ?thesis using live1 by (auto intro!: exI [of _ "[r]"] exI [of _ "[batch]"])
      next
        case False
        with Suc.prems del None have "scan_ends R (pre @ ''*'') 100 (delete_states R pre n r1 cursor') cursor'"
          by (simp add: Inr bc)
        from Suc.IH [OF this] obtain res r' where "kv_delete_loop R pre r1 cursor' = Some (res, r')"
          and "res = None \<longrightarrow> (\<exists>rs batches. scan_batches R (pre @ ''*'') 100 rs cursor' = Some batches \<and>
            (\<forall>s \<in> set rs. \<forall>k. k \<notin> set (concat batches) \<longrightarrow> live s k = live r1 k) \<and>
            (\<forall>d \<ge> 0. live (after r' d) = (\<lambda>k. if k \<in> set (concat batches) then None else live (after r1 d) k)))" by blast
        moreover have "kv_delete_loop R pre r cursor = kv_delete_loop R pre r1 cursor'"
          using del None False by (subst kv_delete_loop.simps) (simp add: Inr bc)
        ultimately show ?thesis using step [OF False] by (intro exI [of _ res] exI [of _ r']) auto
      qed
    qed
  qed
qed simp


section \<open>The store refines a map of namespaces\<close>

lemma scan_sound:
  assumes "redis_scans R live glob" "rd_Scan R r cursor match count = Inr (batch, cursor')" "k \<in> set batch"
  shows "live r k \<noteq> None \<and> glob match k"
  by (rule conjunct1 [OF assms(1) [unfolded redis_scans_def], rule_format, OF assms(2,3)])

lemma scan_complete:
  assumes "redis_scans R live glob" "scan_batches R match count rs 0 = Some batches"
    "\<forall>r \<in> set rs. live r k \<noteq> None" "glob match k"
  shows "k \<in> set (concat batches)"
  by (rule conjunct1 [OF conjunct2 [OF assms(1) [unfolded redis_scans_def]], rule_format, OF assms(2) assms(3) [rule_format] assms(4)])

lemma scan_bound:
  assumes "redis_scans R live glob"
  obtains n where "\<And>match count rs. (\<forall>r' \<in> set rs. dom (live r') \<subseteq> dom (live r)) \<Longrightarrow> n \<le> length rs \<Longrightarrow> scan_ends R match count rs 0"
proof -
  note rest = conjunct2 [OF conjunct2 [OF assms [unfolded redis_scans_def]]]
  have "\<exists>n. \<forall>match count rs. (\<forall>r' \<in> set rs. dom (live r') \<subseteq> dom (live r)) \<longrightarrow> n \<le> length rs \<longrightarrow> scan_ends R match count rs 0"
    using conjunct2 [OF rest, THEN spec, THEN mp] conjunct1 [OF rest] by blast
  with that show thesis by blast
qed

lemma scan_all:
  assumes "redis_scans R live glob" "scan_batches R match count rs cursor = Some batches" "k \<in> set (concat batches)"
  shows "glob match k \<and> (\<exists>r \<in> set rs. live r k \<noteq> None)"
  using assms(2,3)
proof (induction rs arbitrary: cursor batches)
  case (Cons r rs)
  from Cons.prems(1) obtain batch cursor' where s: "rd_Scan R r cursor match count = Inr (batch, cursor')"
    by (auto split: sum.splits)
  show ?case
  proof (cases "cursor' = 0")
    case True
    with Cons.prems(1) s have "batches = [batch]" by (simp split: if_splits)
    with Cons.prems(2) scan_sound [OF assms(1) s] show ?thesis by simp
  next
    case False
    with Cons.prems(1) s obtain bs where "scan_batches R match count rs cursor' = Some bs" "batches = batch # bs" by auto
    with Cons.IH Cons.prems(2) scan_sound [OF assms(1) s] show ?thesis by auto
  qed
qed simp

lemma prefix_match:
  "redis_globs glob \<Longrightarrow> glob_plain ns \<Longrightarrow> glob (KVKeyPrefix ns @ ''*'') k \<longleftrightarrow> HasPrefix k (KVKeyPrefix ns)"
  using glob_plain_prefix by (simp add: redis_globs_def)

lemma ListKeys_match:
  assumes ok: "redis_ok R live after glob"
  shows "\<exists>res. kv_ListKeys R r ns pattern = Some res \<and> (\<forall>ks. res = Inr ks \<longrightarrow>
    set ks = (\<lambda>k. TrimPrefix k (KVKeyPrefix ns)) ` {k. live r k \<noteq> None \<and> glob (KVKeyPrefix ns @ pattern) k})"
proof -
  let ?match = "KVKeyPrefix ns @ pattern"
  have scans: "redis_scans R live glob" using ok by (simp add: redis_ok_def)
  obtain n where "\<And>match count rs. (\<forall>r' \<in> set rs. dom (live r') \<subseteq> dom (live r)) \<Longrightarrow> n \<le> length rs \<Longrightarrow> scan_ends R match count rs 0"
    using scan_bound [OF scans, of r] by blast
  from this [of "replicate n r" ?match 100] have "scan_ends R ?match 100 (replicate n r) 0" by simp
  from list_loop [OF this, of "KVKeyPrefix ns" "[]"]
  obtain res where res: "kv_ListKeys R r ns pattern = Some res"
    "\<And>ks. res = Inr ks \<Longrightarrow> \<exists>j batches. scan_batches R ?match 100 (replicate j r) 0 = Some batches \<and>
       ks = map (\<lambda>k. TrimPrefix k (KVKeyPrefix ns)) (concat batches)"
    by (auto simp: kv_ListKeys_def Let_def)
  have "set ks = (\<lambda>k. TrimPrefix k (KVKeyPrefix ns)) ` {k. live r k \<noteq> None \<and> glob ?match k}" if r: "res = Inr ks" for ks
  proof -
    from res(2) [OF r] obtain j batches where b: "scan_batches R ?match 100 (replicate j r) 0 = Some batches"
      "ks = map (\<lambda>k. TrimPrefix k (KVKeyPrefix ns)) (concat batches)" by blast
    have "k \<in> set (concat batches) \<longleftrightarrow> live r k \<noteq> None \<and> glob ?match k" for k
    proof
      assume "k \<in> set (concat batches)"
      from scan_all [OF scans b(1) this] show "live r k \<noteq> None \<and> glob ?match k" by auto
    next
      assume "live r k \<noteq> None \<and> glob ?match k"
      then show "k \<in> set (concat batches)" by (intro scan_complete [OF scans b(1)]) simp_all
    qed
    then have "set (concat batches) = {k. live r k \<noteq> None \<and> glob ?match k}" by blast
    then show ?thesis by (simp only: b(2) set_map)
  qed
  with res(1) show ?thesis by blast
qed

lemma ListKeys_keys:
  assumes ok: "redis_ok R live after glob" and ns: "glob_plain ns"
  shows "\<exists>res. kv_ListKeys R r ns ''*'' = Some res \<and>
    (\<forall>ks. res = Inr ks \<longrightarrow> set ks = {key. kv_abs live r ns key \<noteq> None})"
proof -
  have globs: "redis_globs glob" using ok by (simp add: redis_ok_def)
  have "(\<lambda>k. TrimPrefix k (KVKeyPrefix ns)) ` {k. live r k \<noteq> None \<and> glob (KVKeyPrefix ns @ ''*'') k} = {key. kv_abs live r ns key \<noteq> None}"
    unfolding prefix_match [OF globs ns]
  proof (intro set_eqI iffI)
    fix key assume "key \<in> {key. kv_abs live r ns key \<noteq> None}"
    then have "KVKey ns key \<in> {k. live r k \<noteq> None \<and> HasPrefix k (KVKeyPrefix ns)}" by (simp add: kv_abs_def KVKey_prefix)
    moreover have "key = TrimPrefix (KVKey ns key) (KVKeyPrefix ns)" by (simp add: KVKey_prefix)
    ultimately show "key \<in> (\<lambda>k. TrimPrefix k (KVKeyPrefix ns)) ` {k. live r k \<noteq> None \<and> HasPrefix k (KVKeyPrefix ns)}"
      by (rule rev_image_eqI)
  qed (auto simp: kv_abs_def KVKey_prefix HasPrefix_iff)
  with ListKeys_match [OF ok, of r ns "''*''"] show ?thesis by simp
qed

lemma DeleteNamespace_keys:
  assumes ok: "redis_ok R live after glob" and ns: "plain_ns ns"
  shows "\<exists>res r'. kv_DeleteNamespace R r ns = Some (res, r') \<and>
    (res = None \<longrightarrow> (\<forall>d \<ge> 0. \<forall>ns' key. CHR '':'' \<notin> set ns' \<longrightarrow>
       kv_abs live (after r' d) ns' key = (if ns' = ns then None else kv_abs live (after r d) ns' key)))"
proof -
  let ?pre = "KVKeyPrefix ns"
  have writes: "redis_writes R live after" and scans: "redis_scans R live glob" and globs: "redis_globs glob"
    using ok by (simp_all add: redis_ok_def)
  obtain n where "\<And>match count rs. (\<forall>r' \<in> set rs. dom (live r') \<subseteq> dom (live r)) \<Longrightarrow> n \<le> length rs \<Longrightarrow> scan_ends R match count rs 0"
    using scan_bound [OF scans, of r] by blast
  from this [of "delete_states R ?pre n r 0" "?pre @ ''*''" 100]
  have "scan_ends R (?pre @ ''*'') 100 (delete_states R ?pre n r 0) 0" using delete_states_dom [OF writes] by simp
  from delete_loop [OF writes this] obtain res r' where res: "kv_DeleteNamespace R r ns = Some (res, r')"
    and fin: "res = None \<Longrightarrow> \<exists>rs batches. scan_batches R (?pre @ ''*'') 100 rs 0 = Some batches \<and>
         (\<forall>s \<in> set rs. \<forall>k. k \<notin> set (concat batches) \<longrightarrow> live s k = live r k) \<and>
         (\<forall>d \<ge> 0. live (after r' d) = (\<lambda>k. if k \<in> set (concat batches) then None else live (after r d) k))"
    unfolding kv_DeleteNamespace_def by blast
  have "kv_abs live (after r' d) ns' key = (if ns' = ns then None else kv_abs live (after r d) ns' key)"
    if n: "res = None" "0 \<le> d" "CHR '':'' \<notin> set ns'" for d ns' key
  proof -
    from fin [OF n(1)] obtain rs batches where b: "scan_batches R (?pre @ ''*'') 100 rs 0 = Some batches"
      "\<And>s k. s \<in> set rs \<Longrightarrow> k \<notin> set (concat batches) \<Longrightarrow> live s k = live r k"
      "live (after r' d) = (\<lambda>k. if k \<in> set (concat batches) then None else live (after r d) k)"
      using n(2) by blast
    let ?k = "KVKey ns' key"
    have match: "glob (?pre @ ''*'') ?k \<longleftrightarrow> ns' = ns"
      using prefix_match [OF globs] KVKeyPrefix_iff [of ns ns' key] ns n(3) by (simp add: plain_ns_def)
    have gone: "live (after r d) ?k = None" if "ns' = ns" "?k \<notin> set (concat batches)"
    proof -
      have "live r ?k = None"
      proof (rule ccontr)
        assume "live r ?k \<noteq> None"
        then have "\<forall>s \<in> set rs. live s ?k \<noteq> None" using b(2) that(2) by simp
        from scan_complete [OF scans b(1) this] match that show False by simp
      qed
      then show ?thesis using writes n(2) unfolding redis_writes_def by metis
    qed
    have "?k \<notin> set (concat batches)" if "ns' \<noteq> ns" using scan_all [OF scans b(1)] match that by blast
    with gone show ?thesis by (auto simp: kv_abs_def b(3))
  qed
  with res show ?thesis by blast
qed

lemma exec_live:
  assumes "CHR '':'' \<notin> set ns" "CHR '':'' \<notin> set ns'" "gm_ok pairs"
  shows "foldl (\<lambda>m (k, val, ttl). m(k := stored val ttl d)) f (map (\<lambda>(k, v). (KVKey ns k, v, ttl)) pairs) (KVKey ns' key) =
    (case (if ns' = ns then map_of pairs key else None) of None \<Rightarrow> f (KVKey ns' key) | Some v \<Rightarrow> stored v ttl d)"
  using assms(3)
proof (induction pairs arbitrary: f)
  case (Cons p pairs)
  obtain k v where p: "p = (k, v)" by fastforce
  have "map_of pairs k = None" using Cons.prems p by (simp add: map_of_eq_None_iff)
  with Cons p show ?case by (simp add: KVKey_eq_iff [OF assms(2,1)] split: option.split)
qed simp

lemma kv_MSet_live:
  assumes "redis_writes R live after" "0 \<le> ttl" "0 \<le> d" "kv_MSet R r ns pairs ttl = (None, r')"
  shows "live (after r' d) =
    foldl (\<lambda>m (k, val, ttl). m(k := stored val ttl d)) (live (after r d)) (map (\<lambda>(k, v). (KVKey ns k, v, ttl)) pairs)"
proof (cases "pairs = []")
  case False
  then have "rd_Exec R r (map (\<lambda>(k, v). (KVKey ns k, v, ttl)) pairs) = (None, r')"
    using assms(4) by (auto simp: kv_MSet_def split: prod.splits option.splits)
  moreover have "list_all (\<lambda>(k, val, ttl). 0 \<le> ttl) (map (\<lambda>(k, v). (KVKey ns k, v, ttl)) pairs)"
    using assms(2) by (auto simp: list_all_iff)
  ultimately show ?thesis using assms(1,3) unfolding redis_writes_def by blast
qed (use assms(4) in \<open>simp add: kv_MSet_def\<close>)

text \<open>C30 The store over Redis is a map from namespaces and keys to values, for namespaces without
  colons and pattern characters: an operation that succeeds changes exactly what its namespace
  and keys name, now and at any later time \<open>d\<close>, a value with a time to live is there until it has
  passed, \<^verbatim>\<open>Get\<close> returns what is stored, \<^verbatim>\<open>ListKeys\<close> ends and returns the keys of the namespace,
  and \<^verbatim>\<open>DeleteNamespace\<close> ends and leaves the namespace empty and the others alone.\<close>

theorem kv_refines_namespaces:
  assumes ok: "redis_ok R live after glob" and ns: "plain_ns ns" "plain_ns ns'" and "0 \<le> ttl" "0 \<le> d" "gm_ok pairs"
  shows "(\<forall>r'. kv_Set R r ns key val ttl = (None, r') \<longrightarrow>
       kv_abs live (after r' d) ns' key' = (if ns' = ns \<and> key' = key then stored val ttl d else kv_abs live (after r d) ns' key')) \<and>
    (\<forall>r'. kv_Delete R r ns key = (None, r') \<longrightarrow>
       kv_abs live (after r' d) ns' key' = (if ns' = ns \<and> key' = key then None else kv_abs live (after r d) ns' key')) \<and>
    (\<forall>r'. kv_MSet R r ns pairs ttl = (None, r') \<longrightarrow>
       kv_abs live (after r' d) ns' key' =
         (case (if ns' = ns then map_of pairs key' else None) of None \<Rightarrow> kv_abs live (after r d) ns' key' | Some v \<Rightarrow> stored v ttl d)) \<and>
    (case kv_Get R r ns key of
       Inr v \<Rightarrow> kv_abs live r ns key = Some v
     | Inl e \<Rightarrow> errors_Is e ErrKeyNotFound \<longrightarrow> kv_abs live r ns key = None) \<and>
    (\<exists>res. kv_ListKeys R r ns ''*'' = Some res \<and> (\<forall>ks. res = Inr ks \<longrightarrow> set ks = {k. kv_abs live r ns k \<noteq> None})) \<and>
    (\<exists>res r'. kv_DeleteNamespace R r ns = Some (res, r') \<and> (res = None \<longrightarrow>
       kv_abs live (after r' d) ns' key' = (if ns' = ns then None else kv_abs live (after r d) ns' key')))"
proof (intro conjI allI impI)
  have writes: "redis_writes R live after" and reads: "redis_reads R live" using ok by (simp_all add: redis_ok_def)
  have colon: "CHR '':'' \<notin> set ns" "CHR '':'' \<notin> set ns'" using ns by (simp_all add: plain_ns_def)
  note keys = KVKey_eq_iff [OF colon(2,1)]
  show "kv_abs live (after r' d) ns' key' = (if ns' = ns \<and> key' = key then stored val ttl d else kv_abs live (after r d) ns' key')"
    if "kv_Set R r ns key val ttl = (None, r')" for r'
    using kv_Set_live [OF writes assms(4,5) that] by (simp add: kv_abs_def keys)
  show "kv_abs live (after r' d) ns' key' = (if ns' = ns \<and> key' = key then None else kv_abs live (after r d) ns' key')"
    if "kv_Delete R r ns key = (None, r')" for r'
    using kv_Delete_live [OF writes assms(5) that] by (simp add: kv_abs_def keys)
  show "kv_abs live (after r' d) ns' key' = (case (if ns' = ns then map_of pairs key' else None) of
      None \<Rightarrow> kv_abs live (after r d) ns' key' | Some v \<Rightarrow> stored v ttl d)" if "kv_MSet R r ns pairs ttl = (None, r')" for r'
    using kv_MSet_live [OF writes assms(4,5) that] exec_live [OF colon assms(6)] by (simp add: kv_abs_def split: option.split)
  show "case kv_Get R r ns key of Inr v \<Rightarrow> kv_abs live r ns key = Some v
      | Inl e \<Rightarrow> errors_Is e ErrKeyNotFound \<longrightarrow> kv_abs live r ns key = None"
    using reads by (auto simp: kv_Get_def kv_abs_def redis_reads_def redis_wrap_def split: sum.splits)
  show "\<exists>res. kv_ListKeys R r ns ''*'' = Some res \<and> (\<forall>ks. res = Inr ks \<longrightarrow> set ks = {k. kv_abs live r ns k \<noteq> None})"
    using ListKeys_keys [OF ok] ns by (simp add: plain_ns_def)
  show "\<exists>res r'. kv_DeleteNamespace R r ns = Some (res, r') \<and> (res = None \<longrightarrow>
      kv_abs live (after r' d) ns' key' = (if ns' = ns then None else kv_abs live (after r d) ns' key'))"
    using DeleteNamespace_keys [OF ok ns(1), of r] assms(5) colon(2) by blast
qed

text \<open>[C] Without that form of namespace the isolation is lost: the keys of namespace \<open>ns:sub\<close> are
  keys of namespace \<open>ns\<close>.  What is written in one is read, overwritten and deleted in the other.\<close>

theorem kv_colon_collision:
  assumes "redis_ok R live after glob" "kv_Set R r (ns @ '':'' @ sub) key val 0 = (None, r')"
  shows "kv_abs live r' ns (sub @ '':'' @ key) = Some val \<and>
    kv_Get R r' ns (sub @ '':'' @ key) \<noteq> Inl (Wrapf ''%w: %q'' [FS (sub @ '':'' @ key)] (Typed ErrKeyNotFound)) \<and>
    (glob_plain ns \<longrightarrow> (\<exists>res. kv_ListKeys R r' ns ''*'' = Some res \<and> (\<forall>ks. res = Inr ks \<longrightarrow> sub @ '':'' @ key \<in> set ks)))"
proof -
  have writes: "redis_writes R live after" and reads: "redis_reads R live" using assms(1) by (simp_all add: redis_ok_def)
  have "live (after r' 0) (KVKey (ns @ '':'' @ sub) key) = Some val"
    using kv_Set_live [OF writes order.refl order.refl assms(2)] by (simp add: stored_def)
  then have live: "live r' (KVKey ns (sub @ '':'' @ key)) = Some val" by (simp add: after_0 [OF writes] KVKey_def)
  then have "rd_Get R r' (KVKey ns (sub @ '':'' @ key)) \<noteq> Inl RedisNil" using reads by (auto simp: redis_reads_def)
  then have "kv_Get R r' ns (sub @ '':'' @ key) \<noteq> Inl (Wrapf ''%w: %q'' [FS (sub @ '':'' @ key)] (Typed ErrKeyNotFound))"
    by (auto simp: kv_Get_def redis_wrap_def split: sum.splits)
  moreover have "\<exists>res. kv_ListKeys R r' ns ''*'' = Some res \<and> (\<forall>ks. res = Inr ks \<longrightarrow> sub @ '':'' @ key \<in> set ks)" if "glob_plain ns"
  proof -
    from ListKeys_keys [OF assms(1) that] obtain res where "kv_ListKeys R r' ns ''*'' = Some res"
      "\<And>ks. res = Inr ks \<Longrightarrow> set ks = {key. kv_abs live r' ns key \<noteq> None}" by blast
    with live show ?thesis by (auto simp: kv_abs_def)
  qed
  ultimately show ?thesis using live by (simp add: kv_abs_def)
qed

end
