(* ===== verification/Memory_Api.thy ===== *)
theory Memory_Api
  imports Memory_Store Go_Float Go_Encoding
begin

text \<open>
  The vector plane of the memory service over Postgres
  (\<^verbatim>\<open>services/memory-service/internal/infrastructure/postgres/pgvector.go\<close>) and its gRPC handlers
  (\<^verbatim>\<open>services/memory-service/internal/api/handler.go\<close>).  The database is a parameter: the
  statements and their arguments are what the code sends to it.
\<close>

section \<open>Statements\<close>

datatype pg_arg = PgText string | PgVector "float64 list" | PgBytes string

text \<open>The rows of a query: the identifier, the distance and the metadata of one, or the error of
  \<^verbatim>\<open>Scan\<close>; and the error of \<^verbatim>\<open>rows.Err()\<close>.\<close>

type_synonym pg_rows = "(pg_err + (string \<times> float64 \<times> string)) list \<times> pg_err option"

record 'p pg =
  pg_Exec :: "'p \<Rightarrow> string \<Rightarrow> pg_arg list \<Rightarrow> pg_err option \<times> 'p"
  pg_Query :: "'p \<Rightarrow> string \<Rightarrow> pg_arg list \<Rightarrow> pg_err + pg_rows"

text \<open>The conversion to \<^verbatim>\<open>float32\<close>.\<close>

definition round32 :: "rat \<Rightarrow> float64" where
  "round32 q =
     (if q = 0 then FFin 0
      else let e = max (- 149) (exponent \<bar>q\<bar> - 23); v = of_int (round_even (q / pow2 e)) * pow2 e in
           if \<bar>v\<bar> \<ge> pow2 128 then FInf (q < 0) else FFin v)"

fun to_float32 :: "float64 \<Rightarrow> float64" where
  "to_float32 (FFin q) = round32 q"
| "to_float32 f = f"

record VectorResult =
  vr_ID :: string
  vr_Score :: float64
  vr_Metadata :: "(string, string) gomap"

text \<open>A line of a statement, as indented in the source.\<close>

definition sql_line :: "string \<Rightarrow> string" where
  "sql_line s = CHR 0x0A # CHR 0x09 # CHR 0x09 # s"

definition store_sql :: string where
  "store_sql = concat (map sql_line
     [''INSERT INTO memory_vectors (id, namespace, embedding, metadata)'',
      ''VALUES ($1, $2, $3, $4)'', ''ON CONFLICT (namespace, id)'', ''DO UPDATE SET'',
      CHR 0x09 # ''embedding  = EXCLUDED.embedding,'', CHR 0x09 # ''metadata   = EXCLUDED.metadata,'',
      CHR 0x09 # ''updated_at = now()'']) @ [CHR 0x0A, CHR 0x09]"

definition delete_sql :: string where
  "delete_sql = ''DELETE FROM memory_vectors WHERE namespace = $1 AND id = $2''"

definition base_sql :: string where
  "base_sql = concat (map sql_line
     [''SELECT id,'', ''       (embedding <=> $1) AS score,'', ''       metadata'',
      ''FROM   memory_vectors'', ''WHERE  namespace = $2''])"

definition ident_char :: "char \<Rightarrow> bool" where
  "ident_char c \<longleftrightarrow> is_lower c \<or> is_upper c \<or> is_digit c \<or> c = CHR ''_''"

text \<open>The loop over the runes of the string: a rune that is kept is one byte.\<close>

definition sanitizeIdentifier :: "string \<Rightarrow> string" where
  "sanitizeIdentifier s = filter ident_char s"

text \<open>\<^verbatim>\<open>strings.SplitN(s, sep, 2)\<close>\<close>

definition SplitN2 :: "char \<Rightarrow> string \<Rightarrow> string list" where
  "SplitN2 c s = (if c \<in> set s then [takeWhile (\<lambda>x. x \<noteq> c) s, tl (dropWhile (\<lambda>x. x \<noteq> c) s)] else [s])"

definition buildFilterClause :: "string \<Rightarrow> string \<Rightarrow> float64 list \<Rightarrow> int \<Rightarrow> string \<times> pg_arg list" where
  "buildFilterClause flt ns vec k =
     (let args = [PgVector vec, PgText ns];
          parts = SplitN2 (CHR ''='') flt;
          (sql, args') =
            (if flt \<noteq> '''' \<and> length parts = 2
             then (base_sql @ '' AND metadata->>'' @ [CHR 0x27] @ sanitizeIdentifier (parts ! 0) @ [CHR 0x27] @ '' = $'' @ Itoa 3,
                   args @ [PgText (parts ! 1)])
             else (base_sql, args))
      in (sql @ sql_line ''ORDER BY embedding <=> $1'' @ sql_line ''LIMIT '' @ Itoa k, args'))"

section \<open>The vector store\<close>

definition pg_wrap :: "string \<Rightarrow> farg list \<Rightarrow> pg_err \<Rightarrow> memory_error" where
  "pg_wrap fmt as err = Wrapf fmt as (Typed (PgFailure err))"

definition marshalMetadata :: "(string, string) gomap option \<Rightarrow> string" where
  "marshalMetadata m = (case m of None \<Rightarrow> ''{}'' | Some m \<Rightarrow> json_print (JObj (map (\<lambda>(k, v). (k, JStr v)) m)))"

definition unmarshalMetadata :: "string \<Rightarrow> (string, string) gomap option" where
  "unmarshalMetadata data =
     (if data = '''' then Some []
      else case json_Unmarshal data of
          Some (JObj m) \<Rightarrow> the_all (map (\<lambda>(k, j). map_option (Pair k) (decode_string j)) m)
        | Some JNull \<Rightarrow> Some []
        | _ \<Rightarrow> None)"

definition vec_StoreVector ::
  "'p pg \<Rightarrow> 'p \<Rightarrow> string \<Rightarrow> string \<Rightarrow> float64 list \<Rightarrow> (string, string) gomap option \<Rightarrow> memory_error option \<times> 'p" where
  "vec_StoreVector P p ns i vec metadata =
     (case pg_Exec P p store_sql [PgText i, PgText ns, PgVector vec, PgBytes (marshalMetadata metadata)] of
        (Some err, p') \<Rightarrow> (Some (pg_wrap ''memory-service pgvector: store vector %q/%q: %w'' [FS ns, FS i] err), p')
      | (None, p') \<Rightarrow> (None, p'))"

fun query_rows :: "VectorResult list \<Rightarrow> (pg_err + (string \<times> float64 \<times> string)) list \<Rightarrow> memory_error + VectorResult list" where
  "query_rows results [] = Inr results"
| "query_rows results (Inl err # rows) = Inl (pg_wrap ''memory-service pgvector: scan row: %w'' [] err)"
| "query_rows results (Inr (i, score, metaJSON) # rows) =
     (case unmarshalMetadata metaJSON of
        None \<Rightarrow> Inl (Errorf ''memory-service pgvector: unmarshal metadata: %w'' [])
      | Some meta \<Rightarrow> query_rows (results @ [\<lparr>vr_ID = i, vr_Score = to_float32 score, vr_Metadata = meta\<rparr>]) rows)"

definition vec_QueryVector ::
  "'p pg \<Rightarrow> 'p \<Rightarrow> string \<Rightarrow> float64 list \<Rightarrow> int \<Rightarrow> string \<Rightarrow> memory_error + VectorResult list" where
  "vec_QueryVector P p ns vec k flt =
     (if k \<le> 0 then Inl (Errorf ''memory-service pgvector: k must be > 0'' [])
      else case buildFilterClause flt ns vec k of (sql, args) \<Rightarrow>
        (case pg_Query P p sql args of
           Inl err \<Rightarrow> Inl (pg_wrap ''memory-service pgvector: query vector in %q: %w'' [FS ns] err)
         | Inr (rows, rowsErr) \<Rightarrow>
             (case query_rows [] rows of
                Inl err \<Rightarrow> Inl err
              | Inr results \<Rightarrow>
                  (case rowsErr of
                     Some err \<Rightarrow> Inl (pg_wrap ''memory-service pgvector: rows error: %w'' [] err)
                   | None \<Rightarrow> Inr results))))"

definition vec_DeleteVector :: "'p pg \<Rightarrow> 'p \<Rightarrow> string \<Rightarrow> string \<Rightarrow> memory_error option \<times> 'p" where
  "vec_DeleteVector P p ns i =
     (case pg_Exec P p delete_sql [PgText ns, PgText i] of
        (Some err, p') \<Rightarrow>
          (if err \<noteq> PgNoRows then Some (pg_wrap ''memory-service pgvector: delete vector %q/%q: %w'' [FS ns, FS i] err) else None, p')
      | (None, p') \<Rightarrow> (None, p'))"

definition stripSchema :: "string \<Rightarrow> string" where
  "stripSchema dsn =
     (case find (\<lambda>pfx. length dsn > length pfx \<and> take (length pfx) dsn = pfx) [''postgres://'', ''postgresql://''] of
        Some pfx \<Rightarrow> drop (length pfx) dsn
      | None \<Rightarrow> dsn)"

section \<open>The gRPC handlers\<close>

type_synonym mem_rpc = "grpc_code \<times> memory_error"

definition ctx_rpc :: "ctx_error \<Rightarrow> mem_rpc" where
  "ctx_rpc err = (case FromContextError err of (code, Sprintf f as) \<Rightarrow> (code, Errorf f as))"

definition requireNamespace :: "string \<Rightarrow> mem_rpc option" where
  "requireNamespace workflowID =
     (case ValidateAccess workflowID workflowID of
        None \<Rightarrow> None
      | Some err \<Rightarrow>
          if errors_Is err ErrEmptyNamespace then Some (InvalidArgument, Errorf ''workflow_id must not be empty'' [])
          else Some (PermissionDenied, Errorf ''cross-namespace access denied'' []))"

text \<open>The two guards every handler starts with.\<close>

definition guarded :: "ctx_error option \<Rightarrow> string \<Rightarrow> mem_rpc option" where
  "guarded ctx workflowID = (case ctx of Some err \<Rightarrow> Some (ctx_rpc err) | None \<Rightarrow> requireNamespace workflowID)"

definition second :: int where "second = 1000000000"

definition ttl_of :: "32 word \<Rightarrow> int" where
  "ttl_of ttlSeconds = (if 0 <s ttlSeconds then sint ttlSeconds * second else 0)"

definition h_Set ::
  "'r redis \<Rightarrow> 'r \<Rightarrow> ctx_error option \<Rightarrow> string \<Rightarrow> string \<Rightarrow> string \<Rightarrow> 32 word \<Rightarrow> (mem_rpc + unit) \<times> 'r" where
  "h_Set R r ctx workflowID key val ttlSeconds =
     (case guarded ctx workflowID of
        Some err \<Rightarrow> (Inl err, r)
      | None \<Rightarrow>
          (case kv_Set R r workflowID key val (ttl_of ttlSeconds) of
             (Some err, r') \<Rightarrow> (Inl (Internal, Wrapf ''set: %v'' [] err), r')
           | (None, r') \<Rightarrow> (Inr (), r')))"

definition h_Get :: "'r redis \<Rightarrow> 'r \<Rightarrow> ctx_error option \<Rightarrow> string \<Rightarrow> string \<Rightarrow> mem_rpc + string" where
  "h_Get R r ctx workflowID key =
     (case guarded ctx workflowID of
        Some err \<Rightarrow> Inl err
      | None \<Rightarrow>
          (case kv_Get R r workflowID key of
             Inl err \<Rightarrow> if errors_Is err ErrKeyNotFound then Inl (NotFound, Errorf ''key not found: %q'' [FS key])
                       else Inl (Internal, Wrapf ''get: %v'' [] err)
           | Inr val \<Rightarrow> Inr val))"

definition h_Delete :: "'r redis \<Rightarrow> 'r \<Rightarrow> ctx_error option \<Rightarrow> string \<Rightarrow> string \<Rightarrow> (mem_rpc + unit) \<times> 'r" where
  "h_Delete R r ctx workflowID key =
     (case guarded ctx workflowID of
        Some err \<Rightarrow> (Inl err, r)
      | None \<Rightarrow>
          (case kv_Delete R r workflowID key of
             (Some err, r') \<Rightarrow> (Inl (Internal, Wrapf ''delete: %v'' [] err), r')
           | (None, r') \<Rightarrow> (Inr (), r')))"

definition h_ListKeys :: "'r redis \<Rightarrow> 'r \<Rightarrow> ctx_error option \<Rightarrow> string \<Rightarrow> string \<Rightarrow> (mem_rpc + string list) option" where
  "h_ListKeys R r ctx workflowID pre =
     (case guarded ctx workflowID of
        Some err \<Rightarrow> Some (Inl err)
      | None \<Rightarrow>
          map_option (\<lambda>res. case res of Inl err \<Rightarrow> Inl (Internal, Wrapf ''list_keys: %v'' [] err) | Inr keys \<Rightarrow> Inr keys)
            (kv_ListKeys R r workflowID (if pre = '''' then ''*'' else pre)))"

definition h_MGet :: "'r redis \<Rightarrow> 'r \<Rightarrow> ctx_error option \<Rightarrow> string \<Rightarrow> string list \<Rightarrow> mem_rpc + (string \<times> string) list" where
  "h_MGet R r ctx workflowID keys =
     (case guarded ctx workflowID of
        Some err \<Rightarrow> Inl err
      | None \<Rightarrow>
          (case kv_MGet R r workflowID keys of
             Inl err \<Rightarrow> Inl (Internal, Wrapf ''mget: %v'' [] err)
           | Inr vals \<Rightarrow> Inr (collect (\<lambda>(k, v). case v of None \<Rightarrow> [] | Some val \<Rightarrow> [(k, val)]) vals)))"

fun mset_entries :: "'r redis \<Rightarrow> 'r \<Rightarrow> string \<Rightarrow> (string \<times> string \<times> 32 word) list \<Rightarrow> mem_rpc option \<times> 'r" where
  "mset_entries R r ns [] = (None, r)"
| "mset_entries R r ns ((key, val, ttlSeconds) # es) =
     (case kv_Set R r ns key val (ttl_of ttlSeconds) of
        (Some err, r') \<Rightarrow> (Some (Internal, Wrapf ''mset entry %q: %v'' [FS key] err), r')
      | (None, r') \<Rightarrow> mset_entries R r' ns es)"

definition h_MSet ::
  "'r redis \<Rightarrow> 'r \<Rightarrow> ctx_error option \<Rightarrow> string \<Rightarrow> (string \<times> string \<times> 32 word) list \<Rightarrow> (mem_rpc + 32 word) \<times> 'r" where
  "h_MSet R r ctx workflowID entries =
     (case guarded ctx workflowID of
        Some err \<Rightarrow> (Inl err, r)
      | None \<Rightarrow>
          (case mset_entries R r workflowID entries of
             (Some err, r') \<Rightarrow> (Inl err, r')
           | (None, r') \<Rightarrow> (Inr (of_nat (length entries)), r')))"

definition h_DeleteNamespace :: "'r redis \<Rightarrow> 'r \<Rightarrow> ctx_error option \<Rightarrow> string \<Rightarrow> ((mem_rpc + unit) \<times> 'r) option" where
  "h_DeleteNamespace R r ctx workflowID =
     (case guarded ctx workflowID of
        Some err \<Rightarrow> Some (Inl err, r)
      | None \<Rightarrow>
          map_option (\<lambda>(err, r'). (case err of Some err \<Rightarrow> Inl (Internal, Wrapf ''delete_namespace: %v'' [] err) | None \<Rightarrow> Inr (), r'))
            (kv_DeleteNamespace R r workflowID))"

text \<open>The fresh UUID is an argument.\<close>

definition h_StoreVector ::
  "'p pg \<Rightarrow> 'p \<Rightarrow> ctx_error option \<Rightarrow> string \<Rightarrow> string \<Rightarrow> float64 list \<Rightarrow> string \<Rightarrow> (string, string) gomap option \<Rightarrow>
   (mem_rpc + string) \<times> 'p" where
  "h_StoreVector P p ctx uuid workflowID embedding txt metadata =
     (case guarded ctx workflowID of
        Some err \<Rightarrow> (Inl err, p)
      | None \<Rightarrow>
          (let meta = (case metadata of None \<Rightarrow> [] | Some m \<Rightarrow> m);
               meta' = (if txt \<noteq> '''' then gm_put ''text'' txt meta else meta)
           in case vec_StoreVector P p workflowID uuid embedding (Some meta') of
                (Some err, p') \<Rightarrow> (Inl (Internal, Wrapf ''store_vector: %v'' [] err), p')
              | (None, p') \<Rightarrow> (Inr uuid, p')))"

definition h_QueryVector ::
  "'p pg \<Rightarrow> 'p \<Rightarrow> ctx_error option \<Rightarrow> string \<Rightarrow> float64 list \<Rightarrow> 32 word \<Rightarrow> mem_rpc + VectorResult list" where
  "h_QueryVector P p ctx workflowID embedding topK =
     (case guarded ctx workflowID of
        Some err \<Rightarrow> Inl err
      | None \<Rightarrow>
          (case vec_QueryVector P p workflowID embedding (sint topK) '''' of
             Inl err \<Rightarrow> Inl (Internal, Wrapf ''query_vector: %v'' [] err)
           | Inr results \<Rightarrow> Inr results))"

definition h_DeleteVector :: "'p pg \<Rightarrow> 'p \<Rightarrow> ctx_error option \<Rightarrow> string \<Rightarrow> string \<Rightarrow> (mem_rpc + unit) \<times> 'p" where
  "h_DeleteVector P p ctx workflowID vectorID =
     (case guarded ctx workflowID of
        Some err \<Rightarrow> (Inl err, p)
      | None \<Rightarrow>
          (case vec_DeleteVector P p workflowID vectorID of
             (Some err, p') \<Rightarrow> (Inl (Internal, Wrapf ''delete_vector: %v'' [] err), p')
           | (None, p') \<Rightarrow> (Inr (), p')))"

section \<open>The key-value calls\<close>

lemma guarded_None: "guarded ctx w = None \<longleftrightarrow> ctx = None \<and> w \<noteq> ''''"
  by (auto simp: guarded_def requireNamespace_def ValidateAccess_def split: option.split)

lemma ttl_of_nonneg [simp]: "0 \<le> ttl_of t"
  by (simp add: ttl_of_def second_def word_sless_alt)


lemma foldl_put_zip:
  "map_of (foldl (\<lambda>m (k, v). gm_put k v m) m0 (zip keys (map f keys))) k =
     (if k \<in> set keys then Some (f k) else map_of m0 k)"
  by (induction keys arbitrary: m0) auto

lemma foldl_put_ok: "gm_ok m0 \<Longrightarrow> gm_ok (foldl (\<lambda>m (k, v). gm_put k v m) m0 ps)"
  by (induction ps arbitrary: m0) auto

lemma collect_present:
  assumes "gm_ok (m :: (string, string option) gomap)"
  shows "gm_ok (collect (\<lambda>(k, v). case v of None \<Rightarrow> [] | Some val \<Rightarrow> [(k, val)]) m) \<and>
    set (collect (\<lambda>(k, v). case v of None \<Rightarrow> [] | Some val \<Rightarrow> [(k, val)]) m) = {(k, v). map_of m k = Some (Some v)}"
proof
  let ?c = "collect (\<lambda>(k, v). case v of None \<Rightarrow> [] | Some val \<Rightarrow> [(k, val)])"
  have "set (?c m) = {(k, v). (k, Some v) \<in> set m}" for m :: "(string, string option) gomap"
    by (force split: option.splits)
  note s = this
  show "set (?c m) = {(k, v). map_of m k = Some (Some v)}" unfolding s using assms by (simp add: gm_ok_in_set)
  show "gm_ok (?c m)" using assms
  proof (induction m)
    case (Cons p m)
    have "fst ` set (?c m) \<subseteq> fst ` set m" by (force simp: s)
    with Cons show ?case by (cases p) (auto split: option.split simp del: set_collect)
  qed simp
qed

lemma mset_entries_live:
  assumes "redis_writes R live after" "0 \<le> d" "CHR '':'' \<notin> set w" "CHR '':'' \<notin> set ns'"
  shows "mset_entries R r w es = (None, r') \<Longrightarrow> kv_abs live (after r' d) ns' key =
    (case (if ns' = w then map_of (rev es) key else None) of
       None \<Rightarrow> kv_abs live (after r d) ns' key
     | Some (val, ttl) \<Rightarrow> stored val (ttl_of ttl) d)"
proof (induction es arbitrary: r)
  case (Cons e es)
  obtain k val ttl where e: "e = (k, val, ttl)" by (metis prod_cases3)
  obtain r1 where r1: "kv_Set R r w k val (ttl_of ttl) = (None, r1)" "mset_entries R r1 w es = (None, r')"
    using Cons.prems e by (auto split: prod.splits option.splits)
  have "kv_abs live (after r1 d) ns' key = (if ns' = w \<and> key = k then stored val (ttl_of ttl) d else kv_abs live (after r d) ns' key)"
    using kv_Set_live [OF assms(1) ttl_of_nonneg assms(2) r1(1)]
    by (simp add: kv_abs_def KVKey_eq_iff [OF assms(4,3)])
  with Cons.IH [OF r1(2)] e show ?case by (auto simp: map_add_def split: option.splits)
qed simp

text \<open>[C] The calls on many keys.  \<^verbatim>\<open>MGet\<close> returns each requested key that is there, once, with its
  value, and no other.  \<^verbatim>\<open>MSet\<close> answers success only when all entries are stored, the last one of
  a repeated key, each with its own time to live, and touches nothing else.\<close>

theorem mget_mset:
  assumes ok: "redis_ok R live after glob" and "0 \<le> d" "plain_ns w" "plain_ns ns'"
  shows "(\<forall>entries. h_MGet R r ctx w keys = Inr entries \<longrightarrow>
       distinct (map fst entries) \<and> set entries = {(k, v). k \<in> set keys \<and> kv_abs live r w k = Some v}) \<and>
    (\<forall>n r'. h_MSet R r ctx w es = (Inr n, r') \<longrightarrow>
       n = of_nat (length es) \<and> kv_abs live (after r' d) ns' key =
         (case (if ns' = w then map_of (rev es) key else None) of
            None \<Rightarrow> kv_abs live (after r d) ns' key
          | Some (val, ttl) \<Rightarrow> stored val (ttl_of ttl) d))"
proof (intro conjI allI impI)
  have writes: "redis_writes R live after" and reads: "redis_reads R live" using ok by (simp_all add: redis_ok_def)
  fix entries assume "h_MGet R r ctx w keys = Inr entries"
  then obtain vals where vals: "kv_MGet R r w keys = Inr vals"
    and entries: "entries = collect (\<lambda>(k, v). case v of None \<Rightarrow> [] | Some val \<Rightarrow> [(k, val)]) vals"
    by (auto simp: h_MGet_def split: option.splits sum.splits)
  have "vals = foldl (\<lambda>m (k, v). gm_put k v m) [] (zip keys (map (kv_abs live r w) keys))"
  proof (cases "keys = []")
    case False
    then obtain vs where "rd_MGet R r (map (KVKey w) keys) = Inr vs" "vals = foldl (\<lambda>m (k, v). gm_put k v m) [] (zip keys vs)"
      using vals by (auto simp: kv_MGet_def split: sum.splits)
    moreover from this(1) have "vs = map (live r) (map (KVKey w) keys)" using reads unfolding redis_reads_def by blast
    moreover have "kv_abs live r w = live r \<circ> KVKey w" by (simp add: fun_eq_iff kv_abs_def)
    ultimately show ?thesis by simp
  qed (use vals in \<open>simp add: kv_MGet_def\<close>)
  then have "gm_ok vals" "map_of vals k = (if k \<in> set keys then Some (kv_abs live r w k) else None)" for k
    by (simp_all add: foldl_put_ok foldl_put_zip)
  with collect_present [of vals] show "distinct (map fst entries)"
    "set entries = {(k, v). k \<in> set keys \<and> kv_abs live r w k = Some v}"
    by (auto simp: entries gm_ok_def split: if_splits)
next
  fix n r' assume "h_MSet R r ctx w es = (Inr n, r')"
  then have m: "mset_entries R r w es = (None, r')" and "n = of_nat (length es)"
    by (auto simp: h_MSet_def split: option.splits prod.splits)
  then show "n = of_nat (length es)" by simp
  show "kv_abs live (after r' d) ns' key = (case (if ns' = w then map_of (rev es) key else None) of
      None \<Rightarrow> kv_abs live (after r d) ns' key | Some (val, ttl) \<Rightarrow> stored val (ttl_of ttl) d)"
    using mset_entries_live [OF _ assms(2) _ _ m] ok assms(3,4) by (simp add: redis_ok_def plain_ns_def)
qed

text \<open>[C] The prefix of \<^verbatim>\<open>ListKeys\<close> is taken for a pattern: a prefix without pattern characters finds
  the one key that equals it, if it is there, and not the keys that begin with it.\<close>

theorem listkeys_prefix_literal:
  assumes ok: "redis_ok R live after glob" and "glob_plain w" "glob_plain pre" "pre \<noteq> ''''"
  shows "\<exists>res. h_ListKeys R r ctx w pre = Some res \<and>
    (\<forall>ks. res = Inr ks \<longrightarrow> set ks = (if kv_abs live r w pre = None then {} else {pre}))"
proof -
  have "glob (KVKeyPrefix w @ pre) k \<longleftrightarrow> k = KVKey w pre" for k
    using ok assms(2,3) glob_plain_prefix [of w] by (simp add: redis_ok_def redis_globs_def glob_plain_def KVKey_prefix)
  then have "(\<lambda>k. TrimPrefix k (KVKeyPrefix w)) ` {k. live r k \<noteq> None \<and> glob (KVKeyPrefix w @ pre) k} =
      (if kv_abs live r w pre = None then {} else {pre})"
    by (auto simp: kv_abs_def KVKey_prefix image_iff)
  with ListKeys_match [OF ok, of r w pre] obtain res where "kv_ListKeys R r w pre = Some res"
    "\<forall>ks. res = Inr ks \<longrightarrow> set ks = (if kv_abs live r w pre = None then {} else {pre})" by auto
  then show ?thesis using assms(4) by (cases "guarded ctx w"; cases res) (auto simp: h_ListKeys_def)
qed

section \<open>The vector calls\<close>

text \<open>C31 No filter text reaches the statement: the SQL of a query is one of a family that depends only
  on the limit and on an identifier of letters, digits and underscores, in quotes; the value of
  the filter and the namespace are arguments of the statement.\<close>

theorem filter_sql_safe:
  "\<exists>ident. list_all ident_char ident \<and>
     fst (buildFilterClause flt ns vec k) =
       base_sql @ (if CHR ''='' \<in> set flt then '' AND metadata->>'' @ [CHR 0x27] @ ident @ [CHR 0x27] @ '' = $3'' else '''')
         @ sql_line ''ORDER BY embedding <=> $1'' @ sql_line ''LIMIT '' @ Itoa k \<and>
     filter (\<lambda>c. c = CHR 0x27) (fst (buildFilterClause flt ns vec k)) = (if CHR ''='' \<in> set flt then [CHR 0x27, CHR 0x27] else []) \<and>
     snd (buildFilterClause flt ns vec k) = [PgVector vec, PgText ns] @
       (if CHR ''='' \<in> set flt then [PgText (tl (dropWhile (\<lambda>c. c \<noteq> CHR ''='') flt))] else [])"
proof -
  let ?ident = "sanitizeIdentifier (takeWhile (\<lambda>x. x \<noteq> CHR ''='') flt)"
  have ident: "list_all ident_char ?ident" by (simp add: sanitizeIdentifier_def list_all_iff)
  have three: "Itoa 3 = ''3''" by code_simp
  have quotes: "filter (\<lambda>c. c = CHR 0x27) base_sql = []" "filter (\<lambda>c. c = CHR 0x27) (sql_line ''ORDER BY embedding <=> $1'') = []"
    "filter (\<lambda>c. c = CHR 0x27) (sql_line ''LIMIT '') = []" "\<not> ident_char (CHR 0x27)"
    by code_simp+
  have digits: "filter (\<lambda>c. c = CHR 0x27) (Itoa k) = []"
  proof -
    have "\<not> is_digit (CHR 0x27)" by code_simp
    then have "CHR 0x27 \<notin> set (show_nat n)" for n using show_nat_digits [of n] by (auto simp: list_all_iff)
    then show ?thesis by (auto simp: Itoa_def filter_empty_conv)
  qed
  have "filter (\<lambda>c. c = CHR 0x27) ?ident = []"
    using ident quotes(4) by (auto simp: filter_empty_conv list_all_iff)
  then show ?thesis using ident
    by (cases "CHR ''='' \<in> set flt"; intro exI [of _ ?ident])
       (auto simp: buildFilterClause_def SplitN2_def Let_def three quotes digits)
qed


lemma sort_fields_map: "sort_fields (map (\<lambda>(k, v). (k, f v)) m) = map (\<lambda>(k, v). (k, f v)) (sort_fields m)"
proof -
  have "insort_key fst (k, f v) (map (\<lambda>(k, v). (k, f v)) ps) = map (\<lambda>(k, v). (k, f v)) (insort_key fst (k, v) ps)" for k v ps
    by (induction ps) auto
  note ins = this
  show ?thesis unfolding sort_fields_def by (induction m) (auto simp: ins)
qed

lemma print_strings: "json_print (JObj (map (\<lambda>(k, v). (k, JStr v)) m)) = print_members (sort_fields m)"
proof -
  have "map (\<lambda>(k, j). (k, json_print j)) (map (\<lambda>(k, v). (k, JStr v)) m) = map (\<lambda>(k, v). (k, quote v)) m" by auto
  then have "json_print (JObj (map (\<lambda>(k, v). (k, JStr v)) m)) =
      CHR ''{'' # commas (map (\<lambda>(k, t). quote k @ CHR '':'' # t) (map (\<lambda>(k, v). (k, quote v)) (sort_fields m))) @ ''}''"
    by (simp only: json_print.simps sort_fields_map [symmetric])
  also have "map (\<lambda>(k, t). quote k @ CHR '':'' # t) (map (\<lambda>(k, v). (k, quote v)) (sort_fields m)) =
      map (\<lambda>(k, v). quote k @ '':'' @ quote v) (sort_fields m)" by auto
  finally show ?thesis by (simp add: print_members_def)
qed

text \<open>Metadata survives the detour over JSON, up to the order of a map and ill-formed UTF-8.\<close>

definition metadata_utf8 :: "(string, string) gomap \<Rightarrow> bool" where
  "metadata_utf8 m \<longleftrightarrow> (\<forall>(k, v) \<in> set m. to_valid_utf8 k = k \<and> to_valid_utf8 v = v)"

lemma metadata_roundtrip:
  assumes "gm_ok m" "metadata_utf8 m"
  shows "unmarshalMetadata (marshalMetadata (Some m)) = Some (sort_fields m)"
proof (cases "m = []")
  case True
  have "unmarshalMetadata (marshalMetadata (Some [])) = Some []" by code_simp
  with True show ?thesis by (simp add: sort_fields_def)
next
  case False
  have set: "set (sort_fields m) = set m" by (simp add: sort_fields_def)
  then have utf8: "map (\<lambda>(k, v). (to_valid_utf8 k, JStr (to_valid_utf8 v))) (sort_fields m) = map (\<lambda>(k, v). (k, JStr v)) (sort_fields m)"
    "map (to_valid_utf8 \<circ> fst) (sort_fields m) = map fst (sort_fields m)"
    using assms(2) by (auto simp: metadata_utf8_def)
  have "distinct (map fst (sort_fields m))"
    using assms(1) unfolding gm_ok_def sort_fields_def
    by (metis distinct_map distinct_sort set_sort)
  moreover have "sort_fields m \<noteq> []" using False set by auto
  ultimately have "json_Unmarshal (print_members (sort_fields m)) = Some (JObj (map (\<lambda>(k, v). (k, JStr v)) (sort_fields m)))"
    using json_Unmarshal_print [of "sort_fields m"] utf8 by simp
  moreover have "print_members (sort_fields m) \<noteq> ''''" by (simp add: print_members_def)
  moreover have "the_all (map (\<lambda>(k, j). map_option (Pair k) (decode_string j)) (map (\<lambda>(k, v). (k, JStr v)) ps)) = Some ps" for ps
    by (induction ps) (auto simp: decode_string_def)
  moreover have "marshalMetadata (Some m) = print_members (sort_fields m)"
    by (simp only: marshalMetadata_def option.case print_strings)
  ultimately show ?thesis by (simp add: unmarshalMetadata_def)
qed

text \<open>What Postgres promises of the three statements: the table is a map from namespace and
  identifier to an embedding and its metadata; a query returns rows of the namespace it was
  given, nearest first, no more than its limit.\<close>

definition meta_map :: "string \<Rightarrow> (string \<Rightarrow> string option) option" where
  "meta_map m = map_option map_of (unmarshalMetadata m)"

type_synonym vector_table = "string \<Rightarrow> string \<Rightarrow> (float64 list \<times> (string \<Rightarrow> string option) option) option"

definition pg_ok :: "'p pg \<Rightarrow> ('p \<Rightarrow> vector_table) \<Rightarrow> (float64 list \<Rightarrow> float64 list \<Rightarrow> float64) \<Rightarrow> bool" where
  "pg_ok P live cosine \<longleftrightarrow>
     (\<forall>p i ns v m p'. pg_Exec P p store_sql [PgText i, PgText ns, PgVector v, PgBytes m] = (None, p') \<longrightarrow>
        live p' = (live p)(ns := (live p ns)(i \<mapsto> (v, meta_map m)))) \<and>
     (\<forall>p i ns p'. pg_Exec P p delete_sql [PgText ns, PgText i] = (None, p') \<longrightarrow>
        live p' = (live p)(ns := (live p ns)(i := None))) \<and>
     (\<forall>p ns v k rows. 0 < k \<longrightarrow> pg_Query P p (fst (buildFilterClause '''' ns v k)) [PgVector v, PgText ns] = Inr (map Inr rows, None) \<longrightarrow>
        length rows \<le> nat k \<and> sorted_wrt (\<lambda>(_, s, _) (_, s', _). \<not> f_lt s' s) rows \<and>
        (\<forall>(i, s, m) \<in> set rows. \<exists>w. live p ns i = Some (w, meta_map m) \<and> s = cosine v w))"

definition row_result :: "string \<times> float64 \<times> string \<Rightarrow> VectorResult" where
  "row_result = (\<lambda>(i, s, m). \<lparr>vr_ID = i, vr_Score = to_float32 s, vr_Metadata = the (unmarshalMetadata m)\<rparr>)"

lemma query_rows_Inr:
  "query_rows acc rows = Inr res \<Longrightarrow> \<exists>rs. rows = map Inr rs \<and> res = acc @ map row_result rs \<and>
     (\<forall>(i, s, m) \<in> set rs. unmarshalMetadata m \<noteq> None)"
proof (induction acc rows rule: query_rows.induct)
  case (3 results i score metaJSON rows)
  then obtain meta rs where m: "unmarshalMetadata metaJSON = Some meta" and "rows = map Inr rs"
    "res = (results @ [\<lparr>vr_ID = i, vr_Score = to_float32 score, vr_Metadata = meta\<rparr>]) @ map row_result rs"
    "\<forall>(i, s, m) \<in> set rs. unmarshalMetadata m \<noteq> None" by (auto split: option.splits)
  then show ?case by (intro exI [of _ "(i, score, metaJSON) # rs"]) (auto simp: row_result_def)
qed auto

lemma stored_vector:
  assumes ok: "pg_ok P live cosine" and store: "h_StoreVector P p ctx uuid w emb txt (Some meta) = (Inr vid, p')"
    and meta: "gm_ok meta" "metadata_utf8 meta" "to_valid_utf8 txt = txt"
  shows "vid = uuid" "live p' = (live p)(w := (live p w)(vid \<mapsto>
       (emb, Some ((map_of meta)(''text'' := if txt = '''' then map_of meta ''text'' else Some txt)))))"
proof -
  define meta' where "meta' = (if txt \<noteq> '''' then gm_put ''text'' txt meta else meta)"
  have st: "vid = uuid" "vec_StoreVector P p w uuid emb (Some meta') = (None, p')"
    using store by (auto simp: h_StoreVector_def meta'_def Let_def split: option.splits prod.splits)
  then have "pg_Exec P p store_sql [PgText uuid, PgText w, PgVector emb, PgBytes (marshalMetadata (Some meta'))] = (None, p')"
    by (auto simp: vec_StoreVector_def split: option.splits prod.splits)
  then have live: "live p' = (live p)(w := (live p w)(uuid \<mapsto> (emb, meta_map (marshalMetadata (Some meta')))))"
    using ok unfolding pg_ok_def by blast
  have "to_valid_utf8 ''text'' = ''text''" by code_simp
  with meta have ok': "gm_ok meta'" "metadata_utf8 meta'"
    by (auto simp: meta'_def metadata_utf8_def dest!: in_set_gm_put)
  then have "meta_map (marshalMetadata (Some meta')) = Some (map_of (sort_fields meta'))"
    by (simp add: meta_map_def metadata_roundtrip)
  also have "map_of (sort_fields meta') = map_of meta'"
    using ok'(1) unfolding gm_ok_def sort_fields_def
    by (metis distinct_map distinct_sort map_of_inject_set set_sort)
  also have "map_of meta' = (map_of meta)(''text'' := if txt = '''' then map_of meta ''text'' else Some txt)"
    by (simp add: meta'_def)
  finally have meta_eq: "meta_map (marshalMetadata (Some meta')) =
      Some ((map_of meta)(''text'' := if txt = '''' then map_of meta ''text'' else Some txt))" .
  show "live p' = (live p)(w := (live p w)(vid \<mapsto>
      (emb, Some ((map_of meta)(''text'' := if txt = '''' then map_of meta ''text'' else Some txt)))))"
    by (simp only: live st(1) meta_eq)
  show "vid = uuid" by (rule st(1))
qed

lemma query_found:
  assumes ok: "pg_ok P live cosine" and query: "h_QueryVector P p ctx w query topK = Inr results"
  shows "0 <s topK \<and> length results \<le> nat (sint topK) \<and>
    (\<exists>scores. map vr_Score results = map to_float32 scores \<and> sorted_wrt (\<lambda>s s'. \<not> f_lt s' s) scores) \<and>
    (\<forall>res \<in> set results. \<exists>v. live p w (vr_ID res) = Some (v, Some (map_of (vr_Metadata res))) \<and>
       vr_Score res = to_float32 (cosine query v))"
proof -
  have q: "vec_QueryVector P p w query (sint topK) '''' = Inr results"
    using query by (auto simp: h_QueryVector_def split: option.splits sum.splits)
  then have pos: "0 < sint topK" by (auto simp: vec_QueryVector_def split: if_splits)
  have args: "snd (buildFilterClause '''' w query (sint topK)) = [PgVector query, PgText w]"
    by (simp add: buildFilterClause_def SplitN2_def Let_def)
  obtain rows where rows: "pg_Query P p (fst (buildFilterClause '''' w query (sint topK))) [PgVector query, PgText w] = Inr (rows, None)"
    "query_rows [] rows = Inr results"
    using q pos args by (auto simp: vec_QueryVector_def split: prod.splits sum.splits option.splits)
  from query_rows_Inr [OF rows(2)] obtain rs where rs: "rows = map Inr rs" "results = map row_result rs"
    "\<forall>(i, s, m) \<in> set rs. unmarshalMetadata m \<noteq> None" by auto
  have db: "length rs \<le> nat (sint topK)" "sorted_wrt (\<lambda>(_, s, _) (_, s', _). \<not> f_lt s' s) rs"
    "\<forall>(i, s, m) \<in> set rs. \<exists>v. live p w i = Some (v, meta_map m) \<and> s = cosine query v"
    using conjunct2 [OF conjunct2 [OF ok [unfolded pg_ok_def]], THEN spec, THEN spec, THEN spec, THEN spec, THEN spec, THEN mp, OF pos,
        THEN mp, OF rows(1) [unfolded rs(1)]] by simp_all
  have "map vr_Score results = map to_float32 (map (\<lambda>(i, s, m). s) rs)"
    by (auto simp: rs row_result_def)
  moreover have "sorted_wrt (\<lambda>s s'. \<not> f_lt s' s) (map (\<lambda>(i, s, m). s) rs)"
    using db(2) unfolding sorted_wrt_map by (rule sorted_wrt_mono_rel [rotated]) auto
  moreover have "\<forall>res \<in> set results. \<exists>v. live p w (vr_ID res) = Some (v, Some (map_of (vr_Metadata res))) \<and>
      vr_Score res = to_float32 (cosine query v)"
    using db(3) rs(3) by (fastforce simp: rs(2) row_result_def meta_map_def)
  moreover have "0 <s topK" "length results \<le> nat (sint topK)" using pos db(1) by (simp_all add: rs(2) word_sless_alt)
  ultimately show ?thesis by blast
qed


end
