(* ===== verification/Memory_Example.thy ===== *)
theory Memory_Example
  imports Memory_Api
begin

text \<open>
  The properties of the memory service at work, over a Redis server and a Postgres table that
  keep their promises: an association list with deadlines under a clock, and a list of rows.
\<close>

section \<open>A server\<close>

type_synonym ex_server = "int \<times> (string, string \<times> int option) gomap"

definition ex_live :: "ex_server \<Rightarrow> string \<Rightarrow> string option" where
  "ex_live r k = (case map_of (snd r) k of
       Some (v, None) \<Rightarrow> Some v
     | Some (v, Some t) \<Rightarrow> if fst r < t then Some v else None
     | None \<Rightarrow> None)"

lemma ex_live_pair: "ex_live (t0, m) k = (case map_of m k of
     Some (v, None) \<Rightarrow> Some v
   | Some (v, Some t) \<Rightarrow> if t0 < t then Some v else None
   | None \<Rightarrow> None)"
  unfolding ex_live_def fst_conv snd_conv by (rule refl)

definition ex_after :: "ex_server \<Rightarrow> int \<Rightarrow> ex_server" where
  "ex_after r d = (fst r + d, snd r)"

definition ex_glob :: "string \<Rightarrow> string \<Rightarrow> bool" where
  "ex_glob p k \<longleftrightarrow> (if p \<noteq> '''' \<and> last p = CHR ''*'' then HasPrefix k (butlast p) else k = p)"

definition ex_put :: "ex_server \<Rightarrow> string \<Rightarrow> string \<Rightarrow> int \<Rightarrow> ex_server" where
  "ex_put r k val ttl = (fst r, gm_put k (val, if ttl = 0 then None else Some (fst r + ttl)) (snd r))"

definition ex_redis :: "ex_server redis" where
  "ex_redis = \<lparr>rd_Set = (\<lambda>r k val ttl. (None, ex_put r k val ttl)),
     rd_Get = (\<lambda>r k. case ex_live r k of None \<Rightarrow> Inl RedisNil | Some v \<Rightarrow> Inr v),
     rd_Del = (\<lambda>r ks. (None, (fst r, filter (\<lambda>(k, v). k \<notin> set ks) (snd r)))),
     rd_Scan = (\<lambda>r cursor match count. Inr (filter (\<lambda>k. ex_live r k \<noteq> None \<and> ex_glob match k) (map fst (snd r)), 0)),
     rd_MGet = (\<lambda>r ks. Inr (map (ex_live r) ks)),
     rd_Exec = (\<lambda>r ps. (None, foldl (\<lambda>r (k, val, ttl). ex_put r k val ttl) r ps))\<rparr>"

lemma ex_live_put: "0 \<le> d \<Longrightarrow> 0 \<le> ttl \<Longrightarrow>
  ex_live (ex_after (ex_put r k val ttl) d) = (ex_live (ex_after r d))(k := stored val ttl d)"
  by (auto simp: ex_live_def ex_after_def ex_put_def stored_def fun_eq_iff split: option.split)

lemma map_of_filter_keys: "map_of (filter (\<lambda>(k, v). k \<notin> S) m) k = (if k \<in> S then None else map_of m k)"
  by (induction m) auto

lemma ex_live_exec: "0 \<le> d \<Longrightarrow> list_all (\<lambda>(k, val, ttl). 0 \<le> ttl) ps \<Longrightarrow>
  ex_live (ex_after (foldl (\<lambda>r (k, val, ttl). ex_put r k val ttl) r ps) d) =
    foldl (\<lambda>m (k, val, ttl). m(k := stored val ttl d)) (ex_live (ex_after r d)) ps"
  by (induction ps arbitrary: r) (auto simp: ex_live_put)

lemma ex_writes: "redis_writes ex_redis ex_live ex_after"
  unfolding redis_writes_def
proof (intro conjI allI impI)
  show "ex_after r 0 = r" for r by (simp add: ex_after_def)
  show "ex_live r k = ex_live (ex_after r d) k" if "0 \<le> d" "ex_live (ex_after r d) k \<noteq> None" for r d k
    using that by (auto simp: ex_live_def ex_after_def split: option.splits if_splits)
  show "ex_live (ex_after r' d) = (ex_live (ex_after r d))(k := stored val ttl d)"
    if "0 \<le> ttl" "0 \<le> d" "rd_Set ex_redis r k val ttl = (None, r')" for r k val ttl r' d
  proof -
    have "r' = ex_put r k val ttl" using that(3) by (simp add: ex_redis_def)
    then show ?thesis using ex_live_put [OF that(2,1)] by simp
  qed
  show "ex_live (ex_after r' d) = (\<lambda>k. if k \<in> set ks then None else ex_live (ex_after r d) k)"
    if "0 \<le> d" "rd_Del ex_redis r ks = (None, r')" for r ks r' d
  proof -
    obtain t m where r: "r = (t, m)" by fastforce
    then have "r' = (t, filter (\<lambda>(k, v). k \<notin> set ks) m)" using that(2) by (simp add: ex_redis_def)
    then show ?thesis by (simp add: r ex_live_pair ex_after_def map_of_filter_keys fun_eq_iff)
  qed
  show "ex_live (ex_after r' d) = foldl (\<lambda>m (k, val, ttl). m(k := stored val ttl d)) (ex_live (ex_after r d)) ps"
    if "0 \<le> d" "list_all (\<lambda>(k, val, ttl). 0 \<le> ttl) ps" "rd_Exec ex_redis r ps = (None, r')" for r ps r' d
  proof -
    have "r' = foldl (\<lambda>r (k, val, ttl). ex_put r k val ttl) r ps" using that(3) by (simp add: ex_redis_def)
    then show ?thesis using ex_live_exec [OF that(1,2)] by simp
  qed
qed

lemma ex_scan: "rd_Scan ex_redis r c m n = Inr (filter (\<lambda>k. ex_live r k \<noteq> None \<and> ex_glob m k) (map fst (snd r)), 0)"
  by (simp add: ex_redis_def)

lemma ex_live_key: "ex_live r k \<noteq> None \<Longrightarrow> k \<in> fst ` set (snd r)"
  by (auto simp: ex_live_def split: option.splits dest!: map_of_SomeD intro: rev_image_eqI)

lemma ex_scans: "redis_scans ex_redis ex_live ex_glob"
  unfolding redis_scans_def
proof (intro conjI allI impI)
  show "\<forall>k \<in> set batch. ex_live r k \<noteq> None \<and> ex_glob match k"
    if "rd_Scan ex_redis r cursor match count = Inr (batch, cursor')" for r cursor match count batch cursor'
    using that by (auto simp: ex_scan)
  show "k \<in> set (concat batches)" if "scan_batches ex_redis match count rs 0 = Some batches"
    "\<forall>r \<in> set rs. ex_live r k \<noteq> None" "ex_glob match k" for match count rs batches k
    using that
  proof (cases rs)
    case (Cons r rs')
    with that(1) have b: "batches = [filter (\<lambda>k. ex_live r k \<noteq> None \<and> ex_glob match k) (map fst (snd r))]"
      by (simp add: ex_scan split: if_splits)
    have "ex_live r k \<noteq> None" using that(2) Cons by simp
    with ex_live_key [OF this] that(3) show ?thesis by (simp add: b)
  qed simp
  show "finite (dom (ex_live r))" for r
  proof (rule finite_subset)
    show "dom (ex_live r) \<subseteq> fst ` set (snd r)" using ex_live_key by blast
  qed simp
  show "\<exists>n. \<forall>match count rs. (\<forall>r \<in> set rs. dom (ex_live r) \<subseteq> K) \<longrightarrow> n \<le> length rs \<longrightarrow> scan_ends ex_redis match count rs 0" for K
  proof (intro exI allI impI)
    fix match count and rs :: "ex_server list" assume "1 \<le> length rs"
    then show "scan_ends ex_redis match count rs 0" by (cases rs) (auto simp: ex_scan)
  qed
qed

lemma ex_redis_ok: "redis_ok ex_redis ex_live ex_after ex_glob"
proof -
  have "redis_reads ex_redis ex_live"
    by (auto simp: redis_reads_def ex_redis_def split: option.splits)
  moreover have "ex_glob p k \<longleftrightarrow> k = p" "ex_glob (p @ ''*'') k \<longleftrightarrow> HasPrefix k p" if "glob_plain p" for p k
  proof -
    have "CHR ''*'' \<notin> set p" using that by (auto simp: glob_plain_def list_all_iff)
    then have "p = '''' \<or> last p \<noteq> CHR ''*''" using last_in_set [of p] by metis
    then show "ex_glob p k \<longleftrightarrow> k = p" by (auto simp: ex_glob_def)
    show "ex_glob (p @ ''*'') k \<longleftrightarrow> HasPrefix k p" by (simp add: ex_glob_def)
  qed
  then have "redis_globs ex_glob" unfolding redis_globs_def by blast
  ultimately show ?thesis using ex_writes ex_scans by (simp add: redis_ok_def)
qed

definition ex_server :: ex_server where
  "ex_server = (5, [(''wf-1:b'', (''2'', None))])"

lemma ex_plain: "plain_ns ''wf-1''" "plain_ns ''wf-2''"
  by code_simp+

definition ex_set :: ex_server where
  "ex_set = ex_put ex_server (KVKey ''wf-1'' ''a'') ''1'' 30"

lemma ex_set: "kv_Set ex_redis ex_server ''wf-1'' ''a'' ''1'' 30 = (None, ex_set)"
  by (simp add: kv_Set_def ex_redis_def ex_set_def)

theorem kv_refines_namespaces_witness:
  "kv_abs ex_live (ex_after ex_set 29) ''wf-1'' ''a'' = Some ''1'' \<and>
   kv_abs ex_live (ex_after ex_set 29) ''wf-2'' ''a'' = kv_abs ex_live (ex_after ex_server 29) ''wf-2'' ''a'' \<and>
   (\<exists>r'. kv_DeleteNamespace ex_redis ex_server ''wf-1'' = Some (None, r') \<and> kv_abs ex_live r' ''wf-1'' ''b'' = None)"
proof (intro conjI)
  note laws = kv_refines_namespaces [OF ex_redis_ok, where ttl = 30 and pairs = "[]" and val = "''1''" and r = ex_server and ns = "''wf-1''" and key = "''a''"]
  from laws [where ns' = "''wf-1''" and d = 29 and key' = "''a''"] ex_plain ex_set
  show "kv_abs ex_live (ex_after ex_set 29) ''wf-1'' ''a'' = Some ''1''" by (simp add: stored_def)
  from laws [where ns' = "''wf-2''" and d = 29 and key' = "''a''"] ex_plain ex_set
  show "kv_abs ex_live (ex_after ex_set 29) ''wf-2'' ''a'' = kv_abs ex_live (ex_after ex_server 29) ''wf-2'' ''a''" by simp
  have "fst (the (kv_DeleteNamespace ex_redis ex_server ''wf-1'')) = None"
    by (simp add: kv_DeleteNamespace_def kv_delete_loop.simps ex_scan) (simp add: ex_redis_def)
  moreover from laws [where ns' = "''wf-1''" and d = 0 and key' = "''b''"] ex_plain
  obtain res r' where "kv_DeleteNamespace ex_redis ex_server ''wf-1'' = Some (res, r')"
    "res = None \<longrightarrow> kv_abs ex_live (ex_after r' 0) ''wf-1'' ''b'' = None" by auto
  ultimately show "\<exists>r'. kv_DeleteNamespace ex_redis ex_server ''wf-1'' = Some (None, r') \<and> kv_abs ex_live r' ''wf-1'' ''b'' = None"
    using after_0 [OF ex_writes] by simp
qed

theorem kv_colon_collision_witness:
  "kv_abs ex_live (ex_put ex_server (KVKey ''wf:1'' ''a'') ''1'' 0) ''wf'' ''1:a'' = Some ''1''"
proof -
  have "kv_Set ex_redis ex_server (''wf'' @ '':'' @ ''1'') ''a'' ''1'' 0 = (None, ex_put ex_server (KVKey ''wf:1'' ''a'') ''1'' 0)"
    by (simp add: kv_Set_def ex_redis_def)
  from kv_colon_collision [OF ex_redis_ok this] show ?thesis by simp
qed


theorem mget_mset_witness:
  "\<exists>entries. h_MGet ex_redis ex_server None ''wf-1'' [''b'', ''c''] = Inr entries \<and> set entries = {(''b'', ''2'')}"
proof -
  have "\<exists>entries. h_MGet ex_redis ex_server None ''wf-1'' [''b'', ''c''] = Inr entries"
    by (simp add: h_MGet_def kv_MGet_def ex_redis_def guarded_def requireNamespace_def ValidateAccess_def)
  then obtain entries where e: "h_MGet ex_redis ex_server None ''wf-1'' [''b'', ''c''] = Inr entries" by blast
  have "kv_abs ex_live ex_server ''wf-1'' ''b'' = Some ''2''" "kv_abs ex_live ex_server ''wf-1'' ''c'' = None"
    by code_simp+
  then have "{(k, v). k \<in> set [''b'', ''c''] \<and> kv_abs ex_live ex_server ''wf-1'' k = Some v} = {(''b'', ''2'')}" by auto
  with mget_mset [OF ex_redis_ok order.refl ex_plain(1,1), THEN conjunct1, THEN spec, THEN mp, OF e] e show ?thesis by simp
qed

theorem listkeys_prefix_literal_witness:
  "\<exists>ks. h_ListKeys ex_redis ex_set None ''wf-1'' ''a'' = Some (Inr ks) \<and> set ks = {''a''}"
proof -
  have plain: "glob_plain ''wf-1''" "glob_plain ''a''" "''a'' \<noteq> ''''" by code_simp+
  have "kv_abs ex_live ex_set ''wf-1'' ''a'' \<noteq> None" by code_simp
  with listkeys_prefix_literal [OF ex_redis_ok plain, of ex_set None]
  obtain res where "h_ListKeys ex_redis ex_set None ''wf-1'' ''a'' = Some res"
    "\<And>ks. res = Inr ks \<Longrightarrow> set ks = {''a''}" by auto
  moreover have "\<exists>ks. h_ListKeys ex_redis ex_set None ''wf-1'' ''a'' = Some (Inr ks)"
    by (simp add: h_ListKeys_def kv_ListKeys_def guarded_def requireNamespace_def ValidateAccess_def Let_def)
       (subst kv_list_loop.simps, simp add: ex_scan Let_def)
  ultimately show ?thesis by auto
qed

section \<open>A table\<close>

type_synonym ex_table = "((string \<times> string) \<times> float64 list \<times> string) list"

definition ex_distance :: "float64 list \<Rightarrow> float64 list \<Rightarrow> float64" where
  "ex_distance v w = (if v = w then FFin 0 else FFin 1)"

fun ex_exec :: "ex_table \<Rightarrow> string \<Rightarrow> pg_arg list \<Rightarrow> pg_err option \<times> ex_table" where
  "ex_exec p sql [PgText i, PgText ns, PgVector v, PgBytes m] = (None, gm_put (ns, i) (v, m) p)"
| "ex_exec p sql [PgText ns, PgText i] = (None, gm_del (ns, i) p)"
| "ex_exec p sql args = (Some (PgErr ''arguments''), p)"

text \<open>The first row of the namespace, if there is one.\<close>

fun ex_query :: "ex_table \<Rightarrow> string \<Rightarrow> pg_arg list \<Rightarrow> pg_err + pg_rows" where
  "ex_query p sql [PgVector v, PgText ns] =
     Inr (case find (\<lambda>((ns', i), w, m). ns' = ns \<and> map_of p (ns', i) = Some (w, m)) p of
            None \<Rightarrow> []
          | Some ((_, i), w, m) \<Rightarrow> [Inr (i, ex_distance v w, m)], None)"
| "ex_query p sql args = Inl (PgErr ''arguments'')"

definition ex_pg :: "ex_table pg" where
  "ex_pg = \<lparr>pg_Exec = ex_exec, pg_Query = ex_query\<rparr>"

definition ex_rows :: "ex_table \<Rightarrow> vector_table" where
  "ex_rows p ns i = map_option (\<lambda>(v, m). (v, meta_map m)) (map_of p (ns, i))"

lemma ex_pg_ok: "pg_ok ex_pg ex_rows ex_distance"
  unfolding pg_ok_def
proof (intro conjI allI impI)
  show "ex_rows p' = (ex_rows p)(ns := (ex_rows p ns)(i \<mapsto> (v, meta_map m)))"
    if "pg_Exec ex_pg p store_sql [PgText i, PgText ns, PgVector v, PgBytes m] = (None, p')" for p i ns v m p'
    using that by (auto simp: ex_pg_def ex_rows_def fun_eq_iff)
  show "ex_rows p' = (ex_rows p)(ns := (ex_rows p ns)(i := None))"
    if "pg_Exec ex_pg p delete_sql [PgText ns, PgText i] = (None, p')" for p i ns p'
    using that by (auto simp: ex_pg_def ex_rows_def fun_eq_iff)
  fix p ns v k and rows :: "(string \<times> float64 \<times> string) list"
  assume k: "(0::int) < k" and q: "pg_Query ex_pg p (fst (buildFilterClause '''' ns v k)) [PgVector v, PgText ns] = Inr (map Inr rows, None)"
  let ?f = "find (\<lambda>((ns', i), w, m). ns' = ns \<and> map_of p (ns', i) = Some (w, m)) p"
  have "rows = [] \<or> (\<exists>i w m. rows = [(i, ex_distance v w, m)] \<and> ex_rows p ns i = Some (w, meta_map m))"
  proof (cases ?f)
    case None
    then show ?thesis using q by (simp add: ex_pg_def)
  next
    case (Some x)
    obtain ns' i w m where x: "x = ((ns', i), w, m)" by (metis prod.exhaust)
    have "ns' = ns \<and> map_of p (ns', i) = Some (w, m)" using Some x by (auto simp: find_Some_iff)
    moreover have "rows = [(i, ex_distance v w, m)]" using q Some x by (auto simp: ex_pg_def)
    ultimately show ?thesis by (auto simp: ex_rows_def)
  qed
  then show "length rows \<le> nat k" "sorted_wrt (\<lambda>(_, s, _) (_, s', _). \<not> f_lt s' s) rows"
    "\<forall>(i, s, m) \<in> set rows. \<exists>w. ex_rows p ns i = Some (w, meta_map m) \<and> s = ex_distance v w"
    using k by auto
qed

definition ex_stored :: ex_table where
  "ex_stored = [((''wf-1'', ''u''), [FFin 1], marshalMetadata (Some [(''text'', ''hi'')]))]"


end
