(* ===== verification/Engine_Service.thy ===== *)
theory Engine_Service
  imports Engine_Interpreter "HOL-Library.Word"
begin

text \<open>
  The service around the interpreter (\<^verbatim>\<open>services/engine-adapter/internal\<close>): runs, statuses and events
  (\<^verbatim>\<open>domain/model.go\<close>, \<^verbatim>\<open>domain/history.go\<close>, \<^verbatim>\<open>domain/errors.go\<close>), the port every engine implements
  (\<^verbatim>\<open>domain/engine.go\<close>), the engine over Temporal (\<^verbatim>\<open>infrastructure/temporal.go\<close>,
  \<^verbatim>\<open>infrastructure/temporal_workflow.go\<close>) and the gRPC handler (\<^verbatim>\<open>api/handler.go\<close>).

  The Temporal client is a parameter: the answers of its calls.  A stream of events is the list
  of the events sent, and \<open>None\<close> a watch that is still waiting.
\<close>

section \<open>Runs, statuses, events\<close>

type_synonym WorkflowStatus = "32 word"

definition WorkflowStatusUnspecified :: WorkflowStatus where "WorkflowStatusUnspecified = 0"
definition WorkflowStatusPending :: WorkflowStatus where "WorkflowStatusPending = 1"
definition WorkflowStatusRunning :: WorkflowStatus where "WorkflowStatusRunning = 2"
definition WorkflowStatusCompleted :: WorkflowStatus where "WorkflowStatusCompleted = 3"
definition WorkflowStatusFailed :: WorkflowStatus where "WorkflowStatusFailed = 4"
definition WorkflowStatusCancelled :: WorkflowStatus where "WorkflowStatusCancelled = 5"

lemmas workflow_status_defs = WorkflowStatusUnspecified_def WorkflowStatusPending_def WorkflowStatusRunning_def
  WorkflowStatusCompleted_def WorkflowStatusFailed_def WorkflowStatusCancelled_def

definition status_IsTerminal :: "WorkflowStatus \<Rightarrow> bool" where
  "status_IsTerminal s \<longleftrightarrow> s = WorkflowStatusCompleted \<or> s = WorkflowStatusFailed \<or> s = WorkflowStatusCancelled"

record WorkflowRun =
  wr_RunID :: string
  wr_WorkflowID :: string
  wr_Namespace :: string
  wr_Status :: WorkflowStatus
  wr_CurrentState :: string
  wr_Engine :: string
  wr_Labels :: "(string, string) gomap"
  wr_SubmittedAt :: int
  wr_StartedAt :: int
  wr_FinishedAt :: int
  wr_CancellationReason :: string
  wr_Outputs :: "(string, string) gomap"

record WorkflowEvent =
  ev_RunID :: string
  ev_EventID :: int
  ev_EventType :: string
  ev_FromState :: string
  ev_ToState :: string
  ev_Status :: WorkflowStatus
  ev_Payload :: string
  ev_Timestamp :: int

type_synonym HistoryEventType = "32 word"

definition HistoryEventUnspecified :: HistoryEventType where "HistoryEventUnspecified = 0"
definition HistoryEventWorkflowStarted :: HistoryEventType where "HistoryEventWorkflowStarted = 1"
definition HistoryEventWorkflowCompleted :: HistoryEventType where "HistoryEventWorkflowCompleted = 2"
definition HistoryEventWorkflowFailed :: HistoryEventType where "HistoryEventWorkflowFailed = 3"
definition HistoryEventWorkflowTimedOut :: HistoryEventType where "HistoryEventWorkflowTimedOut = 4"
definition HistoryEventWorkflowCanceled :: HistoryEventType where "HistoryEventWorkflowCanceled = 21"
definition HistoryEventWorkflowTerminated :: HistoryEventType where "HistoryEventWorkflowTerminated = 27"
definition HistoryEventWorkflowContinuedNew :: HistoryEventType where "HistoryEventWorkflowContinuedNew = 28"

lemmas history_event_defs = HistoryEventUnspecified_def HistoryEventWorkflowStarted_def HistoryEventWorkflowCompleted_def
  HistoryEventWorkflowFailed_def HistoryEventWorkflowTimedOut_def HistoryEventWorkflowCanceled_def
  HistoryEventWorkflowTerminated_def HistoryEventWorkflowContinuedNew_def

definition HistoryEventStatus :: "HistoryEventType \<Rightarrow> WorkflowStatus" where
  "HistoryEventStatus t =
     (if t = HistoryEventWorkflowStarted then WorkflowStatusRunning
      else if t = HistoryEventWorkflowCompleted then WorkflowStatusCompleted
      else if t = HistoryEventWorkflowFailed \<or> t = HistoryEventWorkflowTimedOut then WorkflowStatusFailed
      else if t = HistoryEventWorkflowCanceled \<or> t = HistoryEventWorkflowTerminated then WorkflowStatusCancelled
      else if t = HistoryEventWorkflowContinuedNew then WorkflowStatusCompleted
      else WorkflowStatusRunning)"

definition IsTerminalHistoryEvent :: "HistoryEventType \<Rightarrow> bool" where
  "IsTerminalHistoryEvent t \<longleftrightarrow>
     t \<in> {HistoryEventWorkflowCompleted, HistoryEventWorkflowFailed, HistoryEventWorkflowTimedOut,
          HistoryEventWorkflowCanceled, HistoryEventWorkflowTerminated, HistoryEventWorkflowContinuedNew}"

section \<open>The engine port\<close>

text \<open>The errors of the clients; an error may wrap the error of the context.\<close>

datatype temporal_err = TemporalNotFound | TemporalCtx ctx_error | TemporalErr string
datatype argo_err = ArgoNotFound | ArgoCtx ctx_error | ArgoErr string

datatype wf_err =
    ErrEngineUnavailable | ErrExecutionNotFound | ErrTerminalState
  | CtxFailure ctx_error | TemporalFailure temporal_err | ArgoFailure argo_err | SendFailure string

type_synonym wf_error = "wf_err go_error"

fun temporal_cause :: "temporal_err \<Rightarrow> wf_err" where
  "temporal_cause (TemporalCtx c) = CtxFailure c"
| "temporal_cause err = TemporalFailure err"

text \<open>The callback of a watch: the error of sending one more event after those sent already.\<close>

type_synonym sender = "WorkflowEvent list \<Rightarrow> WorkflowEvent \<Rightarrow> string option"

record 's workflow_engine =
  en_Submit :: "'s \<Rightarrow> WorkflowIR \<Rightarrow> (string, string) gomap \<Rightarrow> int \<Rightarrow> (wf_error + WorkflowRun) \<times> 's"
  en_Signal :: "'s \<Rightarrow> string \<Rightarrow> string \<Rightarrow> string \<Rightarrow> wf_error option \<times> 's"
  en_Cancel :: "'s \<Rightarrow> string \<Rightarrow> string \<Rightarrow> wf_error option \<times> 's"
  en_GetStatus :: "'s \<Rightarrow> string \<Rightarrow> wf_error + WorkflowRun"
  en_Watch :: "'s \<Rightarrow> string \<Rightarrow> sender \<Rightarrow> (wf_error option \<times> WorkflowEvent list) option"

section \<open>Temporal\<close>

datatype temporal_status =
    EXECUTION_UNSPECIFIED | EXECUTION_RUNNING | EXECUTION_COMPLETED | EXECUTION_FAILED | EXECUTION_CANCELED
  | EXECUTION_TERMINATED | EXECUTION_CONTINUED_AS_NEW | EXECUTION_TIMED_OUT

record history_event =
  hev_EventId :: int
  hev_EventType :: HistoryEventType
  hev_TypeName :: string
  hev_EventTime :: "int option"

text \<open>The calls of the Temporal client.  \<open>tc_GetWorkflowHistory\<close> is what the long-poll iterator
  yields until it has no next event.\<close>

record 't temporal_client =
  tc_ExecuteWorkflow :: "'t \<Rightarrow> string \<Rightarrow> string \<Rightarrow> WorkflowIR \<Rightarrow> temporal_err option \<times> 't"
  tc_SignalWorkflow :: "'t \<Rightarrow> string \<Rightarrow> string \<Rightarrow> string \<Rightarrow> temporal_err option \<times> 't"
  tc_CancelWorkflow :: "'t \<Rightarrow> string \<Rightarrow> temporal_err option \<times> 't"
  tc_DescribeWorkflowExecution :: "'t \<Rightarrow> string \<Rightarrow> temporal_err + temporal_status option"
  tc_GetWorkflow :: "'t \<Rightarrow> string \<Rightarrow> temporal_err + (string, string) gomap"
  tc_GetWorkflowHistory :: "'t \<Rightarrow> string \<Rightarrow> (temporal_err + history_event) list option"

definition temporal_Submit ::
  "'t temporal_client \<Rightarrow> string \<Rightarrow> string \<Rightarrow> 't \<Rightarrow> WorkflowIR \<Rightarrow> (string, string) gomap \<Rightarrow> int \<Rightarrow> (wf_error + WorkflowRun) \<times> 't" where
  "temporal_Submit T taskQueue namespace t ir labels now =
     (case tc_ExecuteWorkflow T t (ir_WorkflowId ir) taskQueue ir of
        (Some err, t') \<Rightarrow> (Inl (Wrapf ''engine-adapter: start workflow %q: %w'' [FS (ir_WorkflowId ir)] (Typed (temporal_cause err))), t')
      | (None, t') \<Rightarrow>
          (Inr \<lparr>wr_RunID = ir_WorkflowId ir, wr_WorkflowID = ir_WorkflowId ir, wr_Namespace = namespace,
                wr_Status = WorkflowStatusPending, wr_CurrentState = '''', wr_Engine = ''temporal'', wr_Labels = labels,
                wr_SubmittedAt = 0, wr_StartedAt = 0, wr_FinishedAt = 0, wr_CancellationReason = '''', wr_Outputs = []\<rparr>, t'))"

definition temporal_Signal :: "'t temporal_client \<Rightarrow> 't \<Rightarrow> string \<Rightarrow> string \<Rightarrow> string \<Rightarrow> wf_error option \<times> 't" where
  "temporal_Signal T t runID eventType payload =
     (case tc_SignalWorkflow T t runID eventType payload of
        (Some err, t') \<Rightarrow>
          (if err = TemporalNotFound then Some (Typed ErrExecutionNotFound)
           else Some (Wrapf ''engine-adapter: signal workflow %q: %w'' [FS runID] (Typed (temporal_cause err))), t')
      | (None, t') \<Rightarrow> (None, t'))"

definition temporal_Cancel :: "'t temporal_client \<Rightarrow> 't \<Rightarrow> string \<Rightarrow> string \<Rightarrow> wf_error option \<times> 't" where
  "temporal_Cancel T t runID reason =
     (case tc_CancelWorkflow T t runID of
        (Some err, t') \<Rightarrow>
          (if err = TemporalNotFound then Some (Typed ErrExecutionNotFound)
           else Some (Wrapf ''engine-adapter: cancel workflow %q: %w'' [FS runID] (Typed (temporal_cause err))), t')
      | (None, t') \<Rightarrow> (None, t'))"

fun temporalStatusToDomain :: "temporal_status \<Rightarrow> WorkflowStatus" where
  "temporalStatusToDomain EXECUTION_RUNNING = WorkflowStatusRunning"
| "temporalStatusToDomain EXECUTION_COMPLETED = WorkflowStatusCompleted"
| "temporalStatusToDomain EXECUTION_FAILED = WorkflowStatusFailed"
| "temporalStatusToDomain EXECUTION_TIMED_OUT = WorkflowStatusFailed"
| "temporalStatusToDomain EXECUTION_CANCELED = WorkflowStatusCancelled"
| "temporalStatusToDomain EXECUTION_TERMINATED = WorkflowStatusCancelled"
| "temporalStatusToDomain _ = WorkflowStatusPending"

definition describeToWorkflowRun :: "temporal_status option \<Rightarrow> string \<Rightarrow> string \<Rightarrow> WorkflowRun" where
  "describeToWorkflowRun info runID namespace =
     \<lparr>wr_RunID = runID, wr_WorkflowID = runID, wr_Namespace = namespace,
      wr_Status = (case info of None \<Rightarrow> WorkflowStatusPending | Some s \<Rightarrow> temporalStatusToDomain s),
      wr_CurrentState = '''', wr_Engine = ''temporal'', wr_Labels = [], wr_SubmittedAt = 0, wr_StartedAt = 0,
      wr_FinishedAt = 0, wr_CancellationReason = '''', wr_Outputs = []\<rparr>"

definition temporal_GetStatus :: "'t temporal_client \<Rightarrow> string \<Rightarrow> 't \<Rightarrow> string \<Rightarrow> wf_error + WorkflowRun" where
  "temporal_GetStatus T namespace t runID =
     (case tc_DescribeWorkflowExecution T t runID of
        Inl err \<Rightarrow>
          if err = TemporalNotFound then Inl (Typed ErrExecutionNotFound)
          else Inl (Wrapf ''engine-adapter: describe workflow %q: %w'' [FS runID] (Typed (temporal_cause err)))
      | Inr info \<Rightarrow>
          let run = describeToWorkflowRun info runID namespace in
          if wr_Status run = WorkflowStatusCompleted
          then (case tc_GetWorkflow T t runID of
                  Inl gerr \<Rightarrow> Inr run
                | Inr outputs \<Rightarrow> Inr (run\<lparr>wr_Outputs := outputs\<rparr>))
          else Inr run)"

definition historyEventToWorkflowEvent :: "history_event \<Rightarrow> string \<Rightarrow> WorkflowEvent" where
  "historyEventToWorkflowEvent hev runID =
     \<lparr>ev_RunID = runID, ev_EventID = hev_EventId hev, ev_EventType = hev_TypeName hev, ev_FromState = '''', ev_ToState = '''',
      ev_Status = HistoryEventStatus (hev_EventType hev), ev_Payload = '''',
      ev_Timestamp = (case hev_EventTime hev of None \<Rightarrow> 0 | Some t \<Rightarrow> t)\<rparr>"

text \<open>The loop over the history; \<open>ctx\<close> is the error of the context when an iteration fails.\<close>

fun temporal_watch ::
  "string \<Rightarrow> ctx_error option \<Rightarrow> sender \<Rightarrow> WorkflowEvent list \<Rightarrow> (temporal_err + history_event) list \<Rightarrow> wf_error option \<times> WorkflowEvent list" where
  "temporal_watch runID ctx send sent [] = (None, sent)"
| "temporal_watch runID ctx send sent (Inl err # hevs) =
     (if err = TemporalNotFound then (Some (Typed ErrExecutionNotFound), sent)
      else case ctx of
          Some ctxErr \<Rightarrow> (Some (Wrapf ''engine-adapter: %w'' [] (Typed (CtxFailure ctxErr))), sent)
        | None \<Rightarrow> (Some (Wrapf ''engine-adapter: workflow history %q: %w'' [FS runID] (Typed (temporal_cause err))), sent))"
| "temporal_watch runID ctx send sent (Inr hev # hevs) =
     (let ev = historyEventToWorkflowEvent hev runID in
      case send sent ev of
        Some err \<Rightarrow> (Some (Wrapf ''engine-adapter: send event: %w'' [] (Typed (SendFailure err))), sent)
      | None \<Rightarrow> if IsTerminalHistoryEvent (hev_EventType hev) then (None, sent @ [ev])
                else temporal_watch runID ctx send (sent @ [ev]) hevs)"

definition TemporalEngine :: "'t temporal_client \<Rightarrow> ctx_error option \<Rightarrow> string \<Rightarrow> string \<Rightarrow> 't workflow_engine" where
  "TemporalEngine T ctx taskQueue namespace =
     \<lparr>en_Submit = temporal_Submit T taskQueue namespace,
      en_Signal = temporal_Signal T,
      en_Cancel = temporal_Cancel T,
      en_GetStatus = temporal_GetStatus T namespace,
      en_Watch = (\<lambda>t runID send. map_option (temporal_watch runID ctx send []) (tc_GetWorkflowHistory T t runID))\<rparr>"

section \<open>The workflow function\<close>

definition defaultActivityTimeout :: int where "defaultActivityTimeout = 5 * 60 * 1000000000"
definition DefaultActivityMaxAttempts :: int where "DefaultActivityMaxAttempts = 3"

definition nonRetryableActivityErrors :: "string list" where
  "nonRetryableActivityErrors = [''ErrCapabilityNotFound'', ''ErrTaskTerminal'', ''ErrInvalidArgument'']"

text \<open>The options of an activity: the timeout from its start to its end, the intervals between
  attempts, their number and the errors that end them.\<close>

record activity_options =
  ao_StartToCloseTimeout :: int
  ao_InitialInterval :: int
  ao_BackoffCoefficient :: nat
  ao_MaximumInterval :: int
  ao_MaximumAttempts :: int
  ao_NonRetryableErrorTypes :: "string list"

definition dispatch_options :: "ActivityInput \<Rightarrow> activity_options" where
  "dispatch_options inp =
     (let timeout = in_TimeoutSeconds inp * 1000000000 in
      \<lparr>ao_StartToCloseTimeout = (if timeout \<le> 0 then defaultActivityTimeout else timeout),
       ao_InitialInterval = 1000000000, ao_BackoffCoefficient = 2, ao_MaximumInterval = 30 * 1000000000,
       ao_MaximumAttempts = DefaultActivityMaxAttempts, ao_NonRetryableErrorTypes = nonRetryableActivityErrors\<rparr>)"

definition publish_options :: activity_options where
  "publish_options = \<lparr>ao_StartToCloseTimeout = 5 * 1000000000, ao_InitialInterval = 0, ao_BackoffCoefficient = 0,
     ao_MaximumInterval = 0, ao_MaximumAttempts = 1, ao_NonRetryableErrorTypes = []\<rparr>"

text \<open>The ports of the interpreter over Temporal: \<open>act\<close> answers the activities.  An event that
  cannot be published is no error.\<close>

definition temporal_env ::
  "(effect list \<Rightarrow> activity_options \<Rightarrow> ActivityInput \<Rightarrow> string + ActivityResult) \<Rightarrow> engine_env \<Rightarrow> engine_env" where
  "temporal_env act base = base\<lparr>
     e_exec := (\<lambda>tr inp. case act tr (dispatch_options inp) inp of
        Inl err \<Rightarrow> Inl (Errorf ''engine-adapter: %w'' [FS err])
      | Inr result \<Rightarrow> Inr result),
     e_pub := (\<lambda>tr e. None)\<rparr>"

definition IRInterpreterWorkflow ::
  "(effect list \<Rightarrow> activity_options \<Rightarrow> ActivityInput \<Rightarrow> string + ActivityResult) \<Rightarrow> engine_env \<Rightarrow> WorkflowIR \<Rightarrow> nat \<Rightarrow>
   ((eng_error + (string, string) gomap) \<times> effect list) option" where
  "IRInterpreterWorkflow act base ir turns =
     map_option (\<lambda>(res, tr). (case res of Inl err \<Rightarrow> Inl (Wrapf ''engine-adapter: %w'' [] err) | Inr outputs \<Rightarrow> Inr outputs, tr))
       (Run (temporal_env act base) ir turns)"

section \<open>The gRPC handler\<close>

record WorkflowRunPb =
  pr_RunId :: string
  pr_WorkflowId :: string
  pr_Namespace :: string
  pr_Status :: "32 word"
  pr_CurrentState :: string
  pr_Engine :: string
  pr_Labels :: "(string, string) gomap"
  pr_SubmittedAt :: "int option"
  pr_StartedAt :: "int option"
  pr_FinishedAt :: "int option"
  pr_CancellationReason :: string
  pr_Outputs :: "(string, string) gomap"

record WorkflowEventPb =
  pe_RunId :: string
  pe_EventType :: string
  pe_FromState :: string
  pe_ToState :: string
  pe_Status :: "32 word"
  pe_Payload :: string
  pe_Timestamp :: "int option"

definition ts_or_nil :: "int \<Rightarrow> int option" where
  "ts_or_nil t = (if t = 0 then None else Some t)"

definition runToProto :: "WorkflowRun \<Rightarrow> WorkflowRunPb" where
  "runToProto r =
     \<lparr>pr_RunId = wr_RunID r, pr_WorkflowId = wr_WorkflowID r, pr_Namespace = wr_Namespace r, pr_Status = wr_Status r,
      pr_CurrentState = wr_CurrentState r, pr_Engine = wr_Engine r, pr_Labels = wr_Labels r,
      pr_SubmittedAt = ts_or_nil (wr_SubmittedAt r), pr_StartedAt = ts_or_nil (wr_StartedAt r),
      pr_FinishedAt = ts_or_nil (wr_FinishedAt r), pr_CancellationReason = wr_CancellationReason r, pr_Outputs = wr_Outputs r\<rparr>"

definition eventToProto :: "WorkflowEvent \<Rightarrow> WorkflowEventPb" where
  "eventToProto ev =
     \<lparr>pe_RunId = ev_RunID ev, pe_EventType = ev_EventType ev, pe_FromState = ev_FromState ev, pe_ToState = ev_ToState ev,
      pe_Status = ev_Status ev, pe_Payload = ev_Payload ev, pe_Timestamp = Some (ev_Timestamp ev)\<rparr>"

type_synonym wf_rpc = "grpc_code \<times> wf_error"

definition engine_grpcErr :: "wf_error \<Rightarrow> wf_rpc" where
  "engine_grpcErr err =
     (if errors_Is err ErrExecutionNotFound then (NotFound, err)
      else if errors_Is err ErrTerminalState then (FailedPrecondition, err)
      else if errors_Is err ErrEngineUnavailable then (Unavailable, err)
      else if errors_Is err (CtxFailure CtxCanceled) then (Canceled, err)
      else if errors_Is err (CtxFailure CtxDeadlineExceeded) then (DeadlineExceeded, err)
      else (Internal, err))"

definition run_id_required :: wf_rpc where
  "run_id_required = (InvalidArgument, Errorf ''run_id is required'' [])"

definition eh_SubmitWorkflow ::
  "'s workflow_engine \<Rightarrow> 's \<Rightarrow> WorkflowIR option \<Rightarrow> (string, string) gomap \<Rightarrow> int \<Rightarrow> (wf_rpc + string \<times> int) \<times> 's" where
  "eh_SubmitWorkflow E s ir labels now =
     (case ir of
        None \<Rightarrow> (Inl (InvalidArgument, Errorf ''workflow_ir is required'' []), s)
      | Some ir \<Rightarrow>
          (case en_Submit E s ir labels now of
             (Inl err, s') \<Rightarrow> (Inl (engine_grpcErr err), s')
           | (Inr run, s') \<Rightarrow> (Inr (wr_RunID run, now), s')))"

definition eh_SignalWorkflow :: "'s workflow_engine \<Rightarrow> 's \<Rightarrow> string \<Rightarrow> string \<Rightarrow> string \<Rightarrow> int \<Rightarrow> (wf_rpc + int) \<times> 's" where
  "eh_SignalWorkflow E s runID eventType payload now =
     (if runID = '''' then (Inl run_id_required, s)
      else case en_Signal E s runID eventType payload of
          (Some err, s') \<Rightarrow> (Inl (engine_grpcErr err), s')
        | (None, s') \<Rightarrow> (Inr now, s'))"

definition eh_CancelWorkflow :: "'s workflow_engine \<Rightarrow> 's \<Rightarrow> string \<Rightarrow> string \<Rightarrow> int \<Rightarrow> (wf_rpc + int) \<times> 's" where
  "eh_CancelWorkflow E s runID reason now =
     (if runID = '''' then (Inl run_id_required, s)
      else case en_Cancel E s runID reason of
          (Some err, s') \<Rightarrow> (Inl (engine_grpcErr err), s')
        | (None, s') \<Rightarrow> (Inr now, s'))"

definition eh_GetWorkflowStatus :: "'s workflow_engine \<Rightarrow> 's \<Rightarrow> string \<Rightarrow> wf_rpc + WorkflowRunPb" where
  "eh_GetWorkflowStatus E s runID =
     (if runID = '''' then Inl run_id_required
      else case en_GetStatus E s runID of Inl err \<Rightarrow> Inl (engine_grpcErr err) | Inr run \<Rightarrow> Inr (runToProto run))"

text \<open>The stream of events and its status: \<open>None\<close> is OK.\<close>

definition eh_WatchWorkflow ::
  "'s workflow_engine \<Rightarrow> 's \<Rightarrow> string \<Rightarrow> sender \<Rightarrow> (wf_rpc option \<times> WorkflowEventPb list) option" where
  "eh_WatchWorkflow E s runID send =
     (if runID = '''' then Some (Some run_id_required, [])
      else map_option (\<lambda>(err, sent). (map_option engine_grpcErr err, map eventToProto sent)) (en_Watch E s runID send))"

end
