(* ===== verification/Engine_Lifecycle.thy ===== *)
theory Engine_Lifecycle
  imports Engine_Service Events_Client
begin

text \<open>
  The activities of the engine adapter (\<^verbatim>\<open>services/engine-adapter/internal/infrastructure\<close>): the
  classification of a failed dispatch (\<^verbatim>\<open>activity_dispatch.go\<close>), the quota at dispatch time
  (\<^verbatim>\<open>quota_check.go\<close>) and the publication of lifecycle events (\<^verbatim>\<open>activities.go\<close>); and what a follower of
  the workflow sees of a run.
\<close>

section \<open>Dispatch errors\<close>

text \<open>The error of a dispatch: a chain that may end in the status of an RPC.\<close>

type_synonym dispatch_error = "grpc_code go_error"

text \<open>\<^verbatim>\<open>status.FromError\<close> looks for a status anywhere in the chain.\<close>

definition status_FromError :: "dispatch_error \<Rightarrow> grpc_code option" where
  "status_FromError err = errors_cause err"

text \<open>The walk along \<^verbatim>\<open>errors.Unwrap\<close>.\<close>

fun unwrap_loop :: "dispatch_error option \<Rightarrow> bool" where
  "unwrap_loop None = False"
| "unwrap_loop (Some (Wrapf f as e)) = (status_FromError (Wrapf f as e) = Some NotFound \<or> unwrap_loop (Some e))"
| "unwrap_loop (Some e) = (status_FromError e = Some NotFound)"

definition isCapabilityNotFound :: "dispatch_error option \<Rightarrow> bool" where
  "isCapabilityNotFound err =
     (case err of None \<Rightarrow> False | Some e \<Rightarrow> status_FromError e = Some NotFound \<or> unwrap_loop (Some e))"

definition capabilityNotFoundErrorType :: string where
  "capabilityNotFoundErrorType = ''ErrCapabilityNotFound''"

text \<open>What Temporal gets: an application error with a type, not to be retried, or any other error.\<close>

datatype activity_error = NonRetryableApplicationError string dispatch_error | ActivityError dispatch_error

definition da_DispatchCapabilityActivity :: "dispatch_error + ActivityResult \<Rightarrow> activity_error + ActivityResult" where
  "da_DispatchCapabilityActivity answer =
     (case answer of
        Inr result \<Rightarrow> Inr result
      | Inl err \<Rightarrow>
          if isCapabilityNotFound (Some err) then Inl (NonRetryableApplicationError capabilityNotFoundErrorType err)
          else Inl (ActivityError (Wrapf ''engine-adapter: dispatch capability: %w'' [] err)))"

lemma unwrap_loop_iff: "unwrap_loop (Some e) \<longleftrightarrow> errors_cause e = Some NotFound"
  by (induction e) (simp_all add: status_FromError_def)

lemma isCapabilityNotFound_iff: "isCapabilityNotFound (Some e) \<longleftrightarrow> errors_cause e = Some NotFound"
  by (simp add: isCapabilityNotFound_def unwrap_loop_iff status_FromError_def)

section \<open>Quota\<close>

record CapabilityQuotaConfig =
  quota_Namespace :: string
  quota_MaxConcurrent :: "32 word"

record QuotaChecker =
  qc_quotaConfigs :: "(string, CapabilityQuotaConfig) gomap"
  qc_counter :: "(string \<Rightarrow> string + 32 word) option"

definition NewQuotaChecker :: "CapabilityQuotaConfig list \<Rightarrow> (string \<Rightarrow> string + 32 word) option \<Rightarrow> QuotaChecker" where
  "NewQuotaChecker quotas counter =
     \<lparr>qc_quotaConfigs = fold (\<lambda>q m. if quota_Namespace q \<noteq> '''' then gm_put (quota_Namespace q) q m else m) quotas [],
      qc_counter = counter\<rparr>"

definition qc_Check :: "QuotaChecker \<Rightarrow> string \<Rightarrow> (grpc_code \<times> farg list) option" where
  "qc_Check qc namespace =
     (case qc_counter qc of
        None \<Rightarrow> None
      | Some counter \<Rightarrow>
          (case map_of (qc_quotaConfigs qc) namespace of
             None \<Rightarrow> None
           | Some quota \<Rightarrow>
               if quota_MaxConcurrent quota = 0 then None
               else case counter namespace of
                   Inl err \<Rightarrow> None
                 | Inr active \<Rightarrow>
                     if quota_MaxConcurrent quota \<le>s active
                     then Some (ResourceExhausted, [FS namespace, FI (sint active), FI (sint (quota_MaxConcurrent quota))])
                     else None))"

section \<open>Lifecycle events\<close>

definition lifecycleTopicPrefix :: string where
  "lifecycleTopicPrefix = ''zynax.v1.engine-adapter.workflow.''"

definition lifecycleTopic :: "string \<Rightarrow> string" where
  "lifecycleTopic eventType = lifecycleTopicPrefix @ TrimPrefix eventType ''zynax.workflow.''"

text \<open>\<open>i\<close> is the new UUID and \<open>now\<close> the clock.\<close>

definition lifecycle_event :: "string \<times> int \<Rightarrow> string \<Rightarrow> string \<Rightarrow> string option \<Rightarrow> CloudEvent" where
  "lifecycle_event stamp eventType workflowID payload =
     \<lparr>ce_ID = fst stamp, ce_Source = ''/zynax/engine-adapter/'' @ workflowID, ce_SpecVersion = ''1.0'', ce_Type = lifecycleTopic eventType,
      ce_DataContentType = ''application/json'', ce_Time = snd stamp,
      ce_Data = (case payload of None \<Rightarrow> '''' | Some p \<Rightarrow> p), ce_WorkflowID = workflowID, ce_RunID = '''', ce_Namespace = '''',
      ce_CapabilityName = ''''\<rparr>"

text \<open>An event that cannot be published is no error of the activity.\<close>

definition PublishLifecycleEventActivity ::
  "('j \<Rightarrow> CloudEvent \<Rightarrow> (events_error + string) \<times> 'j) \<Rightarrow> 'j \<Rightarrow> string \<times> int \<Rightarrow> string \<Rightarrow> string \<Rightarrow> string \<Rightarrow> string option \<Rightarrow>
   events_error option \<times> 'j" where
  "PublishLifecycleEventActivity publish s stamp eventType workflowID stateID payload =
     (case publish s (lifecycle_event stamp eventType workflowID payload) of
        (Inl err, s') \<Rightarrow> (None, s')
      | (Inr eventID, s') \<Rightarrow> (None, s'))"

section \<open>Properties of the quota and of the retries\<close>

lemma find_over_append: "find P (xs @ ys) = (case find P xs of None \<Rightarrow> find P ys | Some x \<Rightarrow> Some x)"
  by (induction xs) auto

lemma quota_configs:
  "map_of (fold (\<lambda>q m. if quota_Namespace q \<noteq> '''' then gm_put (quota_Namespace q) q m else m) quotas m0) ns =
     (case find (\<lambda>q. quota_Namespace q = ns) (rev quotas) of
        Some q \<Rightarrow> if ns \<noteq> '''' then Some q else map_of m0 ns | None \<Rightarrow> map_of m0 ns)"
  by (induction quotas arbitrary: m0) (auto simp: find_over_append split: option.splits)

text \<open>A dispatch is refused exactly when a counter is configured, the last quota given for the
  (non-empty) namespace is not zero, and the counter answers with a number of active invocations
  that reaches it, the two compared as signed numbers; so every other answer lets the dispatch
  pass, and a negative quota refuses all but larger negative counts.\<close>

theorem quota_refuses_iff:
  "(\<exists>args. qc_Check (NewQuotaChecker quotas counter) ns = Some (ResourceExhausted, args)) \<longleftrightarrow>
     (\<exists>count q active. counter = Some count \<and> ns \<noteq> '''' \<and> find (\<lambda>q. quota_Namespace q = ns) (rev quotas) = Some q \<and>
        quota_MaxConcurrent q \<noteq> 0 \<and> count ns = Inr active \<and> sint (quota_MaxConcurrent q) \<le> sint active)"
  by (auto simp: qc_Check_def NewQuotaChecker_def quota_configs word_sle_eq split: option.splits sum.splits if_splits)

section \<open>What a follower sees of a run\<close>

definition lifecycle_types :: "string list" where
  "lifecycle_types = [''zynax.workflow.state.entered'', ''zynax.workflow.state.exited'', ''zynax.workflow.completed'',
     ''zynax.workflow.failed'']"

definition lifecycle_effect :: "WorkflowIR \<Rightarrow> effect \<Rightarrow> bool" where
  "lifecycle_effect ir e = (case e of
       Dispatch i \<Rightarrow> True
     | effect.Publish t w s p \<Rightarrow> t \<in> set lifecycle_types \<and> w = ir_WorkflowId ir)"

lemma lifecycle_effect_simps [simp]:
  "lifecycle_effect ir (Dispatch i)"
  "lifecycle_effect ir (effect.Publish t w s p) \<longleftrightarrow> t \<in> set lifecycle_types \<and> w = ir_WorkflowId ir"
  by (simp_all add: lifecycle_effect_def)

lemma lifecycle_types_in [simp]:
  "''zynax.workflow.state.entered'' \<in> set lifecycle_types" "''zynax.workflow.state.exited'' \<in> set lifecycle_types"
  "''zynax.workflow.completed'' \<in> set lifecycle_types" "''zynax.workflow.failed'' \<in> set lifecycle_types"
  by (simp_all add: lifecycle_types_def)

lemma run_step_lifecycle:
  assumes "list_all (lifecycle_effect ir) (rs_tr s)" "dc_scope (rs_data s) = run_scope ir"
  shows "(case run_step env ir s of
      Inr s' \<Rightarrow> list_all (lifecycle_effect ir) (rs_tr s') \<and> dc_scope (rs_data s') = run_scope ir
    | Inl (res, tr) \<Rightarrow> list_all (lifecycle_effect ir) tr)"
proof (cases rule: run_step_cases [of ir s env])
  case unknown
  then show ?thesis using assms by simp
next
  case (terminal st)
  then show ?thesis using assms
    by (auto simp: captureTerminalOutputs_def publishFailed_def split: sum.splits option.splits)
next
  case (unpublished st e)
  then show ?thesis using assms by simp
next
  case (acted st r d tr)
  have "dc_scope d = run_scope ir" and "list_all (lifecycle_effect ir) tr"
    using executeActions_inv [OF acted(3)] assms by (auto simp: dispatched_def list_all_iff)
  then show ?thesis
    unfolding acted(4) by (auto simp: publishFailed_def split: sum.splits)
qed

lemma run_loop_lifecycle:
  "run_loop env ir n s = Some (res, tr) \<Longrightarrow> list_all (lifecycle_effect ir) (rs_tr s) \<Longrightarrow> dc_scope (rs_data s) = run_scope ir \<Longrightarrow>
   list_all (lifecycle_effect ir) tr"
proof (induction n arbitrary: s)
  case (Suc n)
  show ?case
  proof (cases "run_step env ir s")
    case (Inl out)
    with Suc.prems run_step_lifecycle [OF Suc.prems(2,3), of env] show ?thesis by (cases out) simp
  next
    case (Inr s')
    with Suc.prems run_step_lifecycle [OF Suc.prems(2,3), of env] show ?thesis by (simp add: Suc.IH)
  qed
qed simp

lemma Run_lifecycle: "Run env ir n = Some (res, tr) \<Longrightarrow> list_all (lifecycle_effect ir) tr"
  unfolding Run_def by (erule run_loop_lifecycle) (simp_all add: run_init_def NewScopedWorkflowDataContext_def)

text \<open>The events of a trace; the stamps are the UUID and the clock of each.\<close>

fun lifecycle_events :: "(nat \<Rightarrow> string \<times> int) \<Rightarrow> nat \<Rightarrow> effect list \<Rightarrow> CloudEvent list" where
  "lifecycle_events stamp n [] = []"
| "lifecycle_events stamp n (Dispatch i # tr) = lifecycle_events stamp n tr"
| "lifecycle_events stamp n (effect.Publish t w s p # tr) = lifecycle_event (stamp n) t w p # lifecycle_events stamp (Suc n) tr"

lemma lifecycle_events_append:
  "\<exists>m. lifecycle_events stamp n (xs @ ys) = lifecycle_events stamp n xs @ lifecycle_events stamp m ys"
  by (induction stamp n xs rule: lifecycle_events.induct) auto

definition workflow_pattern :: string where
  "workflow_pattern = ''zynax.v1.engine-adapter.workflow.**''"

lemma lifecycle_topics:
  assumes "t \<in> set lifecycle_types"
  shows "MatchesGlob workflow_pattern (lifecycleTopic t)" "to_valid_utf8 (lifecycleTopic t) = lifecycleTopic t"
    "IsTerminalEventType (lifecycleTopic t) \<longleftrightarrow> t = ''zynax.workflow.completed'' \<or> t = ''zynax.workflow.failed''"
proof -
  have "list_all (\<lambda>t. MatchesGlob workflow_pattern (lifecycleTopic t)) lifecycle_types"
    "list_all (\<lambda>t. to_valid_utf8 (lifecycleTopic t) = lifecycleTopic t) lifecycle_types"
    "list_all (\<lambda>t. IsTerminalEventType (lifecycleTopic t) \<longleftrightarrow> t = ''zynax.workflow.completed'' \<or> t = ''zynax.workflow.failed'') lifecycle_types"
    by code_simp+
  with assms show "MatchesGlob workflow_pattern (lifecycleTopic t)" "to_valid_utf8 (lifecycleTopic t) = lifecycleTopic t"
    "IsTerminalEventType (lifecycleTopic t) \<longleftrightarrow> t = ''zynax.workflow.completed'' \<or> t = ''zynax.workflow.failed''"
    unfolding list_all_iff by blast+
qed

lemma lifecycle_event_utf8:
  assumes "t \<in> set lifecycle_types" "to_valid_utf8 w = w" "to_valid_utf8 (fst stamp) = fst stamp"
  shows "event_utf8 (lifecycle_event stamp t w p)"
proof -
  have "to_valid_utf8 (''/zynax/engine-adapter/'' @ w) = ''/zynax/engine-adapter/'' @ w"
    "to_valid_utf8 ''1.0'' = ''1.0''" "to_valid_utf8 ''application/json'' = ''application/json''"
    using assms(2) by simp_all
  then show ?thesis
    using assms lifecycle_topics(2) [OF assms(1)] by (simp add: event_utf8_def lifecycle_event_def)
qed

abbreviation wire :: "(nats_header \<Rightarrow> nats_header) \<Rightarrow> CloudEvent \<Rightarrow> sub_turn" where
  "wire inject e \<equiv> TurnMsg (publish_msg inject e) False"

definition follow :: "string \<Rightarrow> string \<Rightarrow> SubscribeRequest" where
  "follow subscriber w = \<lparr>sr_SubscriberID = subscriber, sr_TypePattern = workflow_pattern, sr_WorkflowID = w\<rparr>"

text \<open>The turns of a subscription that follows the workflow.\<close>

lemma follow_event:
  assumes "t \<in> set lifecycle_types" "to_valid_utf8 w = w" "to_valid_utf8 (fst stamp) = fst stamp" "w \<noteq> ''''"
  shows "dispatchMsg False (publish_msg inject (lifecycle_event stamp t w p)) (follow sub w) =
    (Ack, Some (lifecycle_event stamp t w p\<lparr>ce_Time := 0\<rparr>), t = ''zynax.workflow.completed'' \<or> t = ''zynax.workflow.failed'')"
  using unmarshal_marshal [OF lifecycle_event_utf8 [OF assms(1-3)], of p] lifecycle_topics [OF assms(1)] assms(4)
  by (simp add: dispatchMsg_def publish_msg_def follow_def) (simp add: lifecycle_event_def)

lemma follow_quiet:
  assumes "to_valid_utf8 w = w" "w \<noteq> ''''" "\<forall>n. to_valid_utf8 (fst (stamp n)) = fst (stamp n)" "w = ir_WorkflowId ir"
  shows "list_all (lifecycle_effect ir) tr \<Longrightarrow> list_all (\<lambda>e. \<not> is_final e) tr \<Longrightarrow>
    subscription_loop (follow sub w) (map (wire inject) (lifecycle_events stamp n tr) @ ts) =
      (map (ce_Time_update (\<lambda>_. 0)) (lifecycle_events stamp n tr) @ fst (subscription_loop (follow sub w) ts),
       snd (subscription_loop (follow sub w) ts))"
proof (induction tr arbitrary: n)
  case (Cons e tr)
  show ?case
  proof (cases e)
    case (Dispatch i)
    with Cons show ?thesis by simp
  next
    case (Publish t w' s p)
    with Cons.prems have t: "t \<in> set lifecycle_types" and w': "w' = w"
      and q: "(t = ''zynax.workflow.completed'' \<or> t = ''zynax.workflow.failed'') = False"
      using assms(4) by (auto simp: is_final_def)
    have d: "dispatchMsg False (publish_msg inject (lifecycle_event (stamp n) t w p)) (follow sub w) =
        (Ack, Some (lifecycle_event (stamp n) t w p\<lparr>ce_Time := 0\<rparr>), False)"
      using follow_event [OF t assms(1) spec [OF assms(3)] assms(2), of inject n p sub] unfolding q .
    have "list_all (lifecycle_effect ir) tr" "list_all (\<lambda>e. \<not> is_final e) tr"
      using Cons.prems by simp_all
    from Cons.IH [OF this, of "Suc n"] show ?thesis
      by (simp add: Publish w' d split: prod.split)
  qed
qed simp

lemma run_outcome_final:
  assumes "run_outcome ir res tr" "tr \<noteq> []" "is_final (last tr)"
  obtains tr0 t s p where "tr = tr0 @ [effect.Publish t (ir_WorkflowId ir) s p]" "list_all (\<lambda>e. \<not> is_final e) tr0"
    "t = ''zynax.workflow.completed'' \<or> t = ''zynax.workflow.failed''"
    "\<And>outputs. res = Inr outputs \<Longrightarrow> p = Some (marshalTerminalPayload outputs)"
  using assms unfolding run_outcome_def by (cases res) (auto simp: list_all_iff)

lemma Run_ends: "Run env ir n = Some (res, tr) \<Longrightarrow> run_outcome ir res tr"
  using run_loop_ok [OF run_inv_init] by (simp add: Run_def)


end
