(* ===== verification/Go_Sha256.thy ===== *)
theory Go_Sha256
  imports Go_Encoding "HOL-Library.Word"
begin

text \<open>
  \<^verbatim>\<open>sha256.Sum256\<close> of Go's \<^verbatim>\<open>crypto/sha256\<close>: FIPS 180-4 over byte strings.
\<close>

unbundle bit_operations_syntax

text \<open>The constants are not listed but computed from what the standard says they are: the first 32
  bits of the fractional parts of the cube roots of the first 64 primes, and of the square roots of
  the first 8.  \<open>root_bits\<close> finds an integer root bit by bit; scaled by \<open>2 ^ 32\<close> it has the 32 bits of
  the fraction at its end, which the conversion to a word keeps.\<close>

definition sha_primes :: "nat list" where
  "sha_primes =
    [2, 3, 5, 7, 11, 13, 17, 19, 23, 29, 31, 37, 41, 43, 47, 53, 59, 61, 67, 71, 73, 79,
     83, 89, 97, 101, 103, 107, 109, 113, 127, 131, 137, 139, 149, 151, 157, 163, 167, 173, 179, 181, 191, 193,
     197, 199, 211, 223, 227, 229, 233, 239, 241, 251, 257, 263, 269, 271, 277, 281, 283, 293, 307, 311]"

fun root_bits :: "nat \<Rightarrow> nat \<Rightarrow> nat \<Rightarrow> nat \<Rightarrow> nat" where
  "root_bits k n 0 r = r"
| "root_bits k n (Suc b) r = root_bits k n b (if (r + 2 ^ b) ^ k \<le> n then r + 2 ^ b else r)"

definition root_fraction :: "nat \<Rightarrow> nat \<Rightarrow> 32 word" where
  "root_fraction k p = of_nat (root_bits k (p * 2 ^ (32 * k)) 36 0)"

definition sha_K :: "32 word list" where "sha_K = map (root_fraction 3) sha_primes"
definition sha_H0 :: "32 word list" where "sha_H0 = map (root_fraction 2) (take 8 sha_primes)"

lemma length_sha_primes: "length sha_primes = 64"
  by (simp add: sha_primes_def)

lemma root_bits_floor:
  "r ^ k \<le> n \<Longrightarrow> n < (r + 2 ^ b) ^ k \<Longrightarrow> root_bits k n b r ^ k \<le> n \<and> n < Suc (root_bits k n b r) ^ k"
  by (induction k n b r rule: root_bits.induct) (auto simp: algebra_simps mult_2)

lemma root_fraction_floor:
  assumes "p < 16 ^ k" "0 < k"
  shows "\<exists>r. r ^ k \<le> p * 2 ^ (32 * k) \<and> p * 2 ^ (32 * k) < Suc r ^ k \<and> root_fraction k p = of_nat r"
proof -
  have "(16 :: nat) ^ k * 2 ^ (32 * k) = (2 ^ 36) ^ k" by (simp add: power_mult flip: power_mult_distrib)
  then have "p * 2 ^ (32 * k) < (0 + 2 ^ 36) ^ k" using assms(1) by (metis add_0 mult_less_mono1 zero_less_numeral zero_less_power)
  moreover have "(0 :: nat) ^ k \<le> p * 2 ^ (32 * k)" using assms(2) by (simp add: power_0_left)
  ultimately show ?thesis unfolding root_fraction_def using root_bits_floor by blast
qed

definition sha_pad :: "string \<Rightarrow> string" where
  "sha_pad msg =
     msg @ [CHR 0x80] @ replicate ((119 - length msg mod 64) mod 64) (CHR 0x00) @
     map (\<lambda>i. char_of ((8 * length msg) div 256 ^ i)) [7, 6, 5, 4, 3, 2, 1, 0 :: nat]"

fun be_words :: "string \<Rightarrow> 32 word list" where
  "be_words (a # b # c # d # r) =
     of_nat (((of_char a * 256 + of_char b) * 256 + of_char c) * 256 + of_char d) # be_words r"
| "be_words _ = []"

definition small_sigma0 :: "32 word \<Rightarrow> 32 word" where
  "small_sigma0 x = word_rotr 7 x XOR word_rotr 18 x XOR drop_bit 3 x"

definition small_sigma1 :: "32 word \<Rightarrow> 32 word" where
  "small_sigma1 x = word_rotr 17 x XOR word_rotr 19 x XOR drop_bit 10 x"

text \<open>The message schedule, the latest word first.\<close>

fun sha_schedule :: "nat \<Rightarrow> 32 word list \<Rightarrow> 32 word list" where
  "sha_schedule 0 ws = rev ws"
| "sha_schedule (Suc n) ws = sha_schedule n ((small_sigma1 (ws ! 1) + ws ! 6 + small_sigma0 (ws ! 14) + ws ! 15) # ws)"

fun sha_round :: "32 word \<times> 32 word \<Rightarrow> 32 word list \<Rightarrow> 32 word list" where
  "sha_round (k, w) [a, b, c, d, e, f, g, h] =
     (let t1 = h + (word_rotr 6 e XOR word_rotr 11 e XOR word_rotr 25 e) + ((e AND f) XOR (NOT e AND g)) + k + w;
          t2 = (word_rotr 2 a XOR word_rotr 13 a XOR word_rotr 22 a) + ((a AND b) XOR (a AND c) XOR (b AND c))
      in [t1 + t2, a, b, c, d + t1, e, f, g])"
| "sha_round _ hs = hs"

definition sha_block :: "32 word list \<Rightarrow> 32 word list \<Rightarrow> 32 word list" where
  "sha_block hs ws = map2 (+) hs (fold sha_round (zip sha_K (sha_schedule 48 (rev ws))) hs)"

function sha_blocks :: "32 word list \<Rightarrow> 32 word list \<Rightarrow> 32 word list" where
  "sha_blocks hs ws = (if ws = [] then hs else sha_blocks (sha_block hs (take 16 ws)) (drop 16 ws))"
  by auto
termination by (relation "measure (\<lambda>(hs, ws). length ws)") auto

declare sha_blocks.simps [simp del]

definition be_bytes :: "32 word \<Rightarrow> string" where
  "be_bytes w = map (\<lambda>i. char_of (unat w div 256 ^ i)) [3, 2, 1, 0 :: nat]"

definition Sum256 :: "string \<Rightarrow> string" where
  "Sum256 data = concat (map be_bytes (sha_blocks sha_H0 (be_words (sha_pad data))))"

lemma length_sha_round: "length hs = 8 \<Longrightarrow> length (sha_round kw hs) = 8"
  by (induction kw hs rule: sha_round.induct) (simp_all add: Let_def)

lemma length_sha_rounds: "length hs = 8 \<Longrightarrow> length (fold sha_round kws hs) = 8"
  by (induction kws arbitrary: hs) (simp_all add: length_sha_round)

lemma length_sha_blocks: "length hs = 8 \<Longrightarrow> length (sha_blocks hs ws) = 8"
proof (induction hs ws rule: sha_blocks.induct)
  case (1 hs ws)
  have "length (sha_block hs (take 16 ws)) = 8"
    using 1(2) by (simp add: sha_block_def length_sha_rounds)
  with 1 show ?case by (subst sha_blocks.simps) simp
qed

lemma length_Sum256: "length (Sum256 data) = 32"
proof -
  have "length (sha_blocks sha_H0 (be_words (sha_pad data))) = 8"
    by (rule length_sha_blocks) (simp add: sha_H0_def length_sha_primes)
  then show ?thesis by (simp add: Sum256_def length_concat comp_def be_bytes_def sum_list_triv)
qed

end
