(* ===== verification/Go_Time.thy ===== *)
theory Go_Time
  imports Go_Lib
begin

text \<open>
  \<^verbatim>\<open>time.Parse(time.RFC3339, s)\<close> and \<^verbatim>\<open>Format(time.RFC3339)\<close>.  A time is the number of nanoseconds since the zero \<^verbatim>\<open>time.Time\<close>,
  the first of January of the year 1 in UTC.
\<close>

definition leap_year :: "int \<Rightarrow> bool" where
  "leap_year y \<longleftrightarrow> y mod 4 = 0 \<and> (y mod 100 \<noteq> 0 \<or> y mod 400 = 0)"

definition days_in :: "int \<Rightarrow> int \<Rightarrow> int" where
  "days_in month y =
     (if month = 2 then (if leap_year y then 29 else 28) else if month \<in> {4, 6, 9, 11} then 30 else 31)"

definition days_before_year :: "int \<Rightarrow> int" where
  "days_before_year y = 365 * (y - 1) + (y - 1) div 4 - (y - 1) div 100 + (y - 1) div 400"

definition days_before_month :: "int \<Rightarrow> int \<Rightarrow> int" where
  "days_before_month month y = sum_list (map (\<lambda>m. days_in m y) [1 .. month - 1])"

text \<open>The number of seconds of a date and a time of day.\<close>

definition unix_seconds :: "int \<Rightarrow> int \<Rightarrow> int \<Rightarrow> int \<Rightarrow> int \<Rightarrow> int \<Rightarrow> int" where
  "unix_seconds y month day h m s =
     ((days_before_year y + days_before_month month y + (day - 1)) * 24 + h) * 3600 + m * 60 + s"

text \<open>\<^verbatim>\<open>getnum(s, fixed)\<close>: two digits, or one when \<open>fixed\<close> is not asked for.\<close>

definition getnum :: "bool \<Rightarrow> string \<Rightarrow> (int \<times> string) option" where
  "getnum fixed s =
     (case s of
        a # b # r \<Rightarrow>
          if is_digit a \<and> is_digit b then Some (int (digits_val [a, b]), r)
          else if is_digit a \<and> \<not> fixed then Some (int (digit_val a), b # r) else None
      | [a] \<Rightarrow> if is_digit a \<and> \<not> fixed then Some (int (digit_val a), []) else None
      | [] \<Rightarrow> None)"

definition skip_char :: "char \<Rightarrow> string \<Rightarrow> string option" where
  "skip_char c s = (case s of a # r \<Rightarrow> if a = c then Some r else None | [] \<Rightarrow> None)"

definition getyear :: "string \<Rightarrow> (int \<times> string) option" where
  "getyear s =
     (if length s \<ge> 4 \<and> list_all is_digit (take 4 s) then Some (int (digits_val (take 4 s)), drop 4 s) else None)"

text \<open>A fraction of a second may follow although the layout has none; digits after the ninth are
  dropped.\<close>

definition getfraction :: "string \<Rightarrow> int \<times> string" where
  "getfraction s =
     (case s of
        c # d # r \<Rightarrow>
          if (c = CHR ''.'' \<or> c = CHR '','') \<and> is_digit d
          then (let ds = takeWhile is_digit (d # r); nine = take 9 ds
                in (int (digits_val nine) * 10 ^ (9 - length nine), dropWhile is_digit (d # r)))
          else (0, s)
      | _ \<Rightarrow> (0, s))"

text \<open>The zone: \<^verbatim>\<open>Z\<close> or an offset, in seconds.\<close>

definition getzone :: "string \<Rightarrow> (int \<times> string) option" where
  "getzone s =
     (if s \<noteq> '''' \<and> hd s = CHR ''Z'' then Some (0, tl s)
      else if length s < 6 \<or> s ! 3 \<noteq> CHR '':'' then None
      else case (getnum True (take 2 (drop 1 s)), getnum True (take 2 (drop 4 s))) of
          (Some (hr, _), Some (mm, _)) \<Rightarrow>
            if hr > 24 \<or> mm > 60 then None
            else if hd s = CHR ''+'' then Some ((hr * 60 + mm) * 60, drop 6 s)
            else if hd s = CHR ''-'' then Some (- ((hr * 60 + mm) * 60), drop 6 s)
            else None
        | _ \<Rightarrow> None)"

definition parse_RFC3339 :: "string \<Rightarrow> int option" where
  "parse_RFC3339 s0 =
     (case getyear s0 of None \<Rightarrow> None | Some (y, s1) \<Rightarrow>
     (case skip_char (CHR ''-'') s1 of None \<Rightarrow> None | Some s2 \<Rightarrow>
     (case getnum True s2 of None \<Rightarrow> None | Some (month, s3) \<Rightarrow>
     if month < 1 \<or> 12 < month then None else
     (case skip_char (CHR ''-'') s3 of None \<Rightarrow> None | Some s4 \<Rightarrow>
     (case getnum True s4 of None \<Rightarrow> None | Some (day, s5) \<Rightarrow>
     (case skip_char (CHR ''T'') s5 of None \<Rightarrow> None | Some s6 \<Rightarrow>
     (case getnum False s6 of None \<Rightarrow> None | Some (h, s7) \<Rightarrow>
     if 24 \<le> h then None else
     (case skip_char (CHR '':'') s7 of None \<Rightarrow> None | Some s8 \<Rightarrow>
     (case getnum True s8 of None \<Rightarrow> None | Some (m, s9) \<Rightarrow>
     if 60 \<le> m then None else
     (case skip_char (CHR '':'') s9 of None \<Rightarrow> None | Some s10 \<Rightarrow>
     (case getnum True s10 of None \<Rightarrow> None | Some (sec, s11) \<Rightarrow>
     if 60 \<le> sec then None else
     (case getfraction s11 of (nanos, s12) \<Rightarrow>
     (case getzone s12 of None \<Rightarrow> None | Some (offset, s13) \<Rightarrow>
     if s13 \<noteq> '''' \<or> day < 1 \<or> days_in month y < day then None
     else Some ((unix_seconds y month day h m sec - offset) * 1000000000 + nanos))))))))))))))"

text \<open>The epoch of Unix time.\<close>

lemma parse_epoch: "parse_RFC3339 ''1970-01-01T00:00:00Z'' = Some (62135596800 * 1000000000)"
  by code_simp

lemma parse_offset: "parse_RFC3339 ''2026-02-28T23:30:00.25-01:30'' = map_option ((+) 250000000) (parse_RFC3339 ''2026-03-01T01:00:00Z'')"
  by code_simp

section \<open>Formatting\<close>

text \<open>The date of a day, days counted from the first of January of the year 1.\<close>

definition civil_date :: "int \<Rightarrow> int \<times> int \<times> int" where
  "civil_date d =
     (let z = d + 306; era = z div 146097; doe = z mod 146097;
          yoe = (doe - doe div 1460 + doe div 36524 - doe div 146096) div 365;
          doy = doe - (365 * yoe + yoe div 4 - yoe div 100);
          mp = (5 * doy + 2) div 153;
          month = (if mp < 10 then mp + 3 else mp - 9)
      in (yoe + era * 400 + (if month \<le> 2 then 1 else 0), month, doy - (153 * mp + 2) div 5 + 1))"

definition zero_pad :: "nat \<Rightarrow> int \<Rightarrow> string" where
  "zero_pad n i = (let s = show_nat (nat i) in replicate (n - length s) (CHR ''0'') @ s)"

text \<open>\<^verbatim>\<open>t.UTC().Format(time.RFC3339)\<close> for the years 0 to 9999.\<close>

definition format_RFC3339 :: "int \<Rightarrow> string" where
  "format_RFC3339 t =
     (let secs = t div 1000000000; sod = secs mod 86400;
          (y, month, day) = civil_date (secs div 86400)
      in zero_pad 4 y @ ''-'' @ zero_pad 2 month @ ''-'' @ zero_pad 2 day @ ''T'' @ zero_pad 2 (sod div 3600) @ '':'' @
         zero_pad 2 (sod div 60 mod 60) @ '':'' @ zero_pad 2 (sod mod 60) @ ''Z'')"

end
