(* ===== verification/Gateway_Apply.thy ===== *)
theory Gateway_Apply
  imports Engine_Lifecycle Compiler_Server Go_Sha256 Go_Time
begin

text \<open>
  The domain of the API gateway (\<^verbatim>\<open>services/api-gateway/internal/domain\<close>: \<^verbatim>\<open>apply.go\<close>, \<^verbatim>\<open>kindrouter.go\<close>,
  \<^verbatim>\<open>ports.go\<close>, \<^verbatim>\<open>errors.go\<close>).

  The YAML library is a parameter (\<open>yaml_any\<close>), and so are the ports of the compiler, the engine and
  the event bus, which \<open>Gateway_Clients\<close> gives.  A stream is the list of its events with its status.
\<close>

section \<open>Values and ports\<close>

record CompileError =
  gce_Code :: string
  gce_Message :: message
  gce_Line :: int

record CompileResult =
  gcr_IRBytes :: string
  gcr_Namespace :: string
  gcr_Warnings :: "string list"
  gcr_Errors :: "CompileError list"

record WorkflowRunSummary =
  ws_RunID :: string
  ws_WorkflowID :: string
  ws_Status :: string
  ws_CurrentState :: string
  ws_Outputs :: "(string, string) gomap"

record WatchEvent =
  we_RunID :: string
  we_EventType :: string
  we_FromState :: string
  we_ToState :: string
  we_Status :: string
  we_Timestamp :: string
  we_Payload :: string

record EventPublish =
  ep_RunID :: string
  ep_Type :: string
  ep_Data :: string

datatype gw_err =
    ErrCompilationFailed | ErrEngineUnavailable | ErrNotFound | ErrInvalidEvent | ErrUnknownKind
  | RpcFailure grpc_code | EventsFailure events_err | CtxEnded ctx_error

type_synonym gw_error = "gw_err go_error"

type_synonym compiler_port = "string \<Rightarrow> string \<Rightarrow> bool \<Rightarrow> gw_error + CompileResult"

record 's engine_port =
  po_SubmitWorkflow :: "'s \<Rightarrow> string \<Rightarrow> string \<Rightarrow> string \<Rightarrow> string \<Rightarrow> (gw_error + string) \<times> 's"
  po_GetWorkflowStatus :: "'s \<Rightarrow> string \<Rightarrow> gw_error + WorkflowRunSummary"
  po_CancelWorkflow :: "'s \<Rightarrow> string \<Rightarrow> gw_error option \<times> 's"
  po_WatchWorkflow :: "'s \<Rightarrow> string \<Rightarrow> (gw_error option \<times> WatchEvent list) option"

record 'b event_bus_port =
  po_SubscribeWorkflowEvents :: "'b \<Rightarrow> string \<Rightarrow> gw_error option \<times> WatchEvent list"
  po_PublishEvent :: "'b \<Rightarrow> EventPublish \<Rightarrow> (gw_error + string) \<times> 'b"

record ('s, 'b) ApplyService =
  sv_compiler :: compiler_port
  sv_engine :: "'s engine_port"
  sv_eventbus :: "'b event_bus_port option"

section \<open>Manifests and their identifiers\<close>

text \<open>\<^verbatim>\<open>yaml.v3\<close>: decoding into an \<^verbatim>\<open>any\<close> and back, and decoding the \<^verbatim>\<open>kind\<close> of the envelope.\<close>

record 'v yaml_any =
  yy_Unmarshal :: "string \<Rightarrow> string + 'v"
  yy_Marshal :: "'v \<Rightarrow> string + string"
  yy_Kind :: "string \<Rightarrow> string + string"

definition canonicaliseYAML :: "'v yaml_any \<Rightarrow> string \<Rightarrow> string" where
  "canonicaliseYAML Y raw =
     (case yy_Unmarshal Y raw of
        Inl err \<Rightarrow> raw
      | Inr v \<Rightarrow> (case yy_Marshal Y v of Inl err \<Rightarrow> raw | Inr out \<Rightarrow> out))"

definition manifestIDLen :: nat where "manifestIDLen = 16"

definition ManifestWorkflowID :: "'v yaml_any \<Rightarrow> string \<Rightarrow> string" where
  "ManifestWorkflowID Y manifestYAML =
     ''wf-'' @ take manifestIDLen (hex_EncodeToString (Sum256 (canonicaliseYAML Y manifestYAML)))"

text \<open>\<open>t\<close> is \<^verbatim>\<open>t.Unix()\<close>.\<close>

definition rerunWorkflowID :: "string \<Rightarrow> int \<Rightarrow> string" where
  "rerunWorkflowID baseID t = baseID @ ''-'' @ Itoa t"

definition DetectKind :: "'v yaml_any \<Rightarrow> string \<Rightarrow> gw_error + string" where
  "DetectKind Y manifestYAML =
     (case yy_Kind Y manifestYAML of
        Inl err \<Rightarrow> Inl (Errorf ''api-gateway: yaml: %w'' [FS err])
      | Inr kind \<Rightarrow>
          if kind = ''Workflow'' then Inr ''Workflow''
          else Inl (Wrapf ''api-gateway: kind %q: %w'' [FS kind] (Typed ErrUnknownKind)))"

section \<open>The service\<close>

record ApplyRequest =
  rq_ManifestYAML :: string
  rq_Namespace :: string
  rq_DryRun :: bool
  rq_EngineHint :: string

record ApplyResult =
  rr_RunID :: string
  rr_Warnings :: "string list"
  rr_Errors :: "CompileError list"
  rr_Status :: string

definition no_result :: ApplyResult where
  "no_result = \<lparr>rr_RunID = '''', rr_Warnings = [], rr_Errors = [], rr_Status = ''''\<rparr>"

definition statusRunning :: string where "statusRunning = ''WORKFLOW_STATUS_RUNNING''"
definition statusCompleted :: string where "statusCompleted = ''WORKFLOW_STATUS_COMPLETED''"

text \<open>\<open>now\<close> is the Unix time.  The result comes with the error, as in Go.\<close>

definition gw_submit ::
  "'v yaml_any \<Rightarrow> ('s, 'b) ApplyService \<Rightarrow> 's \<Rightarrow> int \<Rightarrow> string \<Rightarrow> CompileResult \<Rightarrow> string \<Rightarrow> (ApplyResult \<times> gw_error option) \<times> 's" where
  "gw_submit Y S s now manifestYAML compiled engineHint =
     (let workflowID = ManifestWorkflowID Y manifestYAML;
          start = (\<lambda>wid. case po_SubmitWorkflow (sv_engine S) s (gcr_IRBytes compiled) engineHint wid (gcr_Namespace compiled) of
              (Inl err, s') \<Rightarrow> ((no_result, Some (Wrapf ''api-gateway: %w'' [] err)), s')
            | (Inr runID, s') \<Rightarrow>
                ((\<lparr>rr_RunID = runID, rr_Warnings = gcr_Warnings compiled, rr_Errors = [], rr_Status = ''new''\<rparr>, None), s'))
      in case po_GetWorkflowStatus (sv_engine S) s workflowID of
           Inl err \<Rightarrow>
             if \<not> errors_Is err ErrNotFound
             then ((no_result, Some (Wrapf ''api-gateway: check existing workflow: %w'' [] err)), s)
             else start workflowID
         | Inr existing \<Rightarrow>
             if ws_Status existing = statusRunning
             then ((\<lparr>rr_RunID = ws_RunID existing, rr_Warnings = gcr_Warnings compiled, rr_Errors = [], rr_Status = ''existing''\<rparr>, None), s)
             else if ws_Status existing = statusCompleted then start (rerunWorkflowID workflowID now)
             else start workflowID)"

definition ApplyWorkflow ::
  "'v yaml_any \<Rightarrow> ('s, 'b) ApplyService \<Rightarrow> 's \<Rightarrow> int \<Rightarrow> ApplyRequest \<Rightarrow> (ApplyResult \<times> gw_error option) \<times> 's" where
  "ApplyWorkflow Y S s now req =
     (case sv_compiler S (rq_ManifestYAML req) (rq_Namespace req) (rq_DryRun req) of
        Inl err \<Rightarrow> ((no_result, Some (Wrapf ''api-gateway: %w'' [] err)), s)
      | Inr compiled \<Rightarrow>
          if gcr_Errors compiled \<noteq> []
          then ((no_result\<lparr>rr_Errors := gcr_Errors compiled, rr_Warnings := gcr_Warnings compiled\<rparr>, Some (Typed ErrCompilationFailed)), s)
          else if rq_DryRun req then ((no_result\<lparr>rr_Warnings := gcr_Warnings compiled\<rparr>, None), s)
          else gw_submit Y S s now (rq_ManifestYAML req) compiled (rq_EngineHint req))"

definition sv_GetWorkflowStatus :: "('s, 'b) ApplyService \<Rightarrow> 's \<Rightarrow> string \<Rightarrow> gw_error + WorkflowRunSummary" where
  "sv_GetWorkflowStatus S s runID =
     (case po_GetWorkflowStatus (sv_engine S) s runID of
        Inl err \<Rightarrow> Inl (Wrapf ''api-gateway: %w'' [] err) | Inr run \<Rightarrow> Inr run)"

definition sv_CancelWorkflow :: "('s, 'b) ApplyService \<Rightarrow> 's \<Rightarrow> string \<Rightarrow> gw_error option \<times> 's" where
  "sv_CancelWorkflow S s runID =
     (case po_CancelWorkflow (sv_engine S) s runID of
        (Some err, s') \<Rightarrow> (Some (Wrapf ''api-gateway: %w'' [] err), s') | (None, s') \<Rightarrow> (None, s'))"

definition sv_PublishEvent :: "('s, 'b) ApplyService \<Rightarrow> 'b \<Rightarrow> EventPublish \<Rightarrow> (gw_error + string) \<times> 'b" where
  "sv_PublishEvent S b ev =
     (if TrimSpace (ep_RunID ev) = '''' then (Inl (Wrapf ''%w: run id is required'' [] (Typed ErrInvalidEvent)), b)
      else if TrimSpace (ep_Type ev) = '''' then (Inl (Wrapf ''%w: event type is required'' [] (Typed ErrInvalidEvent)), b)
      else case sv_eventbus S of
          None \<Rightarrow> (Inl (Wrapf ''api-gateway: %w'' [] (Typed ErrEngineUnavailable)), b)
        | Some bus \<Rightarrow>
            (case po_PublishEvent bus b ev of
               (Inl err, b') \<Rightarrow> (Inl (Wrapf ''api-gateway: %w'' [] err), b') | (Inr eventID, b') \<Rightarrow> (Inr eventID, b')))"

text \<open>The two streams of the logs run concurrently; a schedule says which of them sends next (\<open>True\<close>
  for the subscription).\<close>

fun interleave :: "bool list \<Rightarrow> 'a list \<Rightarrow> 'a list \<Rightarrow> 'a list" where
  "interleave [] xs ys = xs @ ys"
| "interleave (True # b) xs ys = (case ys of [] \<Rightarrow> interleave b xs [] | y # ys \<Rightarrow> y # interleave b xs ys)"
| "interleave (False # b) xs ys = (case xs of [] \<Rightarrow> interleave b [] ys | x # xs \<Rightarrow> x # interleave b xs ys)"

text \<open>What the logs send and the error they end with; the caller's \<^verbatim>\<open>send\<close> takes every event.  \<open>None\<close> is a
  stream that goes on.\<close>

definition WatchWorkflowLogs ::
  "('s, 'b) ApplyService \<Rightarrow> 's \<Rightarrow> 'b \<Rightarrow> bool list \<Rightarrow> string \<Rightarrow> (gw_error option \<times> WatchEvent list) option" where
  "WatchWorkflowLogs S s b schedule runID =
     (let wrap = map_option (\<lambda>err. Wrapf ''api-gateway: %w'' [] err) in
      case sv_eventbus S of
        None \<Rightarrow> map_option (\<lambda>(err, evs). (wrap err, evs)) (po_WatchWorkflow (sv_engine S) s runID)
      | Some bus \<Rightarrow>
          let workflowID = (case po_GetWorkflowStatus (sv_engine S) s runID of
                Inr run \<Rightarrow> if ws_WorkflowID run \<noteq> '''' then ws_WorkflowID run else runID
              | Inl err \<Rightarrow> runID)
          in map_option (\<lambda>(engErr, evs). (wrap engErr, interleave schedule evs (snd (po_SubscribeWorkflowEvents bus b workflowID))))
               (po_WatchWorkflow (sv_engine S) s runID))"

end
