(* ===== verification/Gateway_Clients.thy ===== *)
theory Gateway_Clients
  imports Gateway_Apply
begin

text \<open>
  The ports of the API gateway over the stubs of the other services
  (\<^verbatim>\<open>services/api-gateway/internal/infrastructure/clients.go\<close>): the mapping of requests, answers and
  errors, the correlation metadata (\<^verbatim>\<open>domain/requestid.go\<close>, \<^verbatim>\<open>api/requestid.go\<close>), and the stubs given by the
  handlers of the compiler and of the engine adapter.
\<close>

section \<open>Stubs\<close>

type_synonym compiler_client = "CompileWorkflowRequest \<Rightarrow> rpc_error + CompileWorkflowResponse"

record 's engine_client =
  st_SubmitWorkflow :: "'s \<Rightarrow> WorkflowIR \<Rightarrow> string \<Rightarrow> string \<Rightarrow> (grpc_code + string) \<times> 's"
  st_GetWorkflowStatus :: "'s \<Rightarrow> string \<Rightarrow> grpc_code + WorkflowRunPb"
  st_CancelWorkflow :: "'s \<Rightarrow> string \<Rightarrow> grpc_code option \<times> 's"
  st_WatchWorkflow :: "'s \<Rightarrow> string \<Rightarrow> (grpc_code option \<times> WorkflowEventPb list) option"

text \<open>The protobuf encoding of the intermediate representation.\<close>

record proto_codec =
  pb_Marshal :: "WorkflowIR \<Rightarrow> string + string"
  pb_Unmarshal :: "string \<Rightarrow> string + WorkflowIR"

text \<open>What the gateway relies on: the given messages can be encoded and are read back.\<close>

definition codec_ok :: "proto_codec \<Rightarrow> WorkflowIR set \<Rightarrow> bool" where
  "codec_ok pb irs \<longleftrightarrow> (\<forall>ir \<in> irs. \<exists>data. pb_Marshal pb ir = Inr data \<and> pb_Unmarshal pb data = Inr ir)"

section \<open>The compiler\<close>

fun error_code_String :: "ProtoErrorCode \<Rightarrow> string" where
  "error_code_String COMPILATION_ERROR_CODE_UNSPECIFIED = ''COMPILATION_ERROR_CODE_UNSPECIFIED''"
| "error_code_String COMPILATION_ERROR_CODE_YAML_PARSE_ERROR = ''COMPILATION_ERROR_CODE_YAML_PARSE_ERROR''"
| "error_code_String COMPILATION_ERROR_CODE_NO_INITIAL_STATE = ''COMPILATION_ERROR_CODE_NO_INITIAL_STATE''"
| "error_code_String COMPILATION_ERROR_CODE_MULTIPLE_INITIAL_STATES = ''COMPILATION_ERROR_CODE_MULTIPLE_INITIAL_STATES''"
| "error_code_String COMPILATION_ERROR_CODE_NO_TERMINAL_STATE = ''COMPILATION_ERROR_CODE_NO_TERMINAL_STATE''"
| "error_code_String COMPILATION_ERROR_CODE_ORPHAN_STATE = ''COMPILATION_ERROR_CODE_ORPHAN_STATE''"
| "error_code_String COMPILATION_ERROR_CODE_UNKNOWN_STATE_REFERENCE = ''COMPILATION_ERROR_CODE_UNKNOWN_STATE_REFERENCE''"
| "error_code_String COMPILATION_ERROR_CODE_DUPLICATE_STATE_NAME = ''COMPILATION_ERROR_CODE_DUPLICATE_STATE_NAME''"
| "error_code_String COMPILATION_ERROR_CODE_MISSING_REQUIRED_FIELD = ''COMPILATION_ERROR_CODE_MISSING_REQUIRED_FIELD''"
| "error_code_String COMPILATION_ERROR_CODE_INVALID_FIELD_VALUE = ''COMPILATION_ERROR_CODE_INVALID_FIELD_VALUE''"

text \<open>The compiler sends no warnings.\<close>

definition compileResultFromProto :: "proto_codec \<Rightarrow> CompileWorkflowResponse \<Rightarrow> CompileResult" where
  "compileResultFromProto pb resp =
     \<lparr>gcr_IRBytes = (case cr_WorkflowIr resp of None \<Rightarrow> ''''
        | Some ir \<Rightarrow> (case pb_Marshal pb ir of Inl err \<Rightarrow> '''' | Inr data \<Rightarrow> data)),
      gcr_Namespace = (case cr_WorkflowIr resp of None \<Rightarrow> '''' | Some ir \<Rightarrow> ir_Namespace ir),
      gcr_Warnings = [],
      gcr_Errors = map (\<lambda>e. \<lparr>gce_Code = error_code_String (ce_Code e), gce_Message = ce_Message e, gce_Line = ce_LineNumber e\<rparr>) (cr_Errors resp)\<rparr>"

definition mapCompilerGRPCError :: "rpc_error \<Rightarrow> gw_error + CompileResult" where
  "mapCompilerGRPCError err =
     (if fst err = InvalidArgument
      then Inr \<lparr>gcr_IRBytes = '''', gcr_Namespace = '''', gcr_Warnings = [],
                gcr_Errors = [\<lparr>gce_Code = ''COMPILER_ERROR'', gce_Message = snd err, gce_Line = 0\<rparr>]\<rparr>
      else Inl (Wrapf ''api-gateway: compiler: %w'' [] (Typed (RpcFailure (fst err)))))"

definition cl_CompileWorkflow :: "proto_codec \<Rightarrow> compiler_client \<Rightarrow> compiler_port" where
  "cl_CompileWorkflow pb compiler manifestYAML namespace dryRun =
     (case compiler \<lparr>cq_ManifestYaml = manifestYAML, cq_Namespace = namespace\<rparr> of
        Inl err \<Rightarrow> mapCompilerGRPCError err
      | Inr resp \<Rightarrow> Inr (compileResultFromProto pb resp))"

section \<open>The engine\<close>

definition mapEngineGRPCError :: "grpc_code \<Rightarrow> gw_error" where
  "mapEngineGRPCError code =
     (if code = NotFound then Wrapf ''api-gateway: %w'' [] (Typed ErrNotFound)
      else if code = Unavailable then Wrapf ''api-gateway: %w'' [] (Typed ErrEngineUnavailable)
      else Wrapf ''api-gateway: engine: %w'' [] (Typed (RpcFailure code)))"

definition status_String :: "32 word \<Rightarrow> string" where
  "status_String s =
     (if s = 0 then ''WORKFLOW_STATUS_UNSPECIFIED'' else if s = 1 then ''WORKFLOW_STATUS_PENDING''
      else if s = 2 then ''WORKFLOW_STATUS_RUNNING'' else if s = 3 then ''WORKFLOW_STATUS_COMPLETED''
      else if s = 4 then ''WORKFLOW_STATUS_FAILED'' else if s = 5 then ''WORKFLOW_STATUS_CANCELLED''
      else Itoa (sint s))"

definition cl_SubmitWorkflow ::
  "proto_codec \<Rightarrow> 's engine_client \<Rightarrow> 's \<Rightarrow> string \<Rightarrow> string \<Rightarrow> string \<Rightarrow> string \<Rightarrow> (gw_error + string) \<times> 's" where
  "cl_SubmitWorkflow pb engine s irBytes engineHint workflowID namespace =
     (case pb_Unmarshal pb irBytes of
        Inl err \<Rightarrow> (Inl (Errorf ''api-gateway: unmarshal IR: %w'' [FS err]), s)
      | Inr ir \<Rightarrow>
          (case st_SubmitWorkflow engine s (ir\<lparr>ir_WorkflowId := workflowID\<rparr>) engineHint namespace of
             (Inl code, s') \<Rightarrow> (Inl (mapEngineGRPCError code), s')
           | (Inr runID, s') \<Rightarrow> (Inr runID, s')))"

definition cl_GetWorkflowStatus :: "'s engine_client \<Rightarrow> 's \<Rightarrow> string \<Rightarrow> gw_error + WorkflowRunSummary" where
  "cl_GetWorkflowStatus engine s runID =
     (case st_GetWorkflowStatus engine s runID of
        Inl code \<Rightarrow> Inl (mapEngineGRPCError code)
      | Inr run \<Rightarrow>
          Inr \<lparr>ws_RunID = pr_RunId run, ws_WorkflowID = pr_WorkflowId run, ws_Status = status_String (pr_Status run),
               ws_CurrentState = pr_CurrentState run, ws_Outputs = pr_Outputs run\<rparr>)"

definition cl_CancelWorkflow :: "'s engine_client \<Rightarrow> 's \<Rightarrow> string \<Rightarrow> gw_error option \<times> 's" where
  "cl_CancelWorkflow engine s runID =
     (case st_CancelWorkflow engine s runID of
        (Some code, s') \<Rightarrow> (Some (mapEngineGRPCError code), s') | (None, s') \<Rightarrow> (None, s'))"

definition gw_watch_event :: "WorkflowEventPb \<Rightarrow> WatchEvent" where
  "gw_watch_event ev =
     \<lparr>we_RunID = pe_RunId ev, we_EventType = pe_EventType ev, we_FromState = pe_FromState ev, we_ToState = pe_ToState ev,
      we_Status = status_String (pe_Status ev),
      we_Timestamp = (case pe_Timestamp ev of None \<Rightarrow> '''' | Some ts \<Rightarrow> format_RFC3339 ts),
      we_Payload = pe_Payload ev\<rparr>"

definition cl_WatchWorkflow :: "'s engine_client \<Rightarrow> 's \<Rightarrow> string \<Rightarrow> (gw_error option \<times> WatchEvent list) option" where
  "cl_WatchWorkflow engine s runID =
     map_option (\<lambda>(code, evs). (map_option mapEngineGRPCError code, map gw_watch_event evs)) (st_WatchWorkflow engine s runID)"

definition gateway_engine :: "proto_codec \<Rightarrow> 's engine_client \<Rightarrow> 's engine_port" where
  "gateway_engine pb engine =
     \<lparr>po_SubmitWorkflow = cl_SubmitWorkflow pb engine, po_GetWorkflowStatus = cl_GetWorkflowStatus engine,
      po_CancelWorkflow = cl_CancelWorkflow engine, po_WatchWorkflow = cl_WatchWorkflow engine\<rparr>"

section \<open>The event bus\<close>

definition capabilityEventPattern :: string where
  "capabilityEventPattern = ''zynax.v1.task-broker.task.**''"

text \<open>\<open>nanos\<close> is the clock in the subscriber's identifier.\<close>

definition logs_request :: "string \<Rightarrow> int \<Rightarrow> SubscribeRequest" where
  "logs_request workflowID nanos =
     \<lparr>sr_SubscriberID = ''api-gateway-logs-'' @ workflowID @ ''-'' @ Itoa nanos, sr_TypePattern = capabilityEventPattern,
      sr_WorkflowID = workflowID\<rparr>"

definition capability_event :: "CloudEvent \<Rightarrow> WatchEvent" where
  "capability_event ce =
     \<lparr>we_RunID = ce_WorkflowID ce, we_EventType = ce_Type ce, we_FromState = '''', we_ToState = '''', we_Status = ''capability_event'',
      we_Timestamp = '''', we_Payload = ce_Data ce\<rparr>"

text \<open>\<open>turns\<close> is what the subscription meets until it ends.\<close>

definition cl_SubscribeWorkflowEvents ::
  "'j jetstream \<Rightarrow> ctx_error option \<Rightarrow> ('j \<Rightarrow> sub_turn list) \<Rightarrow> int \<Rightarrow> 'j \<Rightarrow> string \<Rightarrow> gw_error option \<times> WatchEvent list" where
  "cl_SubscribeWorkflowEvents js ctx turns nanos j workflowID =
     (case Subscribe js ctx j (logs_request workflowID nanos) of
        (Some err, j') \<Rightarrow> (Some (Wrapf ''api-gateway: events subscribe: %w'' [] (map_go_error EventsFailure err)), [])
      | (None, j') \<Rightarrow> (None, map capability_event (fst (subscription_loop (logs_request workflowID nanos) (turns j')))))"

text \<open>The published event; \<open>stamp\<close> is the UUID and the clock.\<close>

definition injected_event :: "string \<times> int \<Rightarrow> EventPublish \<Rightarrow> CloudEvent" where
  "injected_event stamp ev =
     \<lparr>ce_ID = fst stamp, ce_Source = ''/zynax/api-gateway/cli'', ce_SpecVersion = ''1.0'', ce_Type = ep_Type ev, ce_DataContentType = '''',
      ce_Time = snd stamp, ce_Data = ep_Data ev, ce_WorkflowID = ep_RunID ev, ce_RunID = ep_RunID ev, ce_Namespace = '''',
      ce_CapabilityName = ''''\<rparr>"

definition cl_PublishEvent ::
  "'j jetstream \<Rightarrow> (nats_header \<Rightarrow> nats_header) \<Rightarrow> ctx_error option \<Rightarrow> string \<times> int \<Rightarrow> 'j \<Rightarrow> EventPublish \<Rightarrow> (gw_error + string) \<times> 'j" where
  "cl_PublishEvent js inject ctx stamp j ev =
     (case Events_Client.Publish js inject ctx j (injected_event stamp ev) of
        (Inl err, j') \<Rightarrow> (Inl (Wrapf ''api-gateway: event publish: %w'' [] (map_go_error EventsFailure err)), j')
      | (Inr eventID, j') \<Rightarrow> (Inr eventID, j'))"

definition gateway_bus ::
  "'j jetstream \<Rightarrow> (nats_header \<Rightarrow> nats_header) \<Rightarrow> ctx_error option \<Rightarrow> ('j \<Rightarrow> sub_turn list) \<Rightarrow> string \<times> int \<Rightarrow> 'j event_bus_port" where
  "gateway_bus js inject ctx turns stamp =
     \<lparr>po_SubscribeWorkflowEvents = cl_SubscribeWorkflowEvents js ctx turns (snd stamp),
      po_PublishEvent = cl_PublishEvent js inject ctx stamp\<rparr>"

section \<open>Correlation\<close>

record correlation =
  co_RequestID :: string
  co_Namespace :: string

text \<open>The identifiers of a request (the header, or new random bytes) and the header of its answer.\<close>

definition newRequestID :: "string \<Rightarrow> string" where
  "newRequestID random = hex_EncodeToString random"

definition RequestIDMiddleware :: "(string, string) gomap \<Rightarrow> string \<Rightarrow> correlation \<times> (string \<times> string)" where
  "RequestIDMiddleware header random =
     (let h = gm_get '''' header ''X-Request-ID'';
          i = (if h = '''' then newRequestID random else h)
      in (\<lparr>co_RequestID = i, co_Namespace = gm_get '''' header ''X-Namespace''\<rparr>, (''X-Request-ID'', i)))"

text \<open>The metadata of every call.\<close>

definition withCorrelationMetadata :: "correlation \<Rightarrow> (string \<times> string) list" where
  "withCorrelationMetadata c =
     (if co_RequestID c \<noteq> '''' then [(''request-id'', co_RequestID c)] else []) @
     (if co_Namespace c \<noteq> '''' then [(''x-namespace'', co_Namespace c)] else [])"

section \<open>The services behind the stubs\<close>

definition compiler_stub :: "yaml_lib \<Rightarrow> PolicyGate option \<Rightarrow> compile_env \<Rightarrow> compiler_client" where
  "compiler_stub yaml pg env req = CompileWorkflow yaml pg env req"

text \<open>The engine adapter does not read the hint and the namespace of a submission.\<close>

definition engine_stub :: "'s workflow_engine \<Rightarrow> int \<Rightarrow> 's engine_client" where
  "engine_stub E now =
     \<lparr>st_SubmitWorkflow = (\<lambda>s ir hint ns. case eh_SubmitWorkflow E s (Some ir) [] now of
          (Inl rpc, s') \<Rightarrow> (Inl (fst rpc), s') | (Inr (runID, t), s') \<Rightarrow> (Inr runID, s')),
      st_GetWorkflowStatus = (\<lambda>s runID. case eh_GetWorkflowStatus E s runID of Inl rpc \<Rightarrow> Inl (fst rpc) | Inr run \<Rightarrow> Inr run),
      st_CancelWorkflow = (\<lambda>s runID. case eh_CancelWorkflow E s runID '''' now of
          (Inl rpc, s') \<Rightarrow> (Some (fst rpc), s') | (Inr t, s') \<Rightarrow> (None, s')),
      st_WatchWorkflow = (\<lambda>s runID. map_option (\<lambda>(rpc, evs). (map_option fst rpc, evs)) (eh_WatchWorkflow E s runID (\<lambda>_ _. None)))\<rparr>"

end
