(* ===== verification/Gateway_Http.thy ===== *)
theory Gateway_Http
  imports Gateway_Clients
begin

text \<open>
  The HTTP handlers of the API gateway (\<^verbatim>\<open>services/api-gateway/internal/api/handler.go\<close>).  A request is
  its parts: the body, the path value \<^verbatim>\<open>id\<close> and the query; an answer is a status code and a body, with
  texts of errors left unrendered.
\<close>

section \<open>Answers\<close>

datatype err_text = Text string | ErrorText gw_error

datatype http_body =
    ErrorBody err_text string
  | CompileErrorsBody "CompileError list"
  | DryRunBody "string list"
  | ApplyBody string string "string list"
  | WorkflowStatusBody string string string string
  | OutputsBody "(string, string) gomap"
  | PublishEventBody string
  | EventStream string
  | NoBody

type_synonym http_response = "nat \<times> http_body"

definition writeError :: "nat \<Rightarrow> string \<Rightarrow> string \<Rightarrow> http_response" where
  "writeError status message code = (status, ErrorBody (Text message) code)"

definition maxBodyBytes :: nat where "maxBodyBytes = 1048576"

definition readBody :: "string \<Rightarrow> http_response + string" where
  "readBody body =
     (if length body > maxBodyBytes then Inl (writeError 413 ''request body too large'' ''BODY_TOO_LARGE'') else Inr body)"

definition internal_error :: http_response where "internal_error = writeError 500 ''internal error'' ''INTERNAL''"
definition run_not_found :: http_response where "run_not_found = writeError 404 ''workflow run not found'' ''NOT_FOUND''"
definition no_run_id :: http_response where "no_run_id = writeError 400 ''run_id is required'' ''INVALID_ARGUMENT''"

section \<open>Apply\<close>

definition hd_applyWorkflow ::
  "'v yaml_any \<Rightarrow> ('s, 'b) ApplyService \<Rightarrow> 's \<Rightarrow> int \<Rightarrow> (string, string) gomap \<Rightarrow> string \<Rightarrow> http_response \<times> 's" where
  "hd_applyWorkflow Y S s now query body =
     (let req = \<lparr>rq_ManifestYAML = body, rq_Namespace = gm_get '''' query ''namespace'', rq_DryRun = (gm_get '''' query ''dry_run'' = ''true''),
                 rq_EngineHint = gm_get '''' query ''engine''\<rparr>
      in case ApplyWorkflow Y S s now req of
           ((result, Some err), s') \<Rightarrow>
             (if errors_Is err ErrCompilationFailed then (422, CompileErrorsBody (rr_Errors result))
              else if errors_Is err ErrEngineUnavailable then writeError 503 ''engine unavailable'' ''ENGINE_UNAVAILABLE''
              else internal_error, s')
         | ((result, None), s') \<Rightarrow>
             (if rq_DryRun req then (200, DryRunBody (rr_Warnings result))
              else (202, ApplyBody (rr_RunID result) (rr_Status result) (rr_Warnings result)), s'))"

text \<open>The namespace of the query goes to the correlation metadata unless a header gave one.\<close>

definition apply_correlation :: "correlation \<Rightarrow> (string, string) gomap \<Rightarrow> correlation" where
  "apply_correlation c query =
     (if gm_get '''' query ''namespace'' \<noteq> '''' \<and> co_Namespace c = '''' then c\<lparr>co_Namespace := gm_get '''' query ''namespace''\<rparr> else c)"

definition handleApply ::
  "'v yaml_any \<Rightarrow> ('s, 'b) ApplyService \<Rightarrow> 's \<Rightarrow> int \<Rightarrow> (string, string) gomap \<Rightarrow> string \<Rightarrow> http_response \<times> 's" where
  "handleApply Y S s now query body0 =
     (case readBody body0 of
        Inl resp \<Rightarrow> (resp, s)
      | Inr body \<Rightarrow>
          (case DetectKind Y body of
             Inl err \<Rightarrow> ((400, ErrorBody (ErrorText err) (if \<not> errors_Is err ErrUnknownKind then ''INVALID_YAML'' else ''UNSUPPORTED_KIND'')), s)
           | Inr kind \<Rightarrow>
               if kind = ''Workflow'' then hd_applyWorkflow Y S s now query body
               else ((400, ErrorBody (ErrorText (Errorf ''kind %q: not yet supported'' [FS kind])) ''UNSUPPORTED_KIND''), s)))"

section \<open>Runs\<close>

definition handleGetWorkflow :: "('s, 'b) ApplyService \<Rightarrow> 's \<Rightarrow> string \<Rightarrow> http_response" where
  "handleGetWorkflow S s i =
     (if i = '''' then no_run_id
      else case sv_GetWorkflowStatus S s i of
          Inl err \<Rightarrow> if errors_Is err ErrNotFound then run_not_found else internal_error
        | Inr run \<Rightarrow> (200, WorkflowStatusBody (ws_RunID run) (ws_WorkflowID run) (ws_Status run) (ws_CurrentState run)))"

definition handleWorkflowOutputs :: "('s, 'b) ApplyService \<Rightarrow> 's \<Rightarrow> string \<Rightarrow> http_response" where
  "handleWorkflowOutputs S s i =
     (if i = '''' then no_run_id
      else case sv_GetWorkflowStatus S s i of
          Inl err \<Rightarrow> if errors_Is err ErrNotFound then run_not_found else internal_error
        | Inr run \<Rightarrow> (200, OutputsBody (ws_Outputs run)))"

definition handleDeleteWorkflow :: "('s, 'b) ApplyService \<Rightarrow> 's \<Rightarrow> string \<Rightarrow> http_response \<times> 's" where
  "handleDeleteWorkflow S s i =
     (if i = '''' then (no_run_id, s)
      else case sv_CancelWorkflow S s i of
          (Some err, s') \<Rightarrow> (if errors_Is err ErrNotFound then run_not_found else internal_error, s')
        | (None, s') \<Rightarrow> ((204, NoBody), s'))"

section \<open>Events\<close>

text \<open>A field of type \<^verbatim>\<open>json.RawMessage\<close>: the text of the last member that matches its name.\<close>

definition raw_field :: "string \<Rightarrow> string \<Rightarrow> string" where
  "raw_field name s =
     (case json_Unmarshal s of
        Some (JObj (m # ms)) \<Rightarrow>
          (case filter (\<lambda>(k, v). EqualFold k name) (rev (raw_members (tl (skip_ws s)))) of [] \<Rightarrow> '''' | (k, v) # _ \<Rightarrow> v)
      | _ \<Rightarrow> '''')"

definition publishEventReq :: "string \<Rightarrow> (string \<times> string) option" where
  "publishEventReq body =
     (case Option.bind (json_Unmarshal body) decode_struct of
        None \<Rightarrow> None
      | Some m \<Rightarrow> map_option (\<lambda>t. (t, raw_field ''data'' body)) (decode_string (struct_field ''event_type'' m)))"

definition handlePublishEvent :: "('s, 'b) ApplyService \<Rightarrow> 'b \<Rightarrow> string \<Rightarrow> string \<Rightarrow> http_response \<times> 'b" where
  "handlePublishEvent S b i body0 =
     (if i = '''' then (no_run_id, b)
      else case readBody body0 of
          Inl resp \<Rightarrow> (resp, b)
        | Inr body \<Rightarrow>
            (case publishEventReq body of
               None \<Rightarrow> (writeError 400 ''invalid JSON body'' ''INVALID_JSON'', b)
             | Some (eventType, dat) \<Rightarrow>
                 (case sv_PublishEvent S b \<lparr>ep_RunID = i, ep_Type = eventType, ep_Data = dat\<rparr> of
                    (Inl err, b') \<Rightarrow>
                      (if errors_Is err ErrInvalidEvent then (400, ErrorBody (ErrorText err) ''INVALID_ARGUMENT'')
                       else if errors_Is err ErrEngineUnavailable then writeError 503 ''event bus unavailable'' ''EVENT_BUS_UNAVAILABLE''
                       else internal_error, b')
                  | (Inr eventID, b') \<Rightarrow> ((202, PublishEventBody eventID), b'))))"

section \<open>Logs\<close>

definition sseWatchEvent :: "WatchEvent \<Rightarrow> (string \<times> string) list" where
  "sseWatchEvent ev =
     [(''run_id'', we_RunID ev), (''event_type'', we_EventType ev)] @
     (if we_FromState ev \<noteq> '''' then [(''from_state'', we_FromState ev)] else []) @
     (if we_ToState ev \<noteq> '''' then [(''to_state'', we_ToState ev)] else []) @
     [(''status'', we_Status ev)] @
     (if we_Timestamp ev \<noteq> '''' then [(''timestamp'', we_Timestamp ev)] else []) @
     (if we_Payload ev \<noteq> '''' then [(''payload'', we_Payload ev)] else [])"

definition sse_frame :: "WatchEvent \<Rightarrow> string" where
  "sse_frame ev = ''data: '' @ print_members (sseWatchEvent ev) @ [CHR 10, CHR 10]"

text \<open>The completed event gets the outputs of the run.\<close>

definition enrich :: "('s, 'b) ApplyService \<Rightarrow> 's \<Rightarrow> string \<Rightarrow> WatchEvent \<Rightarrow> WatchEvent" where
  "enrich S s i ev =
     (if we_Status ev = statusCompleted \<and> we_Payload ev = ''''
      then (case sv_GetWorkflowStatus S s i of
              Inr run \<Rightarrow> if ws_Outputs run \<noteq> [] then ev\<lparr>we_Payload := marshalTerminalPayload (ws_Outputs run)\<rparr> else ev
            | Inl err \<Rightarrow> ev)
      else ev)"

definition handleWorkflowLogs :: "('s, 'b) ApplyService \<Rightarrow> 's \<Rightarrow> 'b \<Rightarrow> bool list \<Rightarrow> string \<Rightarrow> http_response option" where
  "handleWorkflowLogs S s b schedule i =
     (if i = '''' then Some no_run_id
      else map_option (\<lambda>(err, evs).
          if evs \<noteq> [] then (200, EventStream (concat (map (sse_frame \<circ> enrich S s i) evs)))
          else case err of
              Some e \<Rightarrow>
                if errors_Is e ErrNotFound then run_not_found
                else if \<not> errors_Is e (CtxEnded CtxCanceled) then internal_error else (200, NoBody)
            | None \<Rightarrow> (200, NoBody))
        (WatchWorkflowLogs S s b schedule i))"

section \<open>The event stream is well formed\<close>

lemma utf8_seq_bytes:
  assumes "x \<in> set (take (utf8_seq s) s)"
  shows "128 \<le> byte x"
proof -
  have "utf8_seq s \<noteq> 0" using assms by (cases "utf8_seq s = 0") auto
  then consider "utf8_seq s = 2" | "utf8_seq s = 3" | "utf8_seq s = 4"
    using utf8_seq_values [of s] by auto
  then show ?thesis
  proof cases
    case 1
    then obtain a b r where s: "s = a # b # r"
      using utf8_seq_le [of s] by (auto simp: Suc_le_length_iff numeral_eq_Suc)
    have "128 \<le> byte a \<and> 128 \<le> byte b"
      using 1 unfolding s utf8_seq_def Let_def by (simp add: in_range_def split: if_split_asm)
    with 1 assms show ?thesis by (auto simp: s)
  next
    case 2
    then obtain a b c r where s: "s = a # b # c # r"
      using utf8_seq_le [of s] by (auto simp: Suc_le_length_iff numeral_eq_Suc)
    have "128 \<le> byte a \<and> 128 \<le> byte b \<and> 128 \<le> byte c"
      using 2 unfolding s utf8_seq_def Let_def by (simp add: in_range_def split: if_split_asm)
    with 2 assms show ?thesis by (auto simp: s)
  next
    case 3
    then obtain a b c d r where s: "s = a # b # c # d # r"
      using utf8_seq_le [of s] by (auto simp: Suc_le_length_iff numeral_eq_Suc)
    have "128 \<le> byte a \<and> 128 \<le> byte b \<and> 128 \<le> byte c \<and> 128 \<le> byte d"
      using 3 unfolding s utf8_seq_def Let_def by (simp add: in_range_def split: if_split_asm)
    with 3 assms show ?thesis by (auto simp: s)
  qed
qed

lemma hex_digit_byte: "d < 16 \<Longrightarrow> 48 \<le> byte (hex_digit d) \<and> byte (hex_digit d) < 128"
  by (simp add: hex_digit_def)

lemma escape_u_no_newline: "CHR 10 \<notin> set (escape_u r)"
proof -
  have "hex_digit d \<noteq> CHR 10" if "d < 16" for d
  proof
    assume "hex_digit d = CHR 10"
    then have "byte (hex_digit d) = byte (CHR 10)" by (rule arg_cong)
    with hex_digit_byte [OF that] show False by simp
  qed
  from this [symmetric] show ?thesis by (simp add: escape_u_def)
qed

lemma escape_no_newline: "CHR 10 \<notin> set (escape s)"
proof (induction s rule: escape.induct)
  case (2 c cs)
  have ascii: "CHR 10 \<notin> set (escape_ascii c)"
    using escape_u_no_newline by (simp add: escape_ascii_def)
  have seq: "CHR 10 \<notin> set (take (utf8_seq (c # cs)) (c # cs))"
  proof
    assume "CHR 10 \<in> set (take (utf8_seq (c # cs)) (c # cs))"
    from utf8_seq_bytes [OF this] show False by simp
  qed
  show ?case
    using 2 ascii seq escape_u_no_newline by (simp add: Let_def del: take_Suc_Cons)
qed simp

lemma print_members_no_newline: "CHR 10 \<notin> set (print_members ms)"
proof -
  have q: "CHR 10 \<notin> set (quote s)" for s by (simp add: quote_def escape_no_newline)
  have "CHR 10 \<notin> set (commas ws)" if "\<forall>w \<in> set ws. CHR 10 \<notin> set w" for ws
    using that by (cases ws) (auto simp: commas_def)
  from this [of "map (\<lambda>(k, v). quote k @ '':'' @ quote v) ms"] q show ?thesis
    by (auto simp: print_members_def)
qed

text \<open>The reader of an event stream: the data of the lines that carry some.\<close>

definition sse_data :: "string \<Rightarrow> string list" where
  "sse_data s = map (drop 6) (filter (\<lambda>l. HasPrefix l ''data: '') (Split (CHR 10) s))"

lemma sse_data_frame: "sse_data (sse_frame ev @ s) = print_members (sseWatchEvent ev) # sse_data s"
proof -
  have "Split (CHR 10) (sse_frame ev @ s) = (''data: '' @ print_members (sseWatchEvent ev)) # [] # Split (CHR 10) s"
    using Split_append_sep [of "CHR 10" "''data: '' @ print_members (sseWatchEvent ev)" "CHR 10 # s"] print_members_no_newline
    by (simp add: sse_frame_def)
  then show ?thesis by (simp add: sse_data_def HasPrefix_def)
qed

lemma sse_keys: "k \<in> fst ` set (sseWatchEvent ev) \<Longrightarrow> to_valid_utf8 k = k"
proof -
  have "list_all (\<lambda>k. to_valid_utf8 k = k) [''run_id'', ''event_type'', ''from_state'', ''to_state'', ''status'', ''timestamp'', ''payload'']"
    by code_simp
  then show "k \<in> fst ` set (sseWatchEvent ev) \<Longrightarrow> to_valid_utf8 k = k"
    by (auto simp: sseWatchEvent_def split: if_splits)
qed

lemma sse_json:
  "json_Unmarshal (print_members (sseWatchEvent ev)) =
     Some (JObj (map (\<lambda>(k, v). (k, JStr (to_valid_utf8 v))) (sseWatchEvent ev)))"
proof -
  have "map (to_valid_utf8 \<circ> fst) (sseWatchEvent ev) = map fst (sseWatchEvent ev)"
    using sse_keys by force
  moreover have "distinct (map fst (sseWatchEvent ev))" by (simp add: sseWatchEvent_def)
  moreover have "map (\<lambda>(k, v). (to_valid_utf8 k, JStr (to_valid_utf8 v))) (sseWatchEvent ev) =
      map (\<lambda>(k, v). (k, JStr (to_valid_utf8 v))) (sseWatchEvent ev)"
    by (rule map_cong [OF refl]) (use sse_keys in force)
  ultimately show ?thesis
    using json_Unmarshal_print [of "sseWatchEvent ev"] by (simp add: sseWatchEvent_def)
qed

text \<open>C28 The reader of the event stream gets back, for any texts in the events and whatever
  characters they contain, exactly the objects sent, one per event and in order; bytes that are
  not UTF-8 are replaced.\<close>

theorem event_stream_roundtrip:
  "map json_Unmarshal (sse_data (concat (map sse_frame evs))) =
     map (\<lambda>ev. Some (JObj (map (\<lambda>(k, v). (k, JStr (to_valid_utf8 v))) (sseWatchEvent ev)))) evs"
  by (induction evs) (simp_all add: sse_data_frame sse_json, simp add: sse_data_def HasPrefix_def)

section \<open>Applying a manifest\<close>

lemma gw_submit_running:
  assumes "po_GetWorkflowStatus (sv_engine S) s (ManifestWorkflowID Y m) = Inr run" "ws_Status run = statusRunning"
  shows "gw_submit Y S s now m compiled hint =
    ((\<lparr>rr_RunID = ws_RunID run, rr_Warnings = gcr_Warnings compiled, rr_Errors = [], rr_Status = ''existing''\<rparr>, None), s)"
  using assms by (simp add: gw_submit_def Let_def)

text \<open>The identifier a submission uses, and the outcome of submitting.\<close>

definition apply_id :: "'v yaml_any \<Rightarrow> ('s, 'b) ApplyService \<Rightarrow> 's \<Rightarrow> int \<Rightarrow> string \<Rightarrow> string" where
  "apply_id Y S s now m =
     (case po_GetWorkflowStatus (sv_engine S) s (ManifestWorkflowID Y m) of
        Inr run \<Rightarrow> if ws_Status run = statusCompleted then rerunWorkflowID (ManifestWorkflowID Y m) now else ManifestWorkflowID Y m
      | Inl err \<Rightarrow> ManifestWorkflowID Y m)"

lemma status_constants: "statusRunning \<noteq> statusCompleted"
  by (simp add: statusRunning_def statusCompleted_def)

lemma gw_submit_outcome:
  assumes "gw_submit Y S s now m compiled hint = ((res, err), s')"
  shows "(err \<noteq> None \<and> s' = s) \<or>
    (\<exists>run. po_GetWorkflowStatus (sv_engine S) s (ManifestWorkflowID Y m) = Inr run \<and> ws_Status run = statusRunning \<and>
       s' = s \<and> err = None \<and> rr_Status res = ''existing'' \<and> rr_RunID res = ws_RunID run) \<or>
    (\<exists>ans. po_SubmitWorkflow (sv_engine S) s (gcr_IRBytes compiled) hint (apply_id Y S s now m) (gcr_Namespace compiled) = (ans, s') \<and>
       (case ans of Inl e \<Rightarrow> err \<noteq> None | Inr r \<Rightarrow> err = None \<and> rr_Status res = ''new'' \<and> rr_RunID res = r))"
  using assms status_constants
  by (auto simp: gw_submit_def Let_def apply_id_def split: sum.splits prod.splits if_splits)

text \<open>Three facts on what an answer says about the engine.\<close>

lemma handleApply_cases:
  assumes "handleApply Y S s now query body = (resp, s')"
  shows "(s' = s \<and> fst resp \<noteq> 202) \<or>
    (\<exists>compiled res err. sv_compiler S body (gm_get '''' query ''namespace'') False = Inr compiled \<and> gcr_Errors compiled = [] \<and>
       gw_submit Y S s now body compiled (gm_get '''' query ''engine'') = ((res, err), s') \<and>
       (fst resp = 202 \<longleftrightarrow> err = None) \<and> (err = None \<longrightarrow> resp = (202, ApplyBody (rr_RunID res) (rr_Status res) (rr_Warnings res))))"
  using assms
  by (auto simp: handleApply_def readBody_def writeError_def hd_applyWorkflow_def ApplyWorkflow_def Let_def internal_error_def
      split: sum.splits if_splits prod.splits option.splits)

lemma apply_outcome:
  assumes "handleApply Y S s now query body = (resp, s')"
  shows "(fst resp \<noteq> 202 \<longrightarrow> s' = s \<or>
      (\<exists>ir hint ns e. po_SubmitWorkflow (sv_engine S) s ir hint (apply_id Y S s now body) ns = (Inl e, s'))) \<and>
    (fst resp = 202 \<longrightarrow>
      (\<exists>run ws. po_GetWorkflowStatus (sv_engine S) s (ManifestWorkflowID Y body) = Inr run \<and> ws_Status run = statusRunning \<and>
         s' = s \<and> resp = (202, ApplyBody (ws_RunID run) ''existing'' ws)) \<or>
      (\<exists>ir hint ns r ws. po_SubmitWorkflow (sv_engine S) s ir hint (apply_id Y S s now body) ns = (Inr r, s') \<and>
         resp = (202, ApplyBody r ''new'' ws)))"
proof (rule disjE [OF handleApply_cases [OF assms]])
  assume "s' = s \<and> fst resp \<noteq> 202"
  then show ?thesis by simp
next
  assume "\<exists>compiled res err. sv_compiler S body (gm_get '''' query ''namespace'') False = Inr compiled \<and> gcr_Errors compiled = [] \<and>
       gw_submit Y S s now body compiled (gm_get '''' query ''engine'') = ((res, err), s') \<and>
       (fst resp = 202 \<longleftrightarrow> err = None) \<and> (err = None \<longrightarrow> resp = (202, ApplyBody (rr_RunID res) (rr_Status res) (rr_Warnings res)))"
  then obtain compiled res err where g: "gw_submit Y S s now body compiled (gm_get '''' query ''engine'') = ((res, err), s')"
    and c: "fst resp = 202 \<longleftrightarrow> err = None" "err = None \<longrightarrow> resp = (202, ApplyBody (rr_RunID res) (rr_Status res) (rr_Warnings res))"
    by blast
  from gw_submit_outcome [OF g] c show ?thesis
    by (elim disjE exE conjE) (auto split: sum.splits)
qed


text \<open>The answers to a sequence of applies of one manifest, at the given times.\<close>

fun applies ::
  "'v yaml_any \<Rightarrow> ('s, 'b) ApplyService \<Rightarrow> (string, string) gomap \<Rightarrow> string \<Rightarrow> int list \<Rightarrow> 's \<Rightarrow> http_response list \<times> 's" where
  "applies Y S query body [] s = ([], s)"
| "applies Y S query body (t # ts) s =
     (case handleApply Y S s t query body of
        (resp, s1) \<Rightarrow> (case applies Y S query body ts s1 of (resps, s2) \<Rightarrow> (resp # resps, s2)))"

text \<open>Applying a manifest again while the run under its identifier is running changes nothing, no
  matter how often: every answer names the running run.\<close>

theorem apply_idempotent_while_running:
  assumes "sv_compiler S body (gm_get '''' query ''namespace'') False = Inr compiled" "gcr_Errors compiled = []"
    and "DetectKind Y body = Inr ''Workflow''" "length body \<le> maxBodyBytes" "gm_get '''' query ''dry_run'' \<noteq> ''true''"
    and "po_GetWorkflowStatus (sv_engine S) s (ManifestWorkflowID Y body) = Inr run" "ws_Status run = statusRunning"
  shows "applies Y S query body ts s =
    (replicate (length ts) (202, ApplyBody (ws_RunID run) ''existing'' (gcr_Warnings compiled)), s)"
proof -
  have "handleApply Y S s t query body = ((202, ApplyBody (ws_RunID run) ''existing'' (gcr_Warnings compiled)), s)" for t
    using assms by (simp add: handleApply_def readBody_def hd_applyWorkflow_def ApplyWorkflow_def gw_submit_running)
  then show ?thesis by (induction ts) simp_all
qed


end
