(* ===== verification/Gateway_Crd.thy ===== *)
theory Gateway_Crd
  imports Gateway_Apply
begin

text \<open>
  The controller of \<^verbatim>\<open>Workflow\<close> resources
  (\<^verbatim>\<open>services/api-gateway/internal/infrastructure/crd/reconciler.go\<close>).  The Kubernetes client is a
  parameter, and so is the encoding of the manifest; the apply path is the one of \<open>Gateway_Apply\<close>.
\<close>

section \<open>Resources\<close>

text \<open>A condition of the status; \<open>None\<close> in a list of conditions is an entry that is no object.\<close>

record condition =
  cn_type :: string
  cn_status :: string
  cn_reason :: string
  cn_message :: message
  cn_lastTransitionTime :: string

record workflow_status =
  wst_observedGeneration :: int
  wst_extra :: "(string, string) gomap"
  wst_conditions :: "condition option list"

record 'v workflow_cr =
  wc_name :: string
  wc_namespace :: string
  wc_generation :: int
  wc_spec :: "(string, 'v) gomap option"
  wc_status :: "workflow_status option"

datatype kube_err = KubeNotFound | KubeErr string

record ('k, 'v) kube_client =
  k_Get :: "'k \<Rightarrow> string \<times> string \<Rightarrow> kube_err + 'v workflow_cr"
  k_StatusUpdate :: "'k \<Rightarrow> 'v workflow_cr \<Rightarrow> kube_err option \<times> 'k"

text \<open>The manifest that is marshalled.\<close>

record 'v manifest_tree =
  mt_apiVersion :: string
  mt_kind :: string
  mt_metadata :: "(string, string) gomap"
  mt_spec :: "(string, 'v) gomap"

text \<open>\<open>as_string\<close> is the type assertion \<^verbatim>\<open>.(string)\<close> and \<open>marshal\<close> is \<^verbatim>\<open>yaml.Marshal\<close>.\<close>

record 'v crd_lib =
  cl_as_string :: "'v \<Rightarrow> string option"
  cl_marshal :: "'v manifest_tree \<Rightarrow> string + string"

section \<open>The reconciler\<close>

definition needsReconcile :: "'v workflow_cr \<Rightarrow> bool" where
  "needsReconcile u = (wc_generation u \<noteq> (case wc_status u of None \<Rightarrow> 0 | Some st \<Rightarrow> wst_observedGeneration st))"

definition spec_string :: "'v crd_lib \<Rightarrow> (string, 'v) gomap \<Rightarrow> string \<Rightarrow> string" where
  "spec_string L spec k = (case map_of spec k of None \<Rightarrow> '''' | Some v \<Rightarrow> (case cl_as_string L v of None \<Rightarrow> '''' | Some s \<Rightarrow> s))"

definition buildManifest :: "'v crd_lib \<Rightarrow> 'v workflow_cr \<Rightarrow> message + string \<times> string" where
  "buildManifest L u =
     (case wc_spec u of
        None \<Rightarrow> Inl (Sprintf ''workflow %s: missing spec'' [FS (wc_name u)])
      | Some spec \<Rightarrow>
          let engineHint = spec_string L spec ''engine''; version = spec_string L spec ''version'';
              manifestSpec = filter (\<lambda>(k, v). \<not> (k = ''engine'' \<or> k = ''version'')) spec;
              metadata = [(''name'', wc_name u)] @ (if wc_namespace u \<noteq> '''' then [(''namespace'', wc_namespace u)] else []) @
                (if version \<noteq> '''' then [(''version'', version)] else [])
          in case cl_marshal L \<lparr>mt_apiVersion = ''zynax.io/v1'', mt_kind = ''Workflow'', mt_metadata = metadata, mt_spec = manifestSpec\<rparr> of
               Inl err \<Rightarrow> Inl (Sprintf ''workflow %s: marshal manifest: %w'' [FS (wc_name u), FS err])
             | Inr out \<Rightarrow> Inr (out, engineHint))"

text \<open>At most three errors, and how many more there are.\<close>

definition compile_parts :: "CompileError list \<Rightarrow> message list" where
  "compile_parts errs =
     map (\<lambda>e. case gce_Message e of Sprintf f as \<Rightarrow> Sprintf (gce_Code e @ '': '' @ f) as) (take 3 errs) @
     (if length errs > 3 then [Sprintf ''(+%d more)'' [FI (int (length errs) - 3)]] else [])"

definition join_messages :: "message list \<Rightarrow> message" where
  "join_messages ms =
     Sprintf (concat (map (\<lambda>(i, m). (if i = 0 then '''' else ''; '') @ (case m of Sprintf f as \<Rightarrow> f)) (enumerate 0 ms)))
       (concat (map (\<lambda>m. case m of Sprintf f as \<Rightarrow> as) ms))"

definition compileErrorMessage :: "CompileError list \<Rightarrow> message" where
  "compileErrorMessage errs = (if errs = [] then Sprintf ''compilation failed'' [] else join_messages (compile_parts errs))"

type_synonym conditionSpec = "string \<times> string \<times> string \<times> message"

text \<open>The time of the last transition: of the last earlier condition of the type and status that has
  one, else now.\<close>

fun condition_time :: "string \<Rightarrow> string \<Rightarrow> string \<Rightarrow> condition option list \<Rightarrow> string" where
  "condition_time ty st transition [] = transition"
| "condition_time ty st transition (None # prev) = condition_time ty st transition prev"
| "condition_time ty st transition (Some p # prev) =
     condition_time ty st
       (if cn_type p \<noteq> ty then transition
        else if cn_status p = st \<and> cn_lastTransitionTime p \<noteq> '''' then cn_lastTransitionTime p else transition) prev"

definition mergeConditions :: "string \<Rightarrow> condition option list \<Rightarrow> conditionSpec list \<Rightarrow> condition option list" where
  "mergeConditions now prev specs =
     map (\<lambda>(ty, st, reason, msg). Some \<lparr>cn_type = ty, cn_status = st, cn_reason = reason, cn_message = msg,
            cn_lastTransitionTime = condition_time ty st now prev\<rparr>) specs"

text \<open>\<open>now\<close> is the clock.\<close>

definition writeStatus ::
  "('k, 'v) kube_client \<Rightarrow> int \<Rightarrow> 'k \<Rightarrow> 'v workflow_cr \<Rightarrow> (string, string) gomap \<Rightarrow> conditionSpec list \<Rightarrow> kube_err option \<times> 'k" where
  "writeStatus K now k u extra conds =
     (let prev = (case wc_status u of None \<Rightarrow> [] | Some st \<Rightarrow> wst_conditions st);
          status = \<lparr>wst_observedGeneration = wc_generation u, wst_extra = extra,
                    wst_conditions = mergeConditions (format_RFC3339 now) prev conds\<rparr>
      in k_StatusUpdate K k (u\<lparr>wc_status := Some status\<rparr>))"

datatype reconcile_err = GetFailed kube_err | ApplyFailed gw_error | UpdateFailed kube_err

definition crd_Reconcile ::
  "('k, 'v) kube_client \<Rightarrow> 'v crd_lib \<Rightarrow> 'y yaml_any \<Rightarrow> ('s, 'b) ApplyService \<Rightarrow> int \<Rightarrow> 'k \<Rightarrow> 's \<Rightarrow> string \<times> string \<Rightarrow>
   reconcile_err option \<times> 'k \<times> 's" where
  "crd_Reconcile K L Y S now k s name =
     (case k_Get K k name of
        Inl err \<Rightarrow> (if err = KubeNotFound then None else Some (GetFailed err), k, s)
      | Inr u \<Rightarrow>
          if \<not> needsReconcile u then (None, k, s)
          else case buildManifest L u of
              Inl err \<Rightarrow>
                (case writeStatus K now k u [] [(''Compiled'', ''False'', ''BuildFailed'', err)] of (e, k') \<Rightarrow> (map_option UpdateFailed e, k', s))
            | Inr (manifest, engineHint) \<Rightarrow>
                (case ApplyWorkflow Y S s ((now - 62135596800000000000) div 1000000000)
                        \<lparr>rq_ManifestYAML = manifest, rq_Namespace = wc_namespace u, rq_DryRun = False, rq_EngineHint = engineHint\<rparr> of
                   ((result, Some err), s') \<Rightarrow>
                     if errors_Is err ErrCompilationFailed
                     then (case writeStatus K now k u [] [(''Compiled'', ''False'', ''CompilationFailed'', compileErrorMessage (rr_Errors result))] of
                             (e, k') \<Rightarrow> (map_option UpdateFailed e, k', s'))
                     else (Some (ApplyFailed err), k, s')
                 | ((result, None), s') \<Rightarrow>
                     (case writeStatus K now k u
                             [(''workflowID'', ManifestWorkflowID Y manifest), (''runID'', rr_RunID result), (''engine'', engineHint)]
                             [(''Compiled'', ''True'', ''Compiled'', Sprintf ''manifest compiled to the engine-agnostic IR'' []),
                              (''Dispatched'', ''True'', ''Dispatched'', Sprintf ''submitted as run %q'' [FS (rr_RunID result)])] of
                        (e, k') \<Rightarrow> (map_option UpdateFailed e, k', s'))))"

section \<open>Properties\<close>

text \<open>What the controller relies on: a status update that succeeds is what the next reading sees, and it
  changes neither the specification nor its generation.\<close>

definition kube_ok :: "('k, 'v) kube_client \<Rightarrow> bool" where
  "kube_ok K \<longleftrightarrow> (\<forall>k k' u. k_StatusUpdate K k u = (None, k') \<longrightarrow> k_Get K k' (wc_namespace u, wc_name u) = Inr u) \<and>
     (\<forall>k ns n u. k_Get K k (ns, n) = Inr u \<longrightarrow> wc_namespace u = ns \<and> wc_name u = n)"

lemma writeStatus_observed:
  assumes "kube_ok K" "writeStatus K now k u extra conds = (None, k')"
  shows "\<exists>u'. k_Get K k' (wc_namespace u, wc_name u) = Inr u' \<and> \<not> needsReconcile u' \<and> wc_spec u' = wc_spec u"
proof -
  obtain st where "k_StatusUpdate K k (u\<lparr>wc_status := Some st\<rparr>) = (None, k')" "wst_observedGeneration st = wc_generation u"
    using assms(2) by (auto simp: writeStatus_def Let_def)
  with assms(1) show ?thesis
    unfolding kube_ok_def needsReconcile_def by (force)
qed

lemma Reconcile_settled:
  "k_Get K k name = Inr u \<Longrightarrow> \<not> needsReconcile u \<Longrightarrow> crd_Reconcile K L Y S now k s name = (None, k, s)"
  by (simp add: crd_Reconcile_def)

lemma Reconcile_observed:
  assumes ok: "kube_ok K" and r: "crd_Reconcile K L Y S now k s (ns, n) = (None, k', s')"
  shows "(\<exists>u'. k_Get K k' (ns, n) = Inr u' \<and> \<not> needsReconcile u') \<or> (k_Get K k' (ns, n) = Inl KubeNotFound \<and> k' = k \<and> s' = s)"
proof (cases "k_Get K k (ns, n)")
  case (Inl err)
  with r show ?thesis by (auto simp: crd_Reconcile_def split: if_splits)
next
  case (Inr u)
  have nm: "wc_namespace u = ns" "wc_name u = n" using ok Inr unfolding kube_ok_def by blast+
  show ?thesis
  proof (cases "needsReconcile u")
    case False
    with Inr r show ?thesis by (auto simp: crd_Reconcile_def)
  next
    case True
    then obtain extra conds where "writeStatus K now k u extra conds = (None, k')"
      using r Inr by (auto simp: crd_Reconcile_def split: sum.splits prod.splits option.splits if_splits)
    from writeStatus_observed [OF ok this] nm show ?thesis by auto
  qed
qed


text \<open>A reconciliation that fails after the manifest was applied is repeated, and with it the apply:
  when the status cannot be written, the resource still needs reconciling.\<close>

lemma reconcile_retries_apply:
  assumes "k_Get K k name = Inr u" "needsReconcile u" "buildManifest L u = Inr (manifest, hint)"
    and "\<And>u'. k_StatusUpdate K k u' = (Some err, k)"
    and "ApplyWorkflow Y S s ((now - 62135596800000000000) div 1000000000)
      \<lparr>rq_ManifestYAML = manifest, rq_Namespace = wc_namespace u, rq_DryRun = False, rq_EngineHint = hint\<rparr> = ((result, None), s')"
  shows "crd_Reconcile K L Y S now k s name = (Some (UpdateFailed err), k, s') \<and> needsReconcile u"
  using assms by (simp add: crd_Reconcile_def writeStatus_def Let_def)

text \<open>The time of a transition moves only when the status of the condition does.\<close>

lemma condition_time_kept:
  "\<forall>p \<in> set prev. \<forall>c. p = Some c \<longrightarrow> cn_type c = ty \<longrightarrow> cn_status c = st \<and> cn_lastTransitionTime c = t0 \<Longrightarrow>
   t0 \<noteq> '''' \<Longrightarrow>
   condition_time ty st now prev = (if \<exists>c. Some c \<in> set prev \<and> cn_type c = ty then t0 else now)"
proof (induction ty st now prev rule: condition_time.induct)
  case (3 ty st now p prev)
  then show ?case by (cases "cn_type p = ty") auto
qed auto

end
