(* ===== verification/Engine_Argo.thy ===== *)
theory Engine_Argo
  imports Engine_Service Go_Time
begin

text \<open>
  The engine over Argo Workflows (\<^verbatim>\<open>services/engine-adapter/internal/infrastructure/argo_engine.go\<close>) and
  the contract of the engine port (\<^verbatim>\<open>domain/engine.go\<close>) as two locales: this engine satisfies both, the
  one over Temporal only that of watching, and only for a history with a closing event.  The client of the Argo server is a parameter, and so is the JSON
  encoding of protobuf messages.
\<close>

section \<open>Resources\<close>

record ArgoWorkflowStatus =
  aw_Phase :: string
  aw_Message :: string
  aw_StartedAt :: string
  aw_FinishedAt :: string

record ArgoObjectMeta =
  am_Name :: string
  am_Namespace :: string
  am_Labels :: "(string, string) gomap"

record ArgoWorkflowSpec =
  as_WorkflowTemplateRef :: "string option"
  as_Parameters :: "(string \<times> string) list"
  as_ServiceAccountName :: string

record ArgoWorkflow =
  ar_APIVersion :: string
  ar_Kind :: string
  ar_Metadata :: ArgoObjectMeta
  ar_Spec :: ArgoWorkflowSpec
  ar_Status :: ArgoWorkflowStatus

record ArgoConfig =
  cfg_Namespace :: string
  cfg_WorkflowTemplateRef :: string
  cfg_ServiceAccountName :: string

text \<open>The client; \<open>ac_answers\<close> is what a watch observes: the answer of each poll, the clock and the
  context's error before the next one.\<close>

record 'a argo_client =
  ac_SubmitWorkflow :: "'a \<Rightarrow> string \<Rightarrow> ArgoWorkflow \<Rightarrow> argo_err option \<times> 'a"
  ac_SendEvent :: "'a \<Rightarrow> string \<Rightarrow> string \<Rightarrow> string \<Rightarrow> argo_err option \<times> 'a"
  ac_GetWorkflow :: "'a \<Rightarrow> string \<Rightarrow> string \<Rightarrow> argo_err + ArgoWorkflow"
  ac_DeleteWorkflow :: "'a \<Rightarrow> string \<Rightarrow> string \<Rightarrow> argo_err option \<times> 'a"
  ac_answers :: "'a \<Rightarrow> string \<Rightarrow> string \<Rightarrow> ((argo_err + ArgoWorkflow) \<times> int \<times> ctx_error option) list"

definition mapArgoPhase :: "string \<Rightarrow> WorkflowStatus" where
  "mapArgoPhase phase =
     (if phase = ''Pending'' \<or> phase = '''' then WorkflowStatusPending
      else if phase = ''Running'' then WorkflowStatusRunning
      else if phase = ''Succeeded'' then WorkflowStatusCompleted
      else if phase = ''Failed'' \<or> phase = ''Error'' then WorkflowStatusFailed
      else if phase = ''Skipped'' then WorkflowStatusCancelled
      else WorkflowStatusPending)"

definition buildArgoWorkflow :: "string \<Rightarrow> string \<Rightarrow> (string, string) gomap \<Rightarrow> ArgoConfig \<Rightarrow> ArgoWorkflow" where
  "buildArgoWorkflow name irJSON labels cfg =
     \<lparr>ar_APIVersion = ''argoproj.io/v1alpha1'', ar_Kind = ''Workflow'',
      ar_Metadata = \<lparr>am_Name = name, am_Namespace = cfg_Namespace cfg, am_Labels = labels\<rparr>,
      ar_Spec = \<lparr>as_WorkflowTemplateRef = (if cfg_WorkflowTemplateRef cfg \<noteq> '''' then Some (cfg_WorkflowTemplateRef cfg) else None),
                 as_Parameters = [(''workflow-ir'', irJSON)],
                 as_ServiceAccountName = cfg_ServiceAccountName cfg\<rparr>,
      ar_Status = \<lparr>aw_Phase = '''', aw_Message = '''', aw_StartedAt = '''', aw_FinishedAt = ''''\<rparr>\<rparr>"

section \<open>The engine\<close>

fun argo_cause :: "argo_err \<Rightarrow> wf_err" where
  "argo_cause (ArgoCtx c) = CtxFailure c"
| "argo_cause err = ArgoFailure err"

definition argo_not_found :: "argo_err \<Rightarrow> wf_err" where
  "argo_not_found err = (if err = ArgoNotFound then ErrExecutionNotFound else argo_cause err)"

definition workflowIRToJSON :: "(WorkflowIR \<Rightarrow> string + string) \<Rightarrow> WorkflowIR \<Rightarrow> wf_error + string" where
  "workflowIRToJSON protojson ir =
     (case protojson ir of Inl err \<Rightarrow> Inl (Errorf ''protojson marshal: %w'' [FS err]) | Inr data \<Rightarrow> Inr data)"

definition argo_Submit ::
  "'a argo_client \<Rightarrow> (WorkflowIR \<Rightarrow> string + string) \<Rightarrow> ArgoConfig \<Rightarrow> 'a \<Rightarrow> WorkflowIR \<Rightarrow> (string, string) gomap \<Rightarrow> int \<Rightarrow>
   (wf_error + WorkflowRun) \<times> 'a" where
  "argo_Submit A protojson cfg a ir labels now =
     (let name = ir_WorkflowId ir in
      if name = '''' then (Inl (Errorf ''engine-adapter(argo): WorkflowIR.workflow_id must not be empty'' []), a)
      else case workflowIRToJSON protojson ir of
          Inl err \<Rightarrow> (Inl (Wrapf ''engine-adapter(argo): serialise WorkflowIR: %w'' [] err), a)
        | Inr irJSON \<Rightarrow>
            (case ac_SubmitWorkflow A a (cfg_Namespace cfg) (buildArgoWorkflow name irJSON labels cfg) of
               (Some err, a') \<Rightarrow> (Inl (Wrapf ''engine-adapter(argo): submit %q: %w'' [FS name] (Typed (argo_cause err))), a')
             | (None, a') \<Rightarrow>
                 (Inr \<lparr>wr_RunID = name, wr_WorkflowID = name, wr_Namespace = cfg_Namespace cfg, wr_Status = WorkflowStatusPending,
                       wr_CurrentState = '''', wr_Engine = ''argo'', wr_Labels = labels, wr_SubmittedAt = now, wr_StartedAt = 0,
                       wr_FinishedAt = 0, wr_CancellationReason = '''', wr_Outputs = []\<rparr>, a')))"

definition argo_Signal :: "'a argo_client \<Rightarrow> ArgoConfig \<Rightarrow> 'a \<Rightarrow> string \<Rightarrow> string \<Rightarrow> string \<Rightarrow> wf_error option \<times> 'a" where
  "argo_Signal A cfg a runID eventType payload =
     (if runID = '''' then (Some (Errorf ''engine-adapter(argo): Signal: runID must not be empty'' []), a)
      else if eventType = '''' then (Some (Errorf ''engine-adapter(argo): Signal: eventType must not be empty'' []), a)
      else case ac_SendEvent A a (cfg_Namespace cfg) (runID @ ''.'' @ eventType) payload of
          (Some err, a') \<Rightarrow>
            (Some (Wrapf ''engine-adapter(argo): signal run %q event %q: %w'' [FS runID, FS eventType] (Typed (argo_cause err))), a')
        | (None, a') \<Rightarrow> (None, a'))"

definition parsed_or_zero :: "string \<Rightarrow> int" where
  "parsed_or_zero s = (if s = '''' then 0 else case parse_RFC3339 s of None \<Rightarrow> 0 | Some t \<Rightarrow> t)"

definition argo_GetStatus :: "'a argo_client \<Rightarrow> ArgoConfig \<Rightarrow> 'a \<Rightarrow> string \<Rightarrow> wf_error + WorkflowRun" where
  "argo_GetStatus A cfg a runID =
     (if runID = '''' then Inl (Errorf ''engine-adapter(argo): GetStatus: runID must not be empty'' [])
      else case ac_GetWorkflow A a (cfg_Namespace cfg) runID of
          Inl err \<Rightarrow>
            Inl (Wrapf ''engine-adapter(argo): GetStatus %q: %w'' [FS runID]
              (Typed (argo_not_found err)))
        | Inr awf \<Rightarrow>
            Inr \<lparr>wr_RunID = runID, wr_WorkflowID = am_Name (ar_Metadata awf), wr_Namespace = am_Namespace (ar_Metadata awf),
                 wr_Status = mapArgoPhase (aw_Phase (ar_Status awf)), wr_CurrentState = aw_Phase (ar_Status awf), wr_Engine = ''argo'',
                 wr_Labels = am_Labels (ar_Metadata awf), wr_SubmittedAt = 0,
                 wr_StartedAt = parsed_or_zero (aw_StartedAt (ar_Status awf)),
                 wr_FinishedAt = parsed_or_zero (aw_FinishedAt (ar_Status awf)), wr_CancellationReason = '''', wr_Outputs = []\<rparr>)"

definition argo_Cancel :: "'a argo_client \<Rightarrow> ArgoConfig \<Rightarrow> 'a \<Rightarrow> string \<Rightarrow> string \<Rightarrow> wf_error option \<times> 'a" where
  "argo_Cancel A cfg a runID reason =
     (if runID = '''' then (Some (Errorf ''engine-adapter(argo): Cancel: runID must not be empty'' []), a)
      else case ac_GetWorkflow A a (cfg_Namespace cfg) runID of
          Inl err \<Rightarrow>
            (Some (Wrapf ''engine-adapter(argo): Cancel %q: %w'' [FS runID]
               (Typed (argo_not_found err))), a)
        | Inr awf \<Rightarrow>
            if status_IsTerminal (mapArgoPhase (aw_Phase (ar_Status awf)))
            then (Some (Wrapf ''engine-adapter(argo): Cancel %q: %w (phase=%s)'' [FS runID, FS (aw_Phase (ar_Status awf))] (Typed ErrTerminalState)), a)
            else case ac_DeleteWorkflow A a (cfg_Namespace cfg) runID of
                (Some err, a') \<Rightarrow>
                  (Some (Wrapf ''engine-adapter(argo): Cancel %q: %w'' [FS runID]
                     (Typed (argo_not_found err))), a')
              | (None, a') \<Rightarrow> (None, a'))"

definition argo_event :: "string \<Rightarrow> string \<Rightarrow> ArgoWorkflow \<Rightarrow> int \<Rightarrow> WorkflowEvent" where
  "argo_event runID lastPhase awf now =
     \<lparr>ev_RunID = runID, ev_EventID = 0, ev_EventType = ''status.changed'', ev_FromState = lastPhase,
      ev_ToState = aw_Phase (ar_Status awf), ev_Status = mapArgoPhase (aw_Phase (ar_Status awf)), ev_Payload = '''',
      ev_Timestamp = now\<rparr>"

text \<open>The polling loop of \<^verbatim>\<open>Watch\<close> over the answers it gets: \<open>None\<close> when it still waits for the next.\<close>

fun argo_watch ::
  "string \<Rightarrow> sender \<Rightarrow> string \<Rightarrow> WorkflowEvent list \<Rightarrow> ((argo_err + ArgoWorkflow) \<times> int \<times> ctx_error option) list \<Rightarrow>
   (wf_error option \<times> WorkflowEvent list) option" where
  "argo_watch runID send lastPhase sent [] = None"
| "argo_watch runID send lastPhase sent ((Inl err, now, ctx) # answers) =
     Some (Some (Wrapf ''engine-adapter(argo): Watch %q: %w'' [FS runID] (Typed (argo_not_found err))), sent)"
| "argo_watch runID send lastPhase sent ((Inr awf, now, ctx) # answers) =
     (let currentPhase = aw_Phase (ar_Status awf);
          event = argo_event runID lastPhase awf now
      in case (if currentPhase \<noteq> lastPhase then send sent event else None) of
           Some err \<Rightarrow> Some (Some (Wrapf ''engine-adapter(argo): Watch %q: send: %w'' [FS runID] (Typed (SendFailure err))), sent)
         | None \<Rightarrow>
             let sent' = (if currentPhase \<noteq> lastPhase then sent @ [event] else sent) in
             if status_IsTerminal (mapArgoPhase currentPhase) then Some (None, sent')
             else case ctx of
                 Some ctxErr \<Rightarrow> Some (Some (Wrapf ''engine-adapter(argo): Watch %q: %w'' [FS runID] (Typed (CtxFailure ctxErr))), sent')
               | None \<Rightarrow> argo_watch runID send currentPhase sent' answers)"

definition argo_Watch :: "'a argo_client \<Rightarrow> ArgoConfig \<Rightarrow> 'a \<Rightarrow> string \<Rightarrow> sender \<Rightarrow> (wf_error option \<times> WorkflowEvent list) option" where
  "argo_Watch A cfg a runID send =
     (if runID = '''' then Some (Some (Errorf ''engine-adapter(argo): Watch: runID must not be empty'' []), [])
      else argo_watch runID send '''' [] (ac_answers A a (cfg_Namespace cfg) runID))"

definition ArgoEngine :: "'a argo_client \<Rightarrow> (WorkflowIR \<Rightarrow> string + string) \<Rightarrow> ArgoConfig \<Rightarrow> 'a workflow_engine" where
  "ArgoEngine A protojson cfg =
     \<lparr>en_Submit = argo_Submit A protojson cfg, en_Signal = argo_Signal A cfg, en_Cancel = argo_Cancel A cfg,
      en_GetStatus = argo_GetStatus A cfg, en_Watch = argo_Watch A cfg\<rparr>"

section \<open>The contract of the port\<close>

text \<open>
  A watch that ends without an error sent exactly one terminal event, its last (\<^verbatim>\<open>engine.go\<close>,
  \<^verbatim>\<open>engine_adapter.proto\<close>).  \<open>live\<close> says for which runs an engine promises it.
\<close>

definition ends_terminal :: "WorkflowStatus list \<Rightarrow> bool" where
  "ends_terminal ss \<longleftrightarrow> ss \<noteq> [] \<and> status_IsTerminal (last ss) \<and> list_all (\<lambda>s. \<not> status_IsTerminal s) (butlast ss)"

locale watch_port =
  fixes E :: "'s workflow_engine"
    and live :: "'s \<Rightarrow> string \<Rightarrow> bool"
  assumes watch_ends: "live s r \<Longrightarrow> en_Watch E s r send = Some (None, sent) \<Longrightarrow> ends_terminal (map ev_Status sent)"
    and watch_own: "en_Watch E s r send = Some (res, sent) \<Longrightarrow> \<forall>ev \<in> set sent. ev_RunID ev = r"
begin

lemma stream_ends:
  assumes "live s r" and "eh_WatchWorkflow E s r send = Some (None, evs)"
  shows "ends_terminal (map pe_Status evs) \<and> (\<forall>ev \<in> set evs. pe_RunId ev = r)"
proof -
  obtain sent where w: "en_Watch E s r send = Some (None, sent)" and evs: "evs = map eventToProto sent"
    using assms(2) by (auto simp: eh_WatchWorkflow_def split: if_splits)
  have "map pe_Status evs = map ev_Status sent"
    by (simp add: evs eventToProto_def)
  moreover have "\<forall>ev \<in> set evs. pe_RunId ev = r"
    using watch_own [OF w] by (simp add: evs eventToProto_def)
  ultimately show ?thesis
    using watch_ends [OF assms(1) w] by simp
qed

end

text \<open>Cancelling a finished run is refused and changes nothing, and a run that is unknown to one
  operation is unknown to the other.\<close>

locale cancel_port =
  fixes E :: "'s workflow_engine"
  assumes cancel_finished:
      "en_GetStatus E s r = Inr run \<Longrightarrow> status_IsTerminal (wr_Status run) \<Longrightarrow>
       \<exists>err. en_Cancel E s r reason = (Some err, s) \<and> errors_Is err ErrTerminalState \<and> \<not> errors_Is err ErrExecutionNotFound"
    and cancel_unknown:
      "en_GetStatus E s r = Inl err \<Longrightarrow> errors_Is err ErrExecutionNotFound \<Longrightarrow>
       \<exists>err'. en_Cancel E s r reason = (Some err', s) \<and> errors_Is err' ErrExecutionNotFound"
begin

lemma finished_refused:
  assumes "eh_GetWorkflowStatus E s r = Inr pb" and "status_IsTerminal (pr_Status pb)"
  shows "\<exists>err. eh_CancelWorkflow E s r reason now = (Inl (FailedPrecondition, err), s)"
proof -
  obtain run where r: "r \<noteq> ''''" and g: "en_GetStatus E s r = Inr run" and pb: "pb = runToProto run"
    using assms(1) by (auto simp: eh_GetWorkflowStatus_def split: if_splits sum.splits)
  have "status_IsTerminal (wr_Status run)"
    using assms(2) by (simp add: pb runToProto_def)
  then obtain err where "en_Cancel E s r reason = (Some err, s)" "errors_Is err ErrTerminalState" "\<not> errors_Is err ErrExecutionNotFound"
    using cancel_finished [OF g] by blast
  with r show ?thesis
    by (simp add: eh_CancelWorkflow_def engine_grpcErr_def)
qed

lemma unknown_not_found:
  assumes "eh_GetWorkflowStatus E s r = Inl (NotFound, err)"
  shows "\<exists>err'. eh_CancelWorkflow E s r reason now = (Inl (NotFound, err'), s)"
proof -
  obtain e where r: "r \<noteq> ''''" and g: "en_GetStatus E s r = Inl e" and e: "engine_grpcErr e = (NotFound, err)"
    using assms by (auto simp: eh_GetWorkflowStatus_def run_id_required_def split: if_splits sum.splits)
  have "errors_Is e ErrExecutionNotFound"
    using e by (auto simp: engine_grpcErr_def split: if_splits)
  then obtain err' where "en_Cancel E s r reason = (Some err', s)" "errors_Is err' ErrExecutionNotFound"
    using cancel_unknown [OF g] by blast
  with r show ?thesis
    by (simp add: eh_CancelWorkflow_def engine_grpcErr_def)
qed

end

section \<open>The engine over Argo keeps the contract\<close>

text \<open>One turn of the loop.\<close>

definition argo_sent :: "string \<Rightarrow> string \<Rightarrow> ArgoWorkflow \<Rightarrow> int \<Rightarrow> WorkflowEvent list \<Rightarrow> WorkflowEvent list" where
  "argo_sent r lastp awf now sent =
     (if aw_Phase (ar_Status awf) \<noteq> lastp then sent @ [argo_event r lastp awf now] else sent)"

lemma argo_watch_turn:
  assumes "argo_watch r send lastp sent ((Inr awf, now, ctx) # answers) = Some (res, sent')"
  obtains (failed) "sent' = sent" "res \<noteq> None"
  | (ended) "sent' = argo_sent r lastp awf now sent" "res = None" "status_IsTerminal (mapArgoPhase (aw_Phase (ar_Status awf)))"
  | (cancelled) "sent' = argo_sent r lastp awf now sent" "res \<noteq> None"
  | (again) "argo_watch r send (aw_Phase (ar_Status awf)) (argo_sent r lastp awf now sent) answers = Some (res, sent')"
      "\<not> status_IsTerminal (mapArgoPhase (aw_Phase (ar_Status awf)))"
proof (cases "if aw_Phase (ar_Status awf) \<noteq> lastp then send sent (argo_event r lastp awf now) else None")
  case (Some err)
  show ?thesis
    using assms unfolding argo_watch.simps Let_def Some by (intro failed) auto
next
  case None
  note turn = assms [unfolded argo_watch.simps Let_def None option.case argo_sent_def [symmetric]]
  show ?thesis
  proof (cases "status_IsTerminal (mapArgoPhase (aw_Phase (ar_Status awf)))")
    case True
    with turn show ?thesis by (intro ended) auto
  next
    case False
    show ?thesis
    proof (cases ctx)
      case None
      with turn False show ?thesis by (intro again) simp_all
    next
      case (Some c)
      with turn False show ?thesis by (intro cancelled) auto
    qed
  qed
qed

lemma argo_watch_ends:
  "argo_watch r send lastp sent answers = Some (None, sent') \<Longrightarrow> \<not> status_IsTerminal (mapArgoPhase lastp) \<Longrightarrow>
   list_all (\<lambda>ev. \<not> status_IsTerminal (ev_Status ev)) sent \<Longrightarrow> ends_terminal (map ev_Status sent')"
proof (induction answers arbitrary: lastp sent)
  case (Cons x answers)
  obtain a now ctx where x: "x = (a, now, ctx)" by (cases x)
  show ?case
  proof (cases a)
    case (Inl err)
    with Cons.prems x show ?thesis by simp
  next
    case (Inr awf)
    from Cons.prems(1) [unfolded x Inr] show ?thesis
    proof (cases rule: argo_watch_turn)
      case ended
      with Cons.prems(2,3) show ?thesis
        by (auto simp: argo_sent_def argo_event_def ends_terminal_def list_all_iff)
    next
      case again
      have "list_all (\<lambda>ev. \<not> status_IsTerminal (ev_Status ev)) (argo_sent r lastp awf now sent)"
        using Cons.prems(3) again(2) by (simp add: argo_sent_def argo_event_def)
      then show ?thesis
        by (rule Cons.IH [OF again])
    qed simp_all
  qed
qed simp

lemma argo_watch_own:
  "argo_watch r send lastp sent answers = Some (res, sent') \<Longrightarrow> \<forall>ev \<in> set sent. ev_RunID ev = r \<Longrightarrow>
   \<forall>ev \<in> set sent'. ev_RunID ev = r"
proof (induction answers arbitrary: lastp sent)
  case (Cons x answers)
  obtain a now ctx where x: "x = (a, now, ctx)" by (cases x)
  show ?case
  proof (cases a)
    case (Inl err)
    with Cons.prems x show ?thesis by simp
  next
    case (Inr awf)
    have own: "\<forall>ev \<in> set (argo_sent r lastp awf now sent). ev_RunID ev = r"
      using Cons.prems(2) by (simp add: argo_sent_def argo_event_def)
    from Cons.prems(1) [unfolded x Inr] show ?thesis
      using own Cons.prems(2) by (cases rule: argo_watch_turn) (simp_all add: Cons.IH)
  qed
qed simp

interpretation argo: watch_port "ArgoEngine A protojson cfg" "\<lambda>_ _. True" for A protojson cfg
proof
  fix s r send sent res
  have "\<not> status_IsTerminal (mapArgoPhase '''')"
    by (simp add: mapArgoPhase_def status_IsTerminal_def workflow_status_defs)
  then show "en_Watch (ArgoEngine A protojson cfg) s r send = Some (None, sent) \<Longrightarrow> ends_terminal (map ev_Status sent)"
    by (auto simp: ArgoEngine_def argo_Watch_def split: if_splits dest: argo_watch_ends)
  show "en_Watch (ArgoEngine A protojson cfg) s r send = Some (res, sent) \<Longrightarrow> \<forall>ev \<in> set sent. ev_RunID ev = r"
    by (auto simp: ArgoEngine_def argo_Watch_def split: if_splits dest: argo_watch_own)
qed

interpretation argo: cancel_port "ArgoEngine A protojson cfg" for A protojson cfg
proof
  fix s r run reason err
  show "en_GetStatus (ArgoEngine A protojson cfg) s r = Inr run \<Longrightarrow> status_IsTerminal (wr_Status run) \<Longrightarrow>
     \<exists>err. en_Cancel (ArgoEngine A protojson cfg) s r reason = (Some err, s) \<and> errors_Is err ErrTerminalState \<and> \<not> errors_Is err ErrExecutionNotFound"
    by (auto simp: ArgoEngine_def argo_GetStatus_def argo_Cancel_def errors_Is_def split: if_splits sum.splits)
  show "en_GetStatus (ArgoEngine A protojson cfg) s r = Inl err \<Longrightarrow> errors_Is err ErrExecutionNotFound \<Longrightarrow>
     \<exists>err'. en_Cancel (ArgoEngine A protojson cfg) s r reason = (Some err', s) \<and> errors_Is err' ErrExecutionNotFound"
    by (auto simp: ArgoEngine_def argo_GetStatus_def argo_Cancel_def errors_Is_def split: if_splits sum.splits)
qed

text \<open>C15 The engine over Argo keeps the contract of the port.  A stream of events that ends with OK
  has exactly one terminal event, the last one, and only events of its run; cancelling a run
  whose status is terminal fails with FAILED\_PRECONDITION and changes nothing; cancelling a run
  whose status is NOT\_FOUND fails with NOT\_FOUND.\<close>

theorem argo_port_contract:
  assumes E: "E = ArgoEngine A protojson cfg"
  shows "(eh_WatchWorkflow E a r send = Some (None, evs) \<longrightarrow>
       ends_terminal (map pe_Status evs) \<and> (\<forall>ev \<in> set evs. pe_RunId ev = r)) \<and>
     (eh_GetWorkflowStatus E a r = Inr pb \<and> status_IsTerminal (pr_Status pb) \<longrightarrow>
       (\<exists>err. eh_CancelWorkflow E a r reason now = (Inl (FailedPrecondition, err), a))) \<and>
     (eh_GetWorkflowStatus E a r = Inl (NotFound, err) \<longrightarrow>
       (\<exists>err'. eh_CancelWorkflow E a r reason now = (Inl (NotFound, err'), a)))"
  unfolding E
  by (intro conjI impI argo.finished_refused argo.unknown_not_found) (auto dest: argo.stream_ends [OF TrueI])

text \<open>The phases a watch reports.\<close>

lemma argo_watch_phases:
  assumes "\<And>sent ev. send sent ev = None" "list_all (\<lambda>(w, now). \<not> status_IsTerminal (mapArgoPhase (aw_Phase (ar_Status w)))) polls"
    "status_IsTerminal (mapArgoPhase (aw_Phase (ar_Status w)))" "\<not> status_IsTerminal (mapArgoPhase lastp)"
  shows "\<exists>evs. argo_watch r send lastp sent (map (\<lambda>(w, now). (Inr w, now, None)) polls @ (Inr w, now, c) # rest) = Some (None, sent @ evs) \<and>
    lastp # map ev_ToState evs = remdups_adj (lastp # map (\<lambda>p. aw_Phase (ar_Status (fst p))) polls @ [aw_Phase (ar_Status w)]) \<and>
    map ev_FromState evs = butlast (lastp # map ev_ToState evs)"
  using assms(2,4)
proof (induction polls arbitrary: lastp sent)
  case Nil
  have "aw_Phase (ar_Status w) \<noteq> lastp" using Nil assms(3) by auto
  then show ?case
    using assms(1,3) by (auto simp: Let_def argo_event_def)
next
  case (Cons p polls)
  obtain w1 t1 where p: "p = (w1, t1)" by (cases p)
  let ?ph = "aw_Phase (ar_Status w1)" and ?sent = "argo_sent r lastp w1 t1 sent"
  have nt: "\<not> status_IsTerminal (mapArgoPhase ?ph)" and ps: "list_all (\<lambda>(w, now). \<not> status_IsTerminal (mapArgoPhase (aw_Phase (ar_Status w)))) polls"
    using Cons.prems(1) by (simp_all add: p)
  obtain evs where evs:
      "argo_watch r send ?ph ?sent (map (\<lambda>(w, now). (Inr w, now, None)) polls @ (Inr w, now, c) # rest) = Some (None, ?sent @ evs)"
      "?ph # map ev_ToState evs = remdups_adj (?ph # map (\<lambda>p. aw_Phase (ar_Status (fst p))) polls @ [aw_Phase (ar_Status w)])"
      "map ev_FromState evs = butlast (?ph # map ev_ToState evs)"
    using Cons.IH [OF ps nt, of ?sent] by blast
  have step: "argo_watch r send lastp sent (map (\<lambda>(w, now). (Inr w, now, None)) (p # polls) @ (Inr w, now, c) # rest) = Some (None, ?sent @ evs)"
    using evs(1) nt assms(1) by (cases "?ph = lastp") (simp_all add: p Let_def argo_sent_def)
  show ?case
  proof (cases "?ph = lastp")
    case True
    then show ?thesis using step evs(2,3) by (intro exI [of _ evs]) (simp add: p argo_sent_def)
  next
    case False
    then show ?thesis using step evs(2,3)
      by (intro exI [of _ "argo_event r lastp w1 t1 # evs"]) (simp add: p argo_sent_def argo_event_def)
  qed
qed

text \<open>C17 A watch over Argo ends once the run does: when the polls are answered, the stream takes
  every event and the context does not end before, the stream ends with OK, and its events
  report the phases the polls saw, each once per change, every event going on from where the
  one before ended.\<close>

theorem argo_watch_reports_phases:
  assumes "r \<noteq> ''''" and "\<forall>sent ev. send sent ev = None"
    and "ac_answers A a (cfg_Namespace cfg) r = map (\<lambda>(w, now). (Inr w, now, None)) polls @ (Inr w, now, c) # rest"
    and "list_all (\<lambda>(w, now). \<not> status_IsTerminal (mapArgoPhase (aw_Phase (ar_Status w)))) polls"
    and "status_IsTerminal (mapArgoPhase (aw_Phase (ar_Status w)))"
  shows "\<exists>evs. eh_WatchWorkflow (ArgoEngine A protojson cfg) a r send = Some (None, evs) \<and>
    '''' # map pe_ToState evs = remdups_adj ('''' # map (\<lambda>p. aw_Phase (ar_Status (fst p))) polls @ [aw_Phase (ar_Status w)]) \<and>
    map pe_FromState evs = butlast ('''' # map pe_ToState evs)"
proof -
  have "\<not> status_IsTerminal (mapArgoPhase '''')"
    by (simp add: mapArgoPhase_def status_IsTerminal_def workflow_status_defs)
  then obtain evs where evs: "argo_watch r send '''' [] (ac_answers A a (cfg_Namespace cfg) r) = Some (None, evs)"
      "'''' # map ev_ToState evs = remdups_adj ('''' # map (\<lambda>p. aw_Phase (ar_Status (fst p))) polls @ [aw_Phase (ar_Status w)])"
      "map ev_FromState evs = butlast ('''' # map ev_ToState evs)"
    using argo_watch_phases [OF _ assms(4,5), of send "''''" r "[]" now c rest] assms(2) unfolding assms(3) append_Nil by blast
  then show ?thesis
    using assms(1) by (intro exI [of _ "map eventToProto evs"])
      (simp add: eh_WatchWorkflow_def ArgoEngine_def argo_Watch_def comp_def eventToProto_def)
qed

section \<open>The engine over Temporal\<close>

text \<open>What the history of a run must have for a watch to end as the port says: it ends with an
  event that closes the run.\<close>

definition closed_history :: "(temporal_err + history_event) list \<Rightarrow> bool" where
  "closed_history hs \<longleftrightarrow> (\<exists>x \<in> set hs. case x of Inl err \<Rightarrow> True | Inr hev \<Rightarrow> IsTerminalHistoryEvent (hev_EventType hev))"

lemma terminal_history_status: "IsTerminalHistoryEvent t \<longleftrightarrow> status_IsTerminal (HistoryEventStatus t)"
  by (auto simp: IsTerminalHistoryEvent_def HistoryEventStatus_def status_IsTerminal_def workflow_status_defs history_event_defs)

lemma temporal_watch_ends:
  "temporal_watch r ctx send sent hs = (None, sent') \<Longrightarrow> closed_history hs \<Longrightarrow>
   list_all (\<lambda>ev. \<not> status_IsTerminal (ev_Status ev)) sent \<Longrightarrow> ends_terminal (map ev_Status sent')"
proof (induction r ctx send sent hs rule: temporal_watch.induct)
  case (3 r ctx send sent hev hs)
  show ?case
  proof (cases "IsTerminalHistoryEvent (hev_EventType hev)")
    case True
    with 3(2,4) show ?thesis
      by (auto simp: Let_def terminal_history_status ends_terminal_def list_all_iff historyEventToWorkflowEvent_def split: option.splits)
  next
    case False
    with 3 show ?thesis
      by (auto simp: Let_def terminal_history_status historyEventToWorkflowEvent_def closed_history_def split: option.splits)
  qed
qed (auto simp: closed_history_def split: if_splits option.splits)

lemma temporal_watch_open:
  "\<not> closed_history hs \<Longrightarrow>
   \<exists>evs. temporal_watch r ctx (\<lambda>_ _. None) sent hs = (None, sent @ evs) \<and> length evs = length hs \<and>
     list_all (\<lambda>ev. \<not> status_IsTerminal (ev_Status ev)) evs"
proof (induction hs arbitrary: sent)
  case (Cons x hs)
  then obtain hev where x: "x = Inr hev" and nt: "\<not> IsTerminalHistoryEvent (hev_EventType hev)" and op: "\<not> closed_history hs"
    by (cases x) (auto simp: closed_history_def)
  obtain evs where "temporal_watch r ctx (\<lambda>_ _. None) (sent @ [historyEventToWorkflowEvent hev r]) hs =
        (None, (sent @ [historyEventToWorkflowEvent hev r]) @ evs)"
      "length evs = length hs" "list_all (\<lambda>ev. \<not> status_IsTerminal (ev_Status ev)) evs"
    using Cons.IH [OF op] by blast
  then show ?case using nt
    by (intro exI [where x = "historyEventToWorkflowEvent hev r # evs"])
       (auto simp: x Let_def terminal_history_status historyEventToWorkflowEvent_def)
qed simp

lemma temporal_watch_own:
  "temporal_watch r ctx send sent hs = (res, sent') \<Longrightarrow> \<forall>ev \<in> set sent. ev_RunID ev = r \<Longrightarrow> \<forall>ev \<in> set sent'. ev_RunID ev = r"
proof (induction r ctx send sent hs rule: temporal_watch.induct)
  case (3 r ctx send sent hev hs)
  then show ?case
    by (auto simp: Let_def historyEventToWorkflowEvent_def split: option.splits if_splits)
qed (auto split: if_splits option.splits)

interpretation temporal: watch_port "TemporalEngine T ctx taskQueue ns" "\<lambda>s r. pred_option closed_history (tc_GetWorkflowHistory T s r)"
  for T ctx taskQueue ns
proof
  fix s r send sent res
  show "pred_option closed_history (tc_GetWorkflowHistory T s r) \<Longrightarrow>
      en_Watch (TemporalEngine T ctx taskQueue ns) s r send = Some (None, sent) \<Longrightarrow> ends_terminal (map ev_Status sent)"
    by (auto simp: TemporalEngine_def dest: temporal_watch_ends)
  show "en_Watch (TemporalEngine T ctx taskQueue ns) s r send = Some (res, sent) \<Longrightarrow> \<forall>ev \<in> set sent. ev_RunID ev = r"
    by (auto simp: TemporalEngine_def dest: temporal_watch_own)
qed

text \<open>C18 Over Temporal the port's contract is weaker.  A stream that ends with OK has exactly one
  terminal event, the last, if the history has an event that closes the run; a history that ends
  without one, when the stream takes every event, gives a stream that ends with OK and has an
  event for each of the history but no terminal one.  And no cancellation or
  signal is ever refused with FAILED\_PRECONDITION, whatever the status of the run.\<close>

theorem temporal_port_limits:
  assumes E: "E = TemporalEngine T ctx taskQueue ns"
  shows "(pred_option closed_history (tc_GetWorkflowHistory T t r) \<and> eh_WatchWorkflow E t r send = Some (None, evs) \<longrightarrow>
       ends_terminal (map pe_Status evs) \<and> (\<forall>ev \<in> set evs. pe_RunId ev = r)) \<and>
     (r \<noteq> '''' \<and> tc_GetWorkflowHistory T t r = Some hs \<and> \<not> closed_history hs \<and> (\<forall>sent ev. send sent ev = None) \<longrightarrow>
       (\<exists>evs. eh_WatchWorkflow E t r send = Some (None, evs) \<and> length evs = length hs \<and>
          list_all (\<lambda>ev. \<not> status_IsTerminal (pe_Status ev)) evs)) \<and>
     (\<forall>err. fst (eh_CancelWorkflow E t r reason now) \<noteq> Inl (FailedPrecondition, err) \<and>
       fst (eh_SignalWorkflow E t r eventType payload now) \<noteq> Inl (FailedPrecondition, err))"
proof (intro conjI impI allI)
  have ne: "temporal_cause e \<noteq> ErrTerminalState" for e by (cases e) simp_all
  show "fst (eh_CancelWorkflow E t r reason now) \<noteq> Inl (FailedPrecondition, err)" for err
    using ne by (auto simp: E TemporalEngine_def eh_CancelWorkflow_def temporal_Cancel_def engine_grpcErr_def run_id_required_def
        errors_Is_def split: option.splits prod.splits if_splits)
  show "fst (eh_SignalWorkflow E t r eventType payload now) \<noteq> Inl (FailedPrecondition, err)" for err
    using ne by (auto simp: E TemporalEngine_def eh_SignalWorkflow_def temporal_Signal_def engine_grpcErr_def run_id_required_def
        errors_Is_def split: option.splits prod.splits if_splits)
  show "\<exists>evs. eh_WatchWorkflow E t r send = Some (None, evs) \<and> length evs = length hs \<and>
        list_all (\<lambda>ev. \<not> status_IsTerminal (pe_Status ev)) evs"
    if h: "r \<noteq> '''' \<and> tc_GetWorkflowHistory T t r = Some hs \<and> \<not> closed_history hs \<and> (\<forall>sent ev. send sent ev = None)"
  proof -
    have "send = (\<lambda>_ _. None)" using h by (intro ext) blast
    then show ?thesis using temporal_watch_open [of hs r ctx "[]"] h
      by (auto simp: E eh_WatchWorkflow_def TemporalEngine_def eventToProto_def list_all_iff)
  qed
qed (unfold E, auto dest: temporal.stream_ends)

end
