(* ===== verification/System_Gateway.thy ===== *)
theory System_Gateway
  imports Gateway_Http Gateway_Crd Engine_Argo Memory_Store
begin

text \<open>
  The gateway in front of the compiler and of an engine: what an accepted manifest becomes, the
  identifiers it gets, and what the logs of its run show.
\<close>

section \<open>From a manifest to a run\<close>

text \<open>The service of the gateway with the handlers of the other services behind its stubs.\<close>

definition gateway_service ::
  "proto_codec \<Rightarrow> yaml_lib \<Rightarrow> PolicyGate option \<Rightarrow> compile_env \<Rightarrow> 's workflow_engine \<Rightarrow> int \<Rightarrow> 'b event_bus_port option \<Rightarrow>
   ('s, 'b) ApplyService" where
  "gateway_service pb yaml pg env E now bus =
     \<lparr>sv_compiler = cl_CompileWorkflow pb (compiler_stub yaml pg env), sv_engine = gateway_engine pb (engine_stub E now), sv_eventbus = bus\<rparr>"

lemma CompileWorkflow_total:
  assumes "CompileWorkflow yaml pg env req = Inr resp" "cr_Errors resp = []"
  shows "\<exists>w. cr_WorkflowIr resp = Some w"
proof -
  have "ParseManifest yaml d = Inl errs \<Longrightarrow> errs \<noteq> []" "Build m = Inl errs \<Longrightarrow> errs \<noteq> []" for d m errs
    by (auto simp: ParseManifest_def Build_def Let_def split: sum.splits if_splits)
  then show ?thesis
    using assms by (auto simp: CompileWorkflow_def compile_errors_def toProtoErrors_def Let_def
        split: option.splits sum.splits if_splits message.splits)
qed

text \<open>The messages the compiler sends.\<close>

definition compiled_irs :: "yaml_lib \<Rightarrow> PolicyGate option \<Rightarrow> compile_env \<Rightarrow> WorkflowIR set" where
  "compiled_irs yaml pg env = {w. \<exists>req resp. CompileWorkflow yaml pg env req = Inr resp \<and> cr_WorkflowIr resp = Some w}"

lemma compiled_without_errors:
  assumes "cl_CompileWorkflow pb (compiler_stub yaml pg env) body ns dry = Inr compiled" "gcr_Errors compiled = []"
    and "codec_ok pb (compiled_irs yaml pg env)"
  obtains resp w where "CompileWorkflow yaml pg env \<lparr>cq_ManifestYaml = body, cq_Namespace = ns\<rparr> = Inr resp" "cr_WorkflowIr resp = Some w"
    "pb_Unmarshal pb (gcr_IRBytes compiled) = Inr w"
proof -
  obtain resp where c: "CompileWorkflow yaml pg env \<lparr>cq_ManifestYaml = body, cq_Namespace = ns\<rparr> = Inr resp"
    and e: "compiled = compileResultFromProto pb resp"
    using assms(1,2)
    by (auto simp: cl_CompileWorkflow_def compiler_stub_def mapCompilerGRPCError_def split: sum.splits if_splits)
  have "cr_Errors resp = []" using assms(2) by (simp add: e compileResultFromProto_def)
  then obtain w where w: "cr_WorkflowIr resp = Some w"
    using CompileWorkflow_total [OF c] by blast
  obtain dat where "pb_Marshal pb w = Inr dat" "pb_Unmarshal pb dat = Inr w"
    using assms(3) c w unfolding codec_ok_def compiled_irs_def by blast
  then have "pb_Unmarshal pb (gcr_IRBytes compiled) = Inr w" by (simp add: e compileResultFromProto_def w)
  with c w show thesis by (rule that)
qed

lemma case_sum_iff: "(case x of Inl a \<Rightarrow> P a | Inr b \<Rightarrow> Q b) \<longleftrightarrow> (\<exists>a. x = Inl a \<and> P a) \<or> (\<exists>b. x = Inr b \<and> Q b)"
  by (cases x) simp_all

lemma ir_renamed:
  "ir_closed (w\<lparr>ir_WorkflowId := i\<rparr>) = ir_closed w" "ir_live (w\<lparr>ir_WorkflowId := i\<rparr>) = ir_live w"
proof -
  have "ir_ids (w\<lparr>ir_WorkflowId := i\<rparr>) = ir_ids w" "ir_edges (w\<lparr>ir_WorkflowId := i\<rparr>) = ir_edges w"
    "ir_terminals (w\<lparr>ir_WorkflowId := i\<rparr>) = ir_terminals w"
    by (simp_all add: ir_ids_def ir_edges_def ir_terminals_def)
  then show "ir_closed (w\<lparr>ir_WorkflowId := i\<rparr>) = ir_closed w" "ir_live (w\<lparr>ir_WorkflowId := i\<rparr>) = ir_live w"
    by (simp_all add: ir_closed_def ir_live_def)
qed

lemma gateway_submit_engine:
  assumes "po_SubmitWorkflow (gateway_engine pb (engine_stub E now)) s dat hint i ns = (Inr r, s')" "pb_Unmarshal pb dat = Inr w"
  shows "\<exists>run. en_Submit E s (w\<lparr>ir_WorkflowId := i\<rparr>) [] now = (Inr run, s') \<and> wr_RunID run = r"
  using assms
  by (auto simp: gateway_engine_def cl_SubmitWorkflow_def engine_stub_def eh_SubmitWorkflow_def split: sum.splits prod.splits)

text \<open>C7 A manifest that the gateway accepts as a new run reaches the engine as the workflow the compiler
  made of it, under the identifier of the manifest; this workflow is closed and live, and its runs,
  however they go, end neither with an unknown state nor with a \<^verbatim>\<open>ScopeError\<close> of the run data.\<close>

theorem accepted_manifest_runs:
  assumes "codec_ok pb (compiled_irs yaml pg env)"
    and "\<And>root raw. yaml_Decode yaml root = Inr raw \<Longrightarrow> gm_ok (ysp_States (yf_Spec raw))"
    and S: "S = gateway_service pb yaml pg env E now bus"
    and acc: "handleApply Y S s t query body = ((202, ApplyBody r ''new'' ws), s')"
  shows "\<exists>w run. en_Submit E s w [] now = (Inr run, s') \<and> wr_RunID run = r \<and> ir_WorkflowId w = apply_id Y S s t body \<and>
     (\<exists>resp w0. CompileWorkflow yaml pg env \<lparr>cq_ManifestYaml = body, cq_Namespace = gm_get '''' query ''namespace''\<rparr> = Inr resp \<and>
        cr_WorkflowIr resp = Some w0 \<and> w = w0\<lparr>ir_WorkflowId := ir_WorkflowId w\<rparr>) \<and>
     ir_closed w \<and> ir_live w \<and> (\<forall>eenv n e tr. Run eenv w n = Some (Inl e, tr) \<longrightarrow> run_error e)"
proof -
  obtain compiled res err where c: "sv_compiler S body (gm_get '''' query ''namespace'') False = Inr compiled" "gcr_Errors compiled = []"
    and g: "gw_submit Y S s t body compiled (gm_get '''' query ''engine'') = ((res, err), s')"
    and e: "err = None" "rr_Status res = ''new''" "rr_RunID res = r"
    using handleApply_cases [OF acc] by auto
  have submit: "po_SubmitWorkflow (sv_engine S) s (gcr_IRBytes compiled) (gm_get '''' query ''engine'') (apply_id Y S s t body)
      (gcr_Namespace compiled) = (Inr r, s')"
    using gw_submit_outcome [OF g] e by (auto simp: case_sum_iff)
  obtain resp w where w: "CompileWorkflow yaml pg env \<lparr>cq_ManifestYaml = body, cq_Namespace = gm_get '''' query ''namespace''\<rparr> = Inr resp"
      "cr_WorkflowIr resp = Some w" "pb_Unmarshal pb (gcr_IRBytes compiled) = Inr w"
    using c assms(1) by (auto simp: S gateway_service_def elim: compiled_without_errors)
  define w' where "w' = w\<lparr>ir_WorkflowId := apply_id Y S s t body\<rparr>"
  obtain run where "en_Submit E s w' [] now = (Inr run, s')" "wr_RunID run = r"
    using gateway_submit_engine [OF submit [unfolded S gateway_service_def ApplyService.simps] w(3)]
    by (auto simp: w'_def S gateway_service_def)
  moreover have "ir_closed w' \<and> ir_live w'"
    using compiled_closed_live [OF w(1,2)] assms(2) by (simp add: w'_def ir_renamed)
  moreover have "w' = w\<lparr>ir_WorkflowId := ir_WorkflowId w'\<rparr>" "ir_WorkflowId w' = apply_id Y S s t body"
    by (simp_all add: w'_def)
  ultimately show ?thesis using w(1,2) Run_closed by blast
qed

section \<open>Identifiers\<close>

definition id_char :: "char \<Rightarrow> bool" where
  "id_char c \<longleftrightarrow> c = CHR ''-'' \<or> is_digit c \<or> (97 \<le> byte c \<and> byte c \<le> 122)"

lemma hex_digit_id: "d < 16 \<Longrightarrow> id_char (hex_digit d)"
  by (simp add: id_char_def hex_digit_def is_digit_def)

lemma hex_id: "list_all id_char (hex_EncodeToString s)"
proof -
  have "byte c div 16 < 16" for c using nat_of_char_less_256 [of c] by (simp add: less_mult_imp_div_less)
  then show ?thesis by (auto simp: list_all_iff hex_EncodeToString_def intro: hex_digit_id)
qed

lemma Itoa_inj: "Itoa i = Itoa j \<longleftrightarrow> i = j"
proof -
  have "show_nat n \<noteq> CHR ''-'' # s" for n s
    using show_nat_digits [of n] by (auto simp: is_digit_def)
  from this this [symmetric] show ?thesis by (auto simp: Itoa_def)
qed

lemma workflow_ids: "list_all id_char (ManifestWorkflowID Y m)" "list_all id_char (rerunWorkflowID (ManifestWorkflowID Y m) t)"
proof -
  show m: "list_all id_char (ManifestWorkflowID Y m)"
    using hex_id by (auto simp: ManifestWorkflowID_def list_all_iff id_char_def dest: in_set_takeD)
  have "list_all id_char (show_nat n)" for n
    using show_nat_digits [of n] by (auto simp: list_all_iff id_char_def)
  then have "list_all id_char (Itoa t)" by (simp add: Itoa_def id_char_def)
  with m show "list_all id_char (rerunWorkflowID (ManifestWorkflowID Y m) t)"
    by (simp add: rerunWorkflowID_def id_char_def)
qed

text \<open>The identifier of a manifest's run, or of its re-run at a time.\<close>

definition workflow_id :: "'v yaml_any \<Rightarrow> string \<Rightarrow> int option \<Rightarrow> string" where
  "workflow_id Y m rerun = (case rerun of None \<Rightarrow> ManifestWorkflowID Y m | Some t \<Rightarrow> rerunWorkflowID (ManifestWorkflowID Y m) t)"

lemma apply_id_workflow_id: "\<exists>rerun. apply_id Y S s now m = workflow_id Y m rerun"
  unfolding apply_id_def workflow_id_def
  by (auto split: sum.splits intro: exI [of _ None] exI [of _ "Some now"])

lemma length_ManifestWorkflowID: "length (ManifestWorkflowID Y m) = 19"
proof -
  have "length (hex_EncodeToString s) = 2 * length s" for s by (induction s) (simp_all add: hex_EncodeToString_def)
  then show ?thesis by (simp add: ManifestWorkflowID_def manifestIDLen_def length_Sum256)
qed

lemma plain_id: "list_all id_char i \<Longrightarrow> plain_ns i"
proof -
  have "id_char c \<Longrightarrow> c \<notin> set ''*?[]:'' \<and> c \<noteq> CHR 0x5C" for c
    by (auto simp: id_char_def is_digit_def)
  then show "list_all id_char i \<Longrightarrow> plain_ns i"
    by (auto simp: plain_ns_def glob_plain_def list_all_iff)
qed

text \<open>C26 The identifiers the gateway gives are safe as namespaces of the memory service: they have no colon
  and no character that is special in a pattern.  Two of them are equal only for manifests with
  the same digest and the same kind of run (the first, or the re-run of one second), and no key of
  one run's memory is a key of another's.\<close>

theorem workflow_ids_separate:
  "plain_ns (workflow_id Y m rerun) \<and>
   (workflow_id Y m rerun = workflow_id Y m' rerun' \<longleftrightarrow> ManifestWorkflowID Y m = ManifestWorkflowID Y m' \<and> rerun = rerun') \<and>
   (KVKey (workflow_id Y m rerun) k = KVKey (workflow_id Y m' rerun') k' \<longleftrightarrow>
      ManifestWorkflowID Y m = ManifestWorkflowID Y m' \<and> rerun = rerun' \<and> k = k')"
proof -
  have p: "plain_ns (workflow_id Y m r)" for m r
    by (cases r) (simp_all add: workflow_id_def plain_id workflow_ids)
  have len: "length (ManifestWorkflowID Y m) = length (ManifestWorkflowID Y m')" by (simp add: length_ManifestWorkflowID)
  have eq: "workflow_id Y m rerun = workflow_id Y m' rerun' \<longleftrightarrow> ManifestWorkflowID Y m = ManifestWorkflowID Y m' \<and> rerun = rerun'"
  proof (cases rerun)
    case None
    show ?thesis
    proof (cases rerun')
      case None
      with \<open>rerun = None\<close> show ?thesis by (simp add: workflow_id_def)
    next
      case (Some t)
      have "length (workflow_id Y m rerun) \<noteq> length (workflow_id Y m' rerun')"
        by (simp add: None Some workflow_id_def rerunWorkflowID_def len)
      with None Some show ?thesis by auto
    qed
  next
    case (Some t)
    show ?thesis
    proof (cases rerun')
      case None
      have "length (workflow_id Y m rerun) \<noteq> length (workflow_id Y m' rerun')"
        by (simp add: None Some workflow_id_def rerunWorkflowID_def len)
      with None Some show ?thesis by auto
    next
      case (Some t')
      with \<open>rerun = Some t\<close> show ?thesis
        by (simp add: workflow_id_def rerunWorkflowID_def len Itoa_inj)
    qed
  qed
  moreover have "KVKey (workflow_id Y m rerun) k = KVKey (workflow_id Y m' rerun') k' \<longleftrightarrow>
      workflow_id Y m rerun = workflow_id Y m' rerun' \<and> k = k'"
    using KVKey_eq_iff p unfolding plain_ns_def by blast
  ultimately show ?thesis using p by simp
qed

section \<open>Logs\<close>

lemma lifecycle_not_capability: "t \<in> set lifecycle_types \<Longrightarrow> \<not> MatchesGlob capabilityEventPattern (lifecycleTopic t)"
proof -
  have "list_all (\<lambda>t. \<not> MatchesGlob capabilityEventPattern (lifecycleTopic t)) lifecycle_types" by code_simp
  then show "t \<in> set lifecycle_types \<Longrightarrow> \<not> MatchesGlob capabilityEventPattern (lifecycleTopic t)" by (simp add: list_all_iff)
qed

text \<open>The subscription that the logs of a run use sees nothing of the run's lifecycle: the events of the
  run, the final one included, are acknowledged and dropped, and none of them closes it.\<close>

theorem logs_ignore_lifecycle:
  assumes "Run env ir n = Some (res, tr)" "to_valid_utf8 (ir_WorkflowId ir) = ir_WorkflowId ir"
    and "\<forall>n. to_valid_utf8 (fst (stamp n)) = fst (stamp n)"
  shows "subscription_loop (logs_request w nanos) (map (wire inject) (lifecycle_events stamp k tr) @ ts) =
     subscription_loop (logs_request w nanos) ts"
  using Run_lifecycle [OF assms(1)]
proof (induction tr arbitrary: k)
  case (Cons e tr)
  show ?case
  proof (cases e)
    case (Dispatch i)
    with Cons show ?thesis by simp
  next
    case (Publish t w' st p)
    with Cons.prems have t: "t \<in> set lifecycle_types" and w': "to_valid_utf8 w' = w'" using assms(2) by auto
    have "dispatchMsg False (publish_msg inject (lifecycle_event (stamp k) t w' p)) (logs_request w nanos) = (Ack, None, False)"
      using unmarshal_marshal [OF lifecycle_event_utf8 [OF t w' spec [OF assms(3)]]] lifecycle_not_capability [OF t]
      by (simp add: dispatchMsg_def publish_msg_def logs_request_def) (simp add: lifecycle_event_def)
    with Cons show ?thesis by (simp add: Publish split: prod.split)
  qed
qed simp

end
