(* ===== verification/Gateway_Example.thy ===== *)
theory Gateway_Example
  imports System_Gateway Engine_Example
begin

text \<open>
  Instances of the properties of the engine adapter's service and of the gateway: an Argo server that
  holds one workflow, a Temporal server, the example workflow of the compiler applied through the
  gateway, a controller with one resource.
\<close>

section \<open>Engines\<close>

definition ex_awf :: "string \<Rightarrow> string \<Rightarrow> ArgoWorkflow" where
  "ex_awf name phase = (buildArgoWorkflow name ''{}'' [] \<lparr>cfg_Namespace = ''argo'', cfg_WorkflowTemplateRef = '''', cfg_ServiceAccountName = ''''\<rparr>)
     \<lparr>ar_Status := \<lparr>aw_Phase = phase, aw_Message = '''', aw_StartedAt = '''', aw_FinishedAt = ''''\<rparr>\<rparr>"

definition ex_cfg :: ArgoConfig where
  "ex_cfg = \<lparr>cfg_Namespace = ''argo'', cfg_WorkflowTemplateRef = '''', cfg_ServiceAccountName = ''''\<rparr>"

text \<open>The server's state is the one workflow it holds.\<close>

definition ex_argo :: "ArgoWorkflow argo_client" where
  "ex_argo = \<lparr>ac_SubmitWorkflow = (\<lambda>a ns w. (None, w)), ac_SendEvent = (\<lambda>a ns d p. (None, a)),
     ac_GetWorkflow = (\<lambda>a ns n. if am_Name (ar_Metadata a) = n then Inr a else Inl ArgoNotFound),
     ac_DeleteWorkflow = (\<lambda>a ns n. (None, a)),
     ac_answers = (\<lambda>a ns n. [(Inr (ex_awf n ''Running''), 5, None), (Inr (ex_awf n ''Running''), 7, None), (Inr a, 9, None)])\<rparr>"

abbreviation ex_argo_engine :: "ArgoWorkflow workflow_engine" where
  "ex_argo_engine \<equiv> ArgoEngine ex_argo (\<lambda>ir. Inr ''{}'') ex_cfg"

lemmas ex_argo_simps = ArgoEngine_def argo_GetStatus_def argo_Cancel_def ex_argo_def ex_awf_def buildArgoWorkflow_def
  runToProto_def mapArgoPhase_def status_IsTerminal_def workflow_status_defs eh_GetWorkflowStatus_def eh_WatchWorkflow_def argo_Watch_def
  argo_event_def eventToProto_def

theorem argo_watch_reports_phases_witness:
  "\<exists>evs. eh_WatchWorkflow ex_argo_engine (ex_awf ''r1'' ''Succeeded'') ''r1'' (\<lambda>_ _. None) = Some (None, evs) \<and>
     map pe_ToState evs = [''Running'', ''Succeeded'']"
proof -
  let ?polls = "[(ex_awf ''r1'' ''Running'', 5), (ex_awf ''r1'' ''Running'', 7)]"
  have "ac_answers ex_argo (ex_awf ''r1'' ''Succeeded'') (cfg_Namespace ex_cfg) ''r1'' =
      map (\<lambda>(w, now). (Inr w, now, None)) ?polls @ (Inr (ex_awf ''r1'' ''Succeeded''), 9, None) # []"
    by (simp add: ex_argo_def)
  from argo_watch_reports_phases [where protojson = "\<lambda>ir. Inr ''{}''" and send = "\<lambda>_ _. None", OF _ _ this]
  obtain evs where "eh_WatchWorkflow ex_argo_engine (ex_awf ''r1'' ''Succeeded'') ''r1'' (\<lambda>_ _. None) = Some (None, evs)"
    "'''' # map pe_ToState evs = remdups_adj ('''' # map (\<lambda>p. aw_Phase (ar_Status (fst p))) ?polls @ [aw_Phase (ar_Status (ex_awf ''r1'' ''Succeeded''))])"
    by (auto simp: ex_argo_simps)
  then show ?thesis by (auto simp: ex_awf_def)
qed

theorem argo_port_contract_witness:
  "\<exists>err err'. eh_CancelWorkflow ex_argo_engine (ex_awf ''r1'' ''Failed'') ''r1'' '''' 0 = (Inl (FailedPrecondition, err), ex_awf ''r1'' ''Failed'') \<and>
     eh_CancelWorkflow ex_argo_engine (ex_awf ''r1'' ''Failed'') ''r2'' '''' 0 = (Inl (NotFound, err'), ex_awf ''r1'' ''Failed'')"
proof -
  note c = argo_port_contract [OF refl, where A = ex_argo and protojson = "\<lambda>ir. Inr ''{}''" and cfg = ex_cfg
      and a = "ex_awf ''r1'' ''Failed''" and reason = "''''" and now = 0]
  obtain pb where "eh_GetWorkflowStatus ex_argo_engine (ex_awf ''r1'' ''Failed'') ''r1'' = Inr pb" "status_IsTerminal (pr_Status pb)"
    by (simp add: ex_argo_simps)
  then have 1: "\<exists>err. eh_CancelWorkflow ex_argo_engine (ex_awf ''r1'' ''Failed'') ''r1'' '''' 0 = (Inl (FailedPrecondition, err), ex_awf ''r1'' ''Failed'')"
    using c [where r = "''r1''"] by blast
  obtain e where "eh_GetWorkflowStatus ex_argo_engine (ex_awf ''r1'' ''Failed'') ''r2'' = Inl (NotFound, e)"
    by (simp add: ex_argo_simps engine_grpcErr_def errors_Is_def argo_not_found_def)
  then have "\<exists>err. eh_CancelWorkflow ex_argo_engine (ex_awf ''r1'' ''Failed'') ''r2'' '''' 0 = (Inl (NotFound, err), ex_awf ''r1'' ''Failed'')"
    using c [where r = "''r2''"] by blast
  with 1 show ?thesis by blast
qed

definition ex_temporal :: "unit temporal_client" where
  "ex_temporal = \<lparr>tc_ExecuteWorkflow = (\<lambda>t w q ir. (None, t)), tc_SignalWorkflow = (\<lambda>t w e p. (None, t)),
     tc_CancelWorkflow = (\<lambda>t w. (None, t)), tc_DescribeWorkflowExecution = (\<lambda>t w. Inr (Some EXECUTION_COMPLETED)),
     tc_GetWorkflow = (\<lambda>t w. Inr []),
     tc_GetWorkflowHistory = (\<lambda>t w. if w = ''gone'' then Some [] else
       Some [Inr \<lparr>hev_EventId = 1, hev_EventType = 1, hev_TypeName = ''Started'', hev_EventTime = None\<rparr>,
             Inr \<lparr>hev_EventId = 2, hev_EventType = 2, hev_TypeName = ''Completed'', hev_EventTime = None\<rparr>])\<rparr>"

theorem temporal_port_limits_witness:
  "\<exists>evs. eh_WatchWorkflow (TemporalEngine ex_temporal None ''q'' ''ns'') () ''r1'' (\<lambda>_ _. None) = Some (None, evs) \<and>
      ends_terminal (map pe_Status evs) \<and>
      eh_WatchWorkflow (TemporalEngine ex_temporal None ''q'' ''ns'') () ''gone'' (\<lambda>_ _. None) = Some (None, [])"
proof -
  note t = temporal_port_limits [OF refl, where T = ex_temporal and ctx = None and taskQueue = "''q''" and ns = "''ns''" and t = "()"
      and send = "\<lambda>_ _. None"]
  have "tc_GetWorkflowHistory ex_temporal () ''gone'' = Some []" by (simp add: ex_temporal_def)
  moreover have "\<not> closed_history []" by (simp add: closed_history_def)
  ultimately obtain evs0 where "eh_WatchWorkflow (TemporalEngine ex_temporal None ''q'' ''ns'') () ''gone'' (\<lambda>_ _. None) = Some (None, evs0)"
      "length evs0 = length ([] :: (temporal_err + history_event) list)"
    using t [where r = "''gone''" and hs = "[]"] by blast
  then have gone: "eh_WatchWorkflow (TemporalEngine ex_temporal None ''q'' ''ns'') () ''gone'' (\<lambda>_ _. None) = Some (None, [])" by simp
  have h: "pred_option closed_history (tc_GetWorkflowHistory ex_temporal () ''r1'')"
    by (simp add: ex_temporal_def closed_history_def IsTerminalHistoryEvent_def history_event_defs)
  obtain evs where evs: "eh_WatchWorkflow (TemporalEngine ex_temporal None ''q'' ''ns'') () ''r1'' (\<lambda>_ _. None) = Some (None, evs)"
    by (simp add: eh_WatchWorkflow_def TemporalEngine_def ex_temporal_def IsTerminalHistoryEvent_def history_event_defs)
  with h have "ends_terminal (map pe_Status evs)" using t [where r = "''r1''"] by blast
  with evs gone show ?thesis by blast
qed

section \<open>A run and its followers\<close>

definition ex_stamp :: "nat \<Rightarrow> string \<times> int" where "ex_stamp n = (''id'', 7)"

lemma ex_stamp_utf8: "\<forall>n. to_valid_utf8 (fst (ex_stamp n)) = fst (ex_stamp n)"
  by (simp add: ex_stamp_def)

lemma ex_two_id: "ir_WorkflowId ex_two = ''wf-2''" "to_valid_utf8 ''wf-2'' = ''wf-2''"
  by (simp_all add: ex_two_def)


theorem logs_ignore_lifecycle_witness:
  "subscription_loop (logs_request ''wf-2'' 5) (map (wire (\<lambda>h. h)) (lifecycle_events ex_stamp 0 (snd ex_run)) @ [TurnDone]) = ([], True)"
  using logs_ignore_lifecycle [OF ex_run _ ex_stamp_utf8, where w = "''wf-2''" and nanos = 5 and inject = "\<lambda>h. h" and k = 0 and ts = "[TurnDone]"]
  by (simp add: ex_two_id)

section \<open>The gateway\<close>

text \<open>A YAML library, a compiler and an engine that knows one status for every run.\<close>

definition ex_any :: "string yaml_any" where
  "ex_any = \<lparr>yy_Unmarshal = Inr, yy_Marshal = Inr, yy_Kind = (\<lambda>s. Inr ''Workflow'')\<rparr>"

definition ex_status_engine :: "string \<Rightarrow> nat engine_port" where
  "ex_status_engine status = \<lparr>po_SubmitWorkflow = (\<lambda>n ir hint w ns. (Inr w, Suc n)),
     po_GetWorkflowStatus = (\<lambda>n r. Inr \<lparr>ws_RunID = r, ws_WorkflowID = r, ws_Status = status, ws_CurrentState = '''', ws_Outputs = []\<rparr>),
     po_CancelWorkflow = (\<lambda>n r. (None, n)), po_WatchWorkflow = (\<lambda>n r. Some (None, []))\<rparr>"

definition ex_service :: "string \<Rightarrow> (nat, unit) ApplyService" where
  "ex_service status = \<lparr>sv_compiler = (\<lambda>m ns dry. Inr \<lparr>gcr_IRBytes = ''ir'', gcr_Namespace = ''default'', gcr_Warnings = [], gcr_Errors = []\<rparr>),
     sv_engine = ex_status_engine status, sv_eventbus = None\<rparr>"

theorem apply_idempotent_while_running_witness:
  "applies ex_any (ex_service statusRunning) [] ''kind: Workflow'' [1, 2] 5 =
     (replicate 2 (202, ApplyBody (ManifestWorkflowID ex_any ''kind: Workflow'') ''existing'' []), 5)"
proof -
  let ?S = "ex_service statusRunning"
  have "sv_compiler ?S ''kind: Workflow'' (gm_get '''' [] ''namespace'') False =
      Inr \<lparr>gcr_IRBytes = ''ir'', gcr_Namespace = ''default'', gcr_Warnings = [], gcr_Errors = []\<rparr>"
    by (simp add: ex_service_def)
  from apply_idempotent_while_running [OF this _ _ _ _ _, where Y = ex_any and s = 5 and ts = "[1, 2]"
      and run = "\<lparr>ws_RunID = ManifestWorkflowID ex_any ''kind: Workflow'', ws_WorkflowID = ManifestWorkflowID ex_any ''kind: Workflow'',
        ws_Status = statusRunning, ws_CurrentState = '''', ws_Outputs = []\<rparr>"]
  show ?thesis
    by (simp add: ex_any_def DetectKind_def maxBodyBytes_def ex_service_def ex_status_engine_def gm_get_def numeral_2_eq_2)
qed

lemma ex_completed_apply:
  "handleApply ex_any (ex_service statusCompleted) n t [] ''kind: Workflow'' =
     ((202, ApplyBody (rerunWorkflowID (ManifestWorkflowID ex_any ''kind: Workflow'') t) ''new'' []), Suc n)"
  using status_constants
  by (simp add: handleApply_def readBody_def maxBodyBytes_def DetectKind_def ex_any_def hd_applyWorkflow_def ApplyWorkflow_def gw_submit_def
      ex_service_def ex_status_engine_def gm_get_def Let_def)



section \<open>A manifest through the gateway to Argo\<close>

definition ex_codec :: proto_codec where
  "ex_codec = \<lparr>pb_Marshal = (\<lambda>ir. Inr (ir_Name ir)),
     pb_Unmarshal = (\<lambda>d. if d = ir_Name ex_ir then Inr ex_ir else Inl ''unknown message'')\<rparr>"

lemma ex_compiled: "compiled_irs ex_yaml None ex_env = {ex_ir}"
proof -
  have "w = ex_ir" if c: "CompileWorkflow ex_yaml None ex_env req = Inr resp" "cr_WorkflowIr resp = Some w" for req resp w
  proof -
    have "ParseManifest ex_yaml d = ParseManifest ex_yaml d'" for d d' by (simp add: ParseManifest_def ex_yaml_def)
    with CompileWorkflow_ir [OF c] CompileWorkflow_ir [OF ex_compile ex_ir] show ?thesis by (metis Inr_inject)
  qed
  then show ?thesis using ex_compile ex_ir by (auto simp: compiled_irs_def)
qed

lemma ex_codec_ok: "codec_ok ex_codec (compiled_irs ex_yaml None ex_env)"
  by (simp add: ex_compiled codec_ok_def ex_codec_def)

abbreviation ex_gateway :: "(ArgoWorkflow, unit) ApplyService" where
  "ex_gateway \<equiv> gateway_service ex_codec ex_yaml None ex_env ex_argo_engine 3 None"

lemma ex_gateway_compiles:
  "sv_compiler ex_gateway ''kind: Workflow'' '''' False = Inr (compileResultFromProto ex_codec ex_response)"
  using ex_compile by (simp add: gateway_service_def cl_CompileWorkflow_def compiler_stub_def ex_req_def)

lemma ex_no_errors: "cr_Errors ex_response = []" "ir_Name ex_ir = ''demo''"
  by code_simp+

lemma ex_gateway_unknown:
  assumes "length w = 19"
  shows "\<exists>err. po_GetWorkflowStatus (sv_engine ex_gateway) (ex_awf ''none'' '''') w = Inl err \<and> errors_Is err ErrNotFound"
proof -
  have "''none'' \<noteq> w" "w \<noteq> ''''" using assms by auto
  then show ?thesis
    by (simp add: gateway_service_def gateway_engine_def cl_GetWorkflowStatus_def engine_stub_def ex_argo_simps
        engine_grpcErr_def errors_Is_def argo_not_found_def mapEngineGRPCError_def)
qed

lemma ex_gateway_applied:
  "\<exists>s'. handleApply ex_any ex_gateway (ex_awf ''none'' '''') 9 [] ''kind: Workflow'' =
     ((202, ApplyBody (ManifestWorkflowID ex_any ''kind: Workflow'') ''new'' []), s')"
proof -
  let ?i = "ManifestWorkflowID ex_any ''kind: Workflow''"
  have "?i \<noteq> ''''" using length_ManifestWorkflowID [of ex_any "''kind: Workflow''"] by auto
  then obtain s' where "po_SubmitWorkflow (sv_engine ex_gateway) (ex_awf ''none'' '''') ''demo'' hint ?i ns = (Inr ?i, s')" for hint ns
    by (simp add: gateway_service_def gateway_engine_def cl_SubmitWorkflow_def ex_codec_def ex_no_errors engine_stub_def eh_SubmitWorkflow_def
        ArgoEngine_def argo_Submit_def ex_argo_def workflowIRToJSON_def Let_def)
  then show ?thesis
    using ex_gateway_unknown [OF length_ManifestWorkflowID, of ex_any "''kind: Workflow''"] ex_gateway_compiles
    by (auto simp: handleApply_def readBody_def maxBodyBytes_def DetectKind_def ex_any_def [THEN arg_cong [where f = yy_Kind]] hd_applyWorkflow_def
        ApplyWorkflow_def gw_submit_def gm_get_def Let_def compileResultFromProto_def ex_no_errors ex_ir ex_codec_def)
qed

theorem accepted_manifest_runs_witness:
  "\<exists>w run s'. en_Submit ex_argo_engine (ex_awf ''none'' '''') w [] 3 = (Inr run, s') \<and> ir_closed w \<and> ir_live w \<and>
     wr_RunID run = ManifestWorkflowID ex_any ''kind: Workflow''"
proof -
  obtain s' where h: "handleApply ex_any ex_gateway (ex_awf ''none'' '''') 9 [] ''kind: Workflow'' =
      ((202, ApplyBody (ManifestWorkflowID ex_any ''kind: Workflow'') ''new'' []), s')"
    using ex_gateway_applied by blast
  show ?thesis using accepted_manifest_runs [OF ex_codec_ok _ refl h] ex_decode by blast
qed

section \<open>The controller\<close>

definition ex_cr :: "string workflow_cr" where
  "ex_cr = \<lparr>wc_name = ''demo'', wc_namespace = ''team'', wc_generation = 1, wc_spec = Some [(''engine'', ''argo'')], wc_status = None\<rparr>"

definition ex_kube :: "(string workflow_cr, string) kube_client" where
  "ex_kube = \<lparr>k_Get = (\<lambda>k (ns, n). if wc_namespace k = ns \<and> wc_name k = n then Inr k else Inl KubeNotFound), k_StatusUpdate = (\<lambda>k u. (None, u))\<rparr>"

definition ex_crd :: "string crd_lib" where
  "ex_crd = \<lparr>cl_as_string = Some, cl_marshal = (\<lambda>t. Inr ''kind: Workflow'')\<rparr>"

lemma ex_kube_ok: "kube_ok ex_kube"
  by (auto simp: kube_ok_def ex_kube_def split: if_splits)

lemma ex_reconciled:
  "\<exists>k'. crd_Reconcile ex_kube ex_crd ex_any (ex_service statusCompleted) 7 ex_cr 5 (''team'', ''demo'') = (None, k', 6)"
  using status_constants
  by (simp add: crd_Reconcile_def ex_kube_def ex_cr_def needsReconcile_def buildManifest_def ex_crd_def spec_string_def Let_def ApplyWorkflow_def
      gw_submit_def ex_service_def ex_status_engine_def writeStatus_def)


end
