(* ===== verification/Spec2Isabelle.thy ===== *)
theory Spec2Isabelle
  imports Compiler_Example Engine_Example Broker_Example Events_Example Sched_Example System_Example Memory_Example Gateway_Example
begin

text \<open>
  Verification of the control plane of Zynax: the Go services under \<^verbatim>\<open>services/\<close> and the events
  client \<^verbatim>\<open>libs/zynaxevents\<close>.  A manifest enters at the API gateway, the workflow compiler turns it
  into an intermediate representation, the engine adapter runs it, the task broker dispatches the
  capabilities of its states to agents that the scheduler selects, events go through JetStream,
  and the agents keep their data in the memory service.

  \<^bold>\<open>Conventions.\<close>  A Go map is an association list without duplicate keys whose order is one
  iteration order; an error is a value (\<open>go_error\<close>) with its chain of wrapped errors; a string is a
  list of bytes; the texts of errors stay unrendered.  Words have the width of the code where
  overflow matters.  The clock, random identifiers and the error of a context are arguments.  What
  is not in the repository (the YAML library, protobuf encoding, Temporal, the Argo server,
  JetStream, Redis, Postgres, the Kubernetes API, the metrics backend, templates and CEL) is a
  parameter, a record of its calls; what the code relies on is a named hypothesis (\<open>redis_ok\<close>,
  \<open>pg_ok\<close>, \<open>kube_ok\<close>, \<open>codec_ok\<close>), and the \<open>_Example\<close> theories give an instance of each.

  \<^bold>\<open>The Go library.\<close>  \<open>Zynax_Prelude\<close>, \<open>Go_Lib\<close>, \<open>Go_Json\<close>, \<open>Go_Regexp\<close>, \<open>Go_Encoding\<close>, \<open>Go_Float\<close>,
  \<open>Go_Time\<close> and \<open>Go_Sha256\<close>: maps, errors, \<^verbatim>\<open>strconv\<close>, durations, \<^verbatim>\<open>encoding/json\<close>, regular expressions,
  base64 and hex, IEEE double precision, RFC 3339 times and SHA-256.

  \<^bold>\<open>Workflow compiler\<close> (\<^verbatim>\<open>services/workflow-compiler\<close>).  \<open>Compiler_Manifest\<close> (\<^verbatim>\<open>ParseManifest\<close>),
  \<open>Compiler_Graph\<close> (\<^verbatim>\<open>Build\<close>), \<open>Compiler_Search\<close> and \<open>Compiler_Validators\<close> (the graph searches and the
  nine validators), \<open>Compiler_IR\<close> (\<^verbatim>\<open>ToIR\<close>), \<open>Compiler_Server\<close> (policy gate and handlers).  They show
  which manifests are accepted, that the searches compute reachability, that every trapped cycle
  is found, and what holds of a compiled workflow.

  \<^bold>\<open>Engine adapter\<close> (\<^verbatim>\<open>services/engine-adapter\<close>).  \<open>Engine_Data\<close> (run data and output bounds),
  \<open>Engine_Interpreter\<close> (the run loop), \<open>Engine_Service\<close> (runs, the Temporal engine, the handlers),
  \<open>Engine_Argo\<close> (the Argo engine and the contract of the port), \<open>Engine_Lifecycle\<close> (activities, quota,
  lifecycle events).  They show how runs end, that what was written is read, what a watch and a
  cancellation promise over each engine, and what a follower sees.  \<open>Run\<close> takes the number of turns
  it may make and is \<open>None\<close> beyond it: a workflow may loop for ever, and one with acyclic
  transitions ends within as many turns as it has states.  A watch that waits for ever is \<open>None\<close>.

  \<^bold>\<open>Task broker\<close> (\<^verbatim>\<open>services/task-broker\<close>).  \<open>Broker_Task\<close> (tasks and the in-memory repository behind the
  locale of the repository port), \<open>Broker_Slice\<close> (context slices), \<open>Broker_Service\<close> (the service over
  any repository), \<open>Broker_Interleaving\<close> (interleaved operations, refinement of a table of tasks,
  recovery), \<open>Broker_Api\<close> (handlers, scheduler client, executor, event publisher).

  \<^bold>\<open>Scheduler\<close> (\<^verbatim>\<open>services/agent-registry\<close>).  \<open>Sched_Index\<close> (the capability index), \<open>Sched_Scorer\<close>
  (selection), \<open>Sched_Api\<close> (handler, reconcilers, metrics cache): selection is sound, complete, least
  in score and fair in rotation, and the index refines a map of agents.

  \<^bold>\<open>Events client\<close> (\<^verbatim>\<open>libs/zynaxevents\<close>).  \<open>Events_Naming\<close> (streams, subjects, globs), \<open>Events_Client\<close>
  (publish, subscribe, dead letters), \<open>Events_Delivery\<close> (what subscribers get).

  \<^bold>\<open>Memory service\<close> (\<^verbatim>\<open>services/memory-service\<close>).  \<open>Memory_Store\<close> (keys over Redis) refines one map with
  expiry per namespace, for namespaces without a colon or pattern characters; \<open>Memory_Api\<close> (vectors
  over Postgres, handlers) shows which part of a filter reaches the SQL text and what queries return.

  \<^bold>\<open>API gateway\<close> (\<^verbatim>\<open>services/api-gateway\<close>).  \<open>Gateway_Apply\<close> (the apply service), \<open>Gateway_Clients\<close> (its ports
  over the other services), \<open>Gateway_Http\<close> (the handlers), \<open>Gateway_Crd\<close> (the controller of Workflow
  resources): the effect of an apply, re-runs, the event stream, reconciliation.

  \<^bold>\<open>Across services.\<close>  \<open>System_Dispatch\<close> composes the engine adapter, the broker and the scheduler,
  \<open>System_Gateway\<close> the gateway, the compiler, an engine and the memory service, and this theory the
  compiler and the interpreter.

  \<^bold>\<open>Not modelled.\<close>  The Postgres repository of the broker (the service is verified over the
  in-memory one), the entry points, TLS, probes, tracing and configuration (I/O and wiring), the
  HTTP requests of the Argo and metrics clients, the set-up of connections and of the controller
  managers, the command line client, the CI tool, and the agents with their adapters and SDK,
  which are the other side of the executor.
\<close>

section \<open>From the manifest to the run\<close>

text \<open>C14 A workflow that \<^verbatim>\<open>CompileWorkflow\<close> accepted runs in the interpreter of the engine adapter
  without meeting an unknown state or a foreign data context, whatever the capabilities, the
  templates and the guards answer: the errors it can end with are those of a capability, of a
  data reference, of the size of its outputs and of an event that no transition takes.  If its
  transitions are acyclic it ends within as many turns as it has states.\<close>

theorem compiled_workflow_runs:
  assumes "CompileWorkflow yaml pg env req = Inr r" "cr_WorkflowIr r = Some w"
    and "\<And>root raw. yaml_Decode yaml root = Inr raw \<Longrightarrow> gm_ok (ysp_States (yf_Spec raw))"
  shows "(\<forall>n e tr. Run eenv w n = Some (Inl e, tr) \<longrightarrow> run_error e) \<and>
    (acyclic (ir_edges w) \<longrightarrow> (\<exists>out. Run eenv w (length (ir_States w)) = Some out))"
proof -
  have closed: "ir_closed w" using compiled_closed_live [OF assms(1,2)] assms(3) by blast
  then show ?thesis using Run_closed [OF closed] Run_acyclic [OF closed] by blast
qed

theorem compiled_workflow_runs_witness:
  "\<exists>e tr. Run ex_engine_down ex_ir 3 = Some (Inl e, tr) \<and> run_error e"
proof -
  have "(case Run ex_engine_down ex_ir 3 of Some (Inl e, tr) \<Rightarrow> True | _ \<Rightarrow> False)" by code_simp
  then obtain e tr where "Run ex_engine_down ex_ir 3 = Some (Inl e, tr)"
    by (auto split: option.splits sum.splits)
  moreover from this have "run_error e"
    using compiled_workflow_runs [OF ex_compile ex_ir, of ex_engine_down] ex_decode by blast
  ultimately show ?thesis by blast
qed

end
